(* ===== verification/Prelude.thy ===== *)
theory Prelude
  imports Main "HOL-Library.State_Monad" "HOL-Library.Sublist"
begin

text \<open>
  Shared vocabulary of the development: the result type of fallible Go functions, Go maps as
  association lists in iteration order, Hoare triples for the state monad in which the stateful
  code is written, and the collections of facts the component proofs use.

  A Go function returning \<open>(T, error)\<close> returns \<open>'e + 'a\<close> here, \<open>Inl\<close> for a non-nil error.
  A Go \<open>map[string]T\<close> that the code ranges over is an association list: its order is the order
  in which one run of the program happens to iterate, so that a theorem about every list with
  the same entries says that the unspecified order does not matter.
\<close>

named_theorems wp \<open>Hoare rules of the state monad and of the operations of the model\<close>
named_theorems go_simps \<open>unfoldings of small operations of the Go standard library\<close>

subsection \<open>Results\<close>

definition is_err :: "'e + 'a \<Rightarrow> bool" where
  "is_err r = (case r of Inl _ \<Rightarrow> True | Inr _ \<Rightarrow> False)"

definition is_ok :: "'e + 'a \<Rightarrow> bool" where
  "is_ok r = (case r of Inl _ \<Rightarrow> False | Inr _ \<Rightarrow> True)"

lemma is_err_simps [simp]: "is_err (Inl e)" "\<not> is_err (Inr x)"
  by (simp_all add: is_err_def)

lemma is_ok_simps [simp]: "\<not> is_ok (Inl e)" "is_ok (Inr x)"
  by (simp_all add: is_ok_def)

lemma not_is_err [simp]: "\<not> is_err r \<longleftrightarrow> is_ok r"
  by (cases r) simp_all

lemma is_ok_conv: "is_ok r \<longleftrightarrow> (\<exists>x. r = Inr x)"
  by (cases r) simp_all

subsection \<open>Go maps\<close>

type_synonym 'v gomap = "(string \<times> 'v) list"

text \<open>Indexing a Go map of strings gives the zero value for a missing key.\<close>

definition lookup0 :: "string gomap \<Rightarrow> string \<Rightarrow> string" where
  "lookup0 m k = (case map_of m k of None \<Rightarrow> [] | Some v \<Rightarrow> v)"

text \<open>Two enumerations of the same Go map.\<close>

definition same_map :: "'v gomap \<Rightarrow> 'v gomap \<Rightarrow> bool" where
  "same_map m n \<longleftrightarrow> distinct (map fst m) \<and> distinct (map fst n) \<and> set m = set n"

lemma same_map_of: "same_map m n \<Longrightarrow> map_of m = map_of n"
  unfolding same_map_def by (metis map_of_inject_set)

lemma same_map_sym: "same_map m n \<Longrightarrow> same_map n m"
  by (simp add: same_map_def)

lemma same_map_lookup0: "same_map m n \<Longrightarrow> lookup0 m k = lookup0 n k"
  by (simp add: lookup0_def same_map_of)

subsection \<open>Lists\<close>

lemma dropWhile_until: "c \<notin> set b \<Longrightarrow> dropWhile (\<lambda>x. x \<noteq> c) (b @ c # t) = c # t"
  by (induction b) auto

lemma find_sorted:
  "find P xs = Some x \<Longrightarrow> sorted_wrt R xs \<Longrightarrow>
   x \<in> set xs \<and> P x \<and> (\<forall>y \<in> set xs. P y \<longrightarrow> y = x \<or> R x y)"
  by (induction xs) (auto split: if_splits)

lemma find_append_case:
  "find P (xs @ ys) = (case find P xs of None \<Rightarrow> find P ys | Some x \<Rightarrow> Some x)"
  by (induction xs) simp_all

lemma takeWhile_until: "c \<notin> set b \<Longrightarrow> takeWhile (\<lambda>x. x \<noteq> c) (b @ c # t) = b"
  by (induction b) auto

subsection \<open>Early returns\<close>

text \<open>
  \<open>x, err := m; if err != nil { return f(err) }; k(x)\<close>, the same for a call without effects, and a
  guard \<open>if b { return e }\<close>.
\<close>

definition attempt ::
  "('s, 'e + 'a) state \<Rightarrow> ('e \<Rightarrow> 'f) \<Rightarrow> ('a \<Rightarrow> ('s, 'f + 'b) state) \<Rightarrow> ('s, 'f + 'b) state" where
  "attempt m f k =
     State_Monad.bind m (\<lambda>r. case r of Inl e \<Rightarrow> State_Monad.return (Inl (f e)) | Inr x \<Rightarrow> k x)"

definition check :: "'e + 'a \<Rightarrow> ('a \<Rightarrow> ('s, 'e + 'b) state) \<Rightarrow> ('s, 'e + 'b) state" where
  "check r k = (case r of Inl e \<Rightarrow> State_Monad.return (Inl e) | Inr x \<Rightarrow> k x)"

definition guarded :: "bool \<Rightarrow> 'e \<Rightarrow> ('s, 'e + 'b) state \<Rightarrow> ('s, 'e + 'b) state" where
  "guarded b e m = (if b then State_Monad.return (Inl e) else m)"

lemma run_attempt:
  "run_state (attempt m f k) s =
     (case run_state m s of
        (Inl e, t) \<Rightarrow> (Inl (f e), t)
      | (Inr x, t) \<Rightarrow> run_state (k x) t)"
  by (simp add: attempt_def split: prod.split sum.split)

lemma attempt_Inr:
  "run_state (attempt m f k) s = (Inr v, t) \<longleftrightarrow>
     (\<exists>x u. run_state m s = (Inr x, u) \<and> run_state (k x) u = (Inr v, t))"
  by (cases "run_state m s"; cases "fst (run_state m s)") (auto simp: run_attempt)

lemma check_Inr:
  "run_state (check r k) s = (Inr v, t) \<longleftrightarrow> (\<exists>x. r = Inr x \<and> run_state (k x) s = (Inr v, t))"
  by (cases r) (auto simp: check_def)

lemma guarded_Inr:
  "run_state (guarded b e m) s = (Inr v, t) \<longleftrightarrow> \<not> b \<and> run_state m s = (Inr v, t)"
  by (simp add: guarded_def)

lemma run_check:
  "run_state (check r k) s = (case r of Inl e \<Rightarrow> (Inl e, s) | Inr x \<Rightarrow> run_state (k x) s)"
  by (simp add: check_def split: sum.split)

lemma run_guarded:
  "run_state (guarded b e m) s = (if b then (Inl e, s) else run_state m s)"
  by (simp add: guarded_def)

subsection \<open>Hoare triples\<close>

text \<open>
  \<open>triple P m Q\<close>: run from a state with \<open>P\<close>, \<open>m\<close> ends with a value and a state related by
  \<open>Q\<close>. The monad is total, so a triple is about every run.
\<close>

definition triple :: "('s \<Rightarrow> bool) \<Rightarrow> ('s, 'a) state \<Rightarrow> ('a \<Rightarrow> 's \<Rightarrow> bool) \<Rightarrow> bool" where
  "triple P m Q \<longleftrightarrow> (\<forall>s. P s \<longrightarrow> (case run_state m s of (x, t) \<Rightarrow> Q x t))"

lemma tripleI: "(\<And>s x t. P s \<Longrightarrow> run_state m s = (x, t) \<Longrightarrow> Q x t) \<Longrightarrow> triple P m Q"
  by (auto simp: triple_def)

lemma tripleD: "triple P m Q \<Longrightarrow> P s \<Longrightarrow> run_state m s = (x, t) \<Longrightarrow> Q x t"
  by (auto simp: triple_def)

lemma triple_bind [wp]:
  "triple P m R \<Longrightarrow> (\<And>x. triple (R x) (f x) Q) \<Longrightarrow> triple P (State_Monad.bind m f) Q"
  by (fastforce simp: triple_def split: prod.splits)

lemma triple_return [wp]: "(\<And>s. P s \<Longrightarrow> Q x s) \<Longrightarrow> triple P (State_Monad.return x) Q"
  by (simp add: triple_def)

lemma triple_weaken:
  "triple P m Q \<Longrightarrow> (\<And>s. P' s \<Longrightarrow> P s) \<Longrightarrow> (\<And>x s. Q x s \<Longrightarrow> Q' x s) \<Longrightarrow> triple P' m Q'"
  by (fastforce simp: triple_def split: prod.splits)

lemma triple_attempt:
  "triple P m R \<Longrightarrow> (\<And>e s. R (Inl e) s \<Longrightarrow> Q (Inl (f e)) s) \<Longrightarrow>
   (\<And>x. triple (R (Inr x)) (k x) Q) \<Longrightarrow> triple P (attempt m f k) Q"
  unfolding attempt_def by (rule triple_bind, assumption) (auto intro: triple_return split: sum.split)

lemma triple_check:
  "(\<And>e s. r = Inl e \<Longrightarrow> P s \<Longrightarrow> Q (Inl e) s) \<Longrightarrow> (\<And>x. r = Inr x \<Longrightarrow> triple P (k x) Q) \<Longrightarrow>
   triple P (check r k) Q"
  by (cases r) (auto simp: check_def intro: triple_return)

lemma triple_guarded:
  "(\<And>s. b \<Longrightarrow> P s \<Longrightarrow> Q (Inl e) s) \<Longrightarrow> (\<not> b \<Longrightarrow> triple P m Q) \<Longrightarrow> triple P (guarded b e m) Q"
  by (auto simp: guarded_def intro: triple_return)

text \<open>
  An operation keeps a predicate of the state when it holds before and after: the form in which
  "no request of this kind is sent" and "this volume's entry is left alone" are stated.
\<close>

definition keeps :: "('s \<Rightarrow> bool) \<Rightarrow> ('s, 'a) state \<Rightarrow> bool" where
  "keeps P m \<longleftrightarrow> triple P m (\<lambda>_. P)"

lemma keepsI: "(\<And>s. P s \<Longrightarrow> P (snd (run_state m s))) \<Longrightarrow> keeps P m"
  by (fastforce simp: keeps_def triple_def split: prod.splits)

lemma keepsD: "keeps P m \<Longrightarrow> P s \<Longrightarrow> P (snd (run_state m s))"
  by (cases "run_state m s") (auto simp: keeps_def dest: tripleD)

lemma keeps_return [wp, simp]: "keeps P (State_Monad.return x)"
  by (simp add: keeps_def triple_def)

lemma keeps_bind [wp]:
  "keeps P m \<Longrightarrow> (\<And>x. keeps P (f x)) \<Longrightarrow> keeps P (State_Monad.bind m f)"
  by (simp add: keeps_def triple_bind)

lemma keeps_if [wp]: "(b \<Longrightarrow> keeps P m) \<Longrightarrow> (\<not> b \<Longrightarrow> keeps P n) \<Longrightarrow> keeps P (if b then m else n)"
  by simp

lemma keeps_sum [wp]:
  "(\<And>e. r = Inl e \<Longrightarrow> keeps P (f e)) \<Longrightarrow> (\<And>x. r = Inr x \<Longrightarrow> keeps P (g x)) \<Longrightarrow>
   keeps P (case r of Inl e \<Rightarrow> f e | Inr x \<Rightarrow> g x)"
  by (cases r) simp_all

lemma keeps_option [wp]:
  "(r = None \<Longrightarrow> keeps P m) \<Longrightarrow> (\<And>x. r = Some x \<Longrightarrow> keeps P (g x)) \<Longrightarrow>
   keeps P (case r of None \<Rightarrow> m | Some x \<Rightarrow> g x)"
  by (cases r) simp_all

lemma keeps_attempt [wp]:
  "keeps P m \<Longrightarrow> (\<And>x. keeps P (k x)) \<Longrightarrow> keeps P (attempt m f k)"
  unfolding attempt_def by (intro keeps_bind keeps_sum keeps_return)

lemma keeps_check [wp]: "(\<And>x. r = Inr x \<Longrightarrow> keeps P (k x)) \<Longrightarrow> keeps P (check r k)"
  by (simp add: check_def keeps_sum)

lemma keeps_guarded [wp]: "(\<not> b \<Longrightarrow> keeps P m) \<Longrightarrow> keeps P (guarded b e m)"
  by (simp add: guarded_def)

lemma keeps_get [wp, simp]: "keeps P State_Monad.get"
  by (simp add: keeps_def triple_def)

end
