(* ===== verification/Go_Strings.thy ===== *)
theory Go_Strings
  imports Prelude
begin

text \<open>
  The operations of Go's standard library that the driver uses on strings: prefixes and cuts,
  decimal formatting and parsing (\<open>strconv\<close>), booleans, UTF-8 decoding of a \<open>range\<close> loop, white
  space, lower case, and the paths of package \<open>path\<close>. A Go string is a list of bytes, written
  as a HOL \<open>string\<close>; a rune is a code point, a \<open>nat\<close>.
\<close>

subsection \<open>Substrings\<close>

definition has_prefix :: "string \<Rightarrow> string \<Rightarrow> bool" where
  "has_prefix s p = prefix p s"

definition contains :: "string \<Rightarrow> string \<Rightarrow> bool" where
  "contains s sub = sublist sub s"

text \<open>\<open>strings.Cut(s, sep)\<close> for a separator of one byte: (before, after, found).\<close>

fun cut :: "string \<Rightarrow> char \<Rightarrow> string \<times> string \<times> bool" where
  "cut [] c = ([], [], False)"
| "cut (x # s) c =
     (if x = c then ([], s, True)
      else (case cut s c of (before, after, found) \<Rightarrow> (x # before, after, found)))"

lemma cut_append [simp]: "c \<notin> set k \<Longrightarrow> cut (k @ c # v) c = (k, v, True)"
  by (induction k) auto

lemma cut_key_append [simp]: "fst (cut (fst (cut s c) @ c # v) c) = fst (cut s c)"
  by (induction s) (auto split: prod.splits)

lemma cut_no_sep: "c \<notin> set (fst (cut s c))"
  by (induction s) (auto split: prod.splits)

lemma cut_join: "cut s c = (k, v, True) \<Longrightarrow> s = k @ c # v"
  by (induction s arbitrary: k) (auto split: prod.splits if_splits)

text \<open>\<open>strings.TrimLeft(s, cutset)\<close>.\<close>

definition trim_left :: "string \<Rightarrow> string \<Rightarrow> string" where
  "trim_left s cutset = dropWhile (\<lambda>c. c \<in> set cutset) s"

subsection \<open>Decimal numbers\<close>

definition digit_char :: "nat \<Rightarrow> char" where
  "digit_char d = char_of (48 + d)"

definition is_digit :: "char \<Rightarrow> bool" where
  "is_digit c \<longleftrightarrow> 48 \<le> (of_char c :: nat) \<and> (of_char c :: nat) \<le> 57"

definition digit_val :: "char \<Rightarrow> nat" where
  "digit_val c = of_char c - 48"

text \<open>\<open>strconv.FormatUint(n, 10)\<close> and \<open>strconv.FormatInt(i, 10)\<close>.\<close>

fun show_nat :: "nat \<Rightarrow> string" where
  "show_nat n = (if n < 10 then [digit_char n] else show_nat (n div 10) @ [digit_char (n mod 10)])"

declare show_nat.simps [simp del]

definition show_int :: "int \<Rightarrow> string" where
  "show_int i = (if i < 0 then CHR ''-'' # show_nat (nat (- i)) else show_nat (nat i))"

definition read_nat :: "string \<Rightarrow> nat" where
  "read_nat s = foldl (\<lambda>n c. 10 * n + digit_val c) 0 s"

text \<open>
  \<open>strconv.ParseUint(s, 10, bits)\<close>: one decimal digit or more and nothing else (no sign, no
  underscore), below \<open>2 ^ bits\<close>.
\<close>

definition parse_uint :: "string \<Rightarrow> nat \<Rightarrow> nat option" where
  "parse_uint s bits =
     (if s = [] \<or> \<not> list_all is_digit s then None
      else if read_nat s < 2 ^ bits then Some (read_nat s) else None)"

lemma of_digit_char: "d < 10 \<Longrightarrow> (of_char (digit_char d) :: nat) = 48 + d"
  by (simp add: digit_char_def of_char_of)

lemma is_digit_digit_char [simp]: "d < 10 \<Longrightarrow> is_digit (digit_char d)"
  by (simp add: is_digit_def of_digit_char)

lemma digit_val_digit_char [simp]: "d < 10 \<Longrightarrow> digit_val (digit_char d) = d"
  by (simp add: digit_val_def of_digit_char)

lemma read_nat_snoc [simp]: "read_nat (s @ [c]) = 10 * read_nat s + digit_val c"
  by (simp add: read_nat_def)

lemma read_nat_Nil [simp]: "read_nat [] = 0"
  by (simp add: read_nat_def)

lemma show_nat_digits: "list_all is_digit (show_nat n)"
  by (induction n rule: show_nat.induct) (subst show_nat.simps, simp)

lemma show_nat_nonempty [simp]: "show_nat n \<noteq> []"
  by (subst show_nat.simps) simp

lemma read_show_nat [simp]: "read_nat (show_nat n) = n"
proof (induction n rule: show_nat.induct)
  case (1 n)
  have one: "read_nat [digit_char n] = digit_val (digit_char n)"
    using read_nat_snoc [of "[]" "digit_char n"] by simp
  show ?case
    using 1 by (subst show_nat.simps) (auto simp: one)
qed

lemma parse_show_uint: "n < 2 ^ bits \<Longrightarrow> parse_uint (show_nat n) bits = Some n"
  by (simp add: parse_uint_def show_nat_digits)

lemma parse_uint_bound: "parse_uint s bits = Some n \<Longrightarrow> n < 2 ^ bits"
  by (auto simp: parse_uint_def split: if_splits)

text \<open>\<open>strconv.ParseBool\<close> and \<open>strconv.FormatBool\<close>.\<close>

definition parse_bool :: "string \<Rightarrow> bool option" where
  "parse_bool s =
     (if s \<in> {''1'', ''t'', ''T'', ''TRUE'', ''true'', ''True''} then Some True
      else if s \<in> {''0'', ''f'', ''F'', ''FALSE'', ''false'', ''False''} then Some False
      else None)"

definition format_bool :: "bool \<Rightarrow> string" where
  "format_bool b = (if b then ''true'' else ''false'')"

lemma parse_format_bool [simp]: "parse_bool (format_bool b) = Some b"
  by (simp add: parse_bool_def format_bool_def)

end
