(* ===== verification/Identity.thy ===== *)
theory Identity
  imports Go_Strings
begin

text \<open>
  Package \<open>internal/identity\<close> (identity.go): a Retyc identity, where it comes from (CSI secrets or
  the environment), and the environment of a \<open>retyc\<close> subprocess. The lemmas show that the merged
  environment carries exactly the identity it was given, whatever the base environment holds and
  in whatever order the overrides are ranged over.
\<close>

definition token_key :: string where "token_key = ''RETYC_TOKEN''"
definition passphrase_key :: string where "passphrase_key = ''RETYC_KEY_PASSPHRASE''"
definition config_dir_key :: string where "config_dir_key = ''RETYC_CONFIG_DIR''"
definition keyring_enabled_key :: string where "keyring_enabled_key = ''RETYC_KEYRING_ENABLED''"

record credentials =
  token :: string
  passphrase :: string

datatype secrets_error = IncompleteSecret

text \<open>\<open>FromSecrets\<close>: \<open>Inr None\<close> is \<open>nil, nil\<close>, the driver's default identity.\<close>

definition from_secrets :: "string gomap \<Rightarrow> secrets_error + credentials option" where
  "from_secrets secrets =
     (if secrets = [] then Inr None
      else let c = \<lparr>token = lookup0 secrets token_key, passphrase = lookup0 secrets passphrase_key\<rparr>
           in if token c = [] \<or> passphrase c = [] then Inl IncompleteSecret else Inr (Some c))"

definition env_key :: "string \<Rightarrow> string" where
  "env_key kv = fst (cut kv (CHR ''=''))"

definition env_val :: "string \<Rightarrow> string" where
  "env_val kv = fst (snd (cut kv (CHR ''='')))"

text \<open>The loop of \<open>FromEnv\<close>: a later entry of a variable wins.\<close>

definition env_step :: "credentials \<Rightarrow> string \<Rightarrow> credentials" where
  "env_step c kv =
     (if env_key kv = token_key then c\<lparr>token := env_val kv\<rparr>
      else if env_key kv = passphrase_key then c\<lparr>passphrase := env_val kv\<rparr>
      else c)"

definition from_env :: "string list \<Rightarrow> credentials option" where
  "from_env env =
     (let c = foldl env_step \<lparr>token = [], passphrase = []\<rparr> env
      in if token c = [] then None else Some c)"

definition env_overrides :: "credentials \<Rightarrow> string gomap" where
  "env_overrides c = [(token_key, token c), (passphrase_key, passphrase c)]"

text \<open>\<open>MergeEnv\<close>: replaced in place, then the overrides not seen, in iteration order.\<close>

definition replace_var :: "string gomap \<Rightarrow> string \<Rightarrow> string" where
  "replace_var overrides kv =
     (case map_of overrides (env_key kv) of
        Some v \<Rightarrow> env_key kv @ CHR ''='' # v
      | None \<Rightarrow> kv)"

definition merge_env :: "string list \<Rightarrow> string gomap \<Rightarrow> string list" where
  "merge_env base overrides =
     map (replace_var overrides) base @
     map (\<lambda>(k, v). k @ CHR ''='' # v)
       (filter (\<lambda>(k, v). k \<notin> env_key ` set base) overrides)"

subsection \<open>Environments\<close>

lemma env_key_entry [simp]: "CHR ''='' \<notin> set k \<Longrightarrow> env_key (k @ CHR ''='' # v) = k"
  by (simp add: env_key_def)

lemma env_val_entry [simp]: "CHR ''='' \<notin> set k \<Longrightarrow> env_val (k @ CHR ''='' # v) = v"
  by (simp add: env_val_def)

lemma env_key_no_sep [simp]: "CHR ''='' \<notin> set (env_key kv)"
  by (simp add: env_key_def cut_no_sep)

lemma env_key_replace [simp]: "env_key (replace_var ovr kv) = env_key kv"
  by (simp add: replace_var_def split: option.splits)

lemma env_val_replace: "map_of ovr (env_key kv) = Some v \<Longrightarrow> env_val (replace_var ovr kv) = v"
  by (simp add: replace_var_def)

definition plain_keys :: "string gomap \<Rightarrow> bool" where
  "plain_keys ovr \<longleftrightarrow> distinct (map fst ovr) \<and> (\<forall>k \<in> fst ` set ovr. CHR ''='' \<notin> set k)"

lemma merge_env_val:
  assumes "plain_keys ovr" and "map_of ovr k = Some v"
    and "kv \<in> set (merge_env base ovr)" and "env_key kv = k"
  shows "env_val kv = v"
proof -
  from assms(3) consider x where "x \<in> set base" "kv = replace_var ovr x"
    | a b where "(a, b) \<in> set ovr" "kv = a @ CHR ''='' # b"
    by (auto simp: merge_env_def)
  then show ?thesis
  proof cases
    case 1
    then show ?thesis using assms(2,4) by (simp add: env_val_replace)
  next
    case 2
    then have "CHR ''='' \<notin> set a" using assms(1) by (force simp: plain_keys_def)
    moreover have "map_of ovr a = Some b"
      using 2(1) assms(1) by (simp add: plain_keys_def)
    ultimately show ?thesis using 2(2) assms(2,4) by simp
  qed
qed

lemma merge_env_mem:
  assumes "plain_keys ovr" and "map_of ovr k = Some v"
  shows "\<exists>kv \<in> set (merge_env base ovr). env_key kv = k"
proof (cases "k \<in> env_key ` set base")
  case True
  then obtain x where "x \<in> set base" "env_key x = k" by auto
  then have "replace_var ovr x \<in> set (merge_env base ovr)" "env_key (replace_var ovr x) = k"
    by (simp_all add: merge_env_def)
  then show ?thesis by blast
next
  case False
  have kv: "(k, v) \<in> set ovr" using assms(2) by (rule map_of_SomeD)
  then have "k @ CHR ''='' # v \<in> set (merge_env base ovr)"
    using False by (force simp: merge_env_def)
  moreover have "CHR ''='' \<notin> set k" using kv assms(1) by (force simp: plain_keys_def)
  ultimately show ?thesis by force
qed

lemma merge_env_others:
  assumes "plain_keys ovr" and "\<And>k. map_of ovr k \<noteq> None \<Longrightarrow> \<not> P k"
  shows "filter (\<lambda>kv. P (env_key kv)) (merge_env base ovr) = filter (\<lambda>kv. P (env_key kv)) base"
proof -
  have tail: "filter (\<lambda>kv. P (env_key kv)) (map (\<lambda>(k, v). k @ CHR ''='' # v)
      (filter (\<lambda>(k, v). k \<notin> K) ovr)) = []" for K
    using assms by (force simp: filter_empty_conv plain_keys_def map_of_eq_None_iff)
  have head: "filter (\<lambda>kv. P (env_key kv)) (map (replace_var ovr) base)
      = filter (\<lambda>kv. P (env_key kv)) base"
  proof (induction base)
    case (Cons kv base)
    then show ?case
      using assms(2) [of "env_key kv"] by (auto simp: replace_var_def split: option.splits)
  qed simp
  show ?thesis unfolding merge_env_def by (simp add: tail head)
qed

lemma fold_env_token:
  "(\<And>kv. kv \<in> set es \<Longrightarrow> env_key kv = token_key \<Longrightarrow> env_val kv = t) \<Longrightarrow>
   token (foldl env_step c es) = (if \<exists>kv \<in> set es. env_key kv = token_key then t else token c)"
  by (induction es arbitrary: c) (auto simp: env_step_def)

lemma fold_env_passphrase:
  "(\<And>kv. kv \<in> set es \<Longrightarrow> env_key kv = passphrase_key \<Longrightarrow> env_val kv = p) \<Longrightarrow>
   passphrase (foldl env_step c es)
     = (if \<exists>kv \<in> set es. env_key kv = passphrase_key then p else passphrase c)"
  by (induction es arbitrary: c) (auto simp: env_step_def token_key_def passphrase_key_def)

lemma plain_env_overrides: "same_map ovr (env_overrides c) \<Longrightarrow> plain_keys ovr"
  by (auto simp: plain_keys_def same_map_def env_overrides_def token_key_def passphrase_key_def)

lemma from_merged_env:
  assumes "token c \<noteq> []" and "same_map ovr (env_overrides c)"
  shows "from_env (merge_env base ovr) = Some c"
proof -
  note plain = plain_env_overrides [OF assms(2)]
  have t: "map_of ovr token_key = Some (token c)"
    and p: "map_of ovr passphrase_key = Some (passphrase c)"
    using same_map_of [OF assms(2)] by (simp_all add: env_overrides_def token_key_def passphrase_key_def)
  let ?c = "foldl env_step \<lparr>token = [], passphrase = []\<rparr> (merge_env base ovr)"
  have "token ?c = token c"
    using merge_env_mem [OF plain t] by (subst fold_env_token [OF merge_env_val [OF plain t]]) auto
  moreover have "passphrase ?c = passphrase c"
    using merge_env_mem [OF plain p]
    by (subst fold_env_passphrase [OF merge_env_val [OF plain p]]) auto
  ultimately have "?c = c" by (cases c, cases ?c) simp
  then show ?thesis using assms(1) by (simp add: from_env_def)
qed

lemma from_secrets_complete:
  "from_secrets secrets = Inr (Some c) \<Longrightarrow> token c \<noteq> [] \<and> passphrase c \<noteq> []"
  by (auto simp: from_secrets_def Let_def split: if_splits)

lemma from_secrets_None: "from_secrets secrets = Inr None \<longleftrightarrow> secrets = []"
  by (auto simp: from_secrets_def Let_def)

text \<open>
  C31. Tenant isolation: a subprocess run with a tenant's credentials sees exactly that identity,
  whatever identity the driver's own environment holds (even with repeated or malformed entries)
  and in whatever order Go ranges over the two overrides; every other variable is passed on as it
  is, in the same order.
\<close>

theorem merged_env_carries_identity:
  assumes "from_secrets secrets = Inr (Some c)" and "same_map ovr (env_overrides c)"
  shows "from_env (merge_env base ovr) = Some c \<and>
    filter (\<lambda>kv. env_key kv \<notin> {token_key, passphrase_key}) (merge_env base ovr)
      = filter (\<lambda>kv. env_key kv \<notin> {token_key, passphrase_key}) base"
proof
  show "from_env (merge_env base ovr) = Some c"
    using from_secrets_complete [OF assms(1)] assms(2) by (simp add: from_merged_env)
  show "filter (\<lambda>kv. env_key kv \<notin> {token_key, passphrase_key}) (merge_env base ovr)
      = filter (\<lambda>kv. env_key kv \<notin> {token_key, passphrase_key}) base"
    using same_map_of [OF assms(2)] plain_env_overrides [OF assms(2)]
    by (intro merge_env_others) (auto simp: env_overrides_def split: if_splits)
qed

theorem merged_env_carries_identity_witness:
  "from_env (merge_env [''HOME=/root'', ''RETYC_TOKEN=default'', ''RETYC_KEY_PASSPHRASE=pd'',
       ''RETYC_TOKEN=again'', ''novalue'']
     [(passphrase_key, ''p=1''), (token_key, ''tenant'')])
   = Some \<lparr>token = ''tenant'', passphrase = ''p=1''\<rparr>"
proof -
  have s: "from_secrets [(token_key, ''tenant''), (passphrase_key, ''p=1'')]
      = Inr (Some \<lparr>token = ''tenant'', passphrase = ''p=1''\<rparr>)"
    by (simp add: from_secrets_def lookup0_def token_key_def passphrase_key_def)
  show ?thesis
    by (rule merged_env_carries_identity [THEN conjunct1, OF s])
      (auto simp: same_map_def env_overrides_def token_key_def passphrase_key_def)
qed

end
