(* ===== verification/Mount_Spec.thy ===== *)
theory Mount_Spec
  imports Identity "HOL-Library.Word"
begin

text \<open>
  The data of package \<open>internal/mountpod\<close> that the node plugin fills in and the mount pods are
  built from (pod.go): the mount options, the cache, the resources and the \<open>Spec\<close> of a mount pod.
  A Kubernetes quantity is a value of any type \<open>'q\<close>: package \<open>resource\<close> is not part of the
  repository. Durations and times are nanoseconds, \<open>int\<close>; a UID or GID is a \<open>32 word\<close>.
\<close>

type_synonym uint32 = "32 word"

text \<open>Resource lists by resource name, in iteration order.\<close>

record 'q resource_requirements =
  requests :: "'q gomap"
  limits :: "'q gomap"

definition resource_cpu :: string where "resource_cpu = ''cpu''"
definition resource_memory :: string where "resource_memory = ''memory''"

definition no_resources :: "'q resource_requirements" where
  "no_resources = \<lparr>requests = [], limits = []\<rparr>"

record cache =
  redis_url :: string
  high_confidentiality :: bool

text \<open>\<open>LocalFile\<close> is \<open>None\<close> for a nil slice, which keeps the CLI's own patterns.\<close>

record mount_options =
  cache_ttl :: int
  background_delete :: bool
  unsafe_write :: bool
  opt_read_only :: bool
  local_file :: "string list option"

definition no_options :: mount_options where
  "no_options = \<lparr>cache_ttl = 0, background_delete = False, unsafe_write = False,
     opt_read_only = False, local_file = None\<rparr>"

record 'q spec =
  volume_id :: string
  node_name :: string
  pvc_name :: string
  pvc_namespace :: string
  staging_path :: string
  spec_credentials :: credentials
  spec_cache :: cache
  spec_uid :: uint32
  spec_gid :: uint32
  spec_options :: mount_options
  spec_resources :: "'q resource_requirements"

end
