(* ===== verification/Go_Unicode.thy ===== *)
theory Go_Unicode
  imports Go_Strings
begin

text \<open>
  Strings as runes: the UTF-8 decoding of Go's \<open>range\<close> loop over a string (an invalid byte is the
  rune U+FFFD and takes one byte), the encoding of \<open>WriteRune\<close>, and the white space and lower case
  of package \<open>strings\<close>. The letter tables of package \<open>unicode\<close> are data outside the repository: the
  lower case of a text with a byte above 127 is a parameter (\<open>to_lower\<close>).
\<close>

subsection \<open>UTF-8\<close>

definition rune_error :: nat where "rune_error = 65533"

definition byte_in :: "nat \<Rightarrow> nat \<Rightarrow> string \<Rightarrow> bool" where
  "byte_in lo hi s =
     (case s of [] \<Rightarrow> False | b # _ \<Rightarrow> lo \<le> (of_char b :: nat) \<and> (of_char b :: nat) \<le> hi)"

definition low6 :: "string \<Rightarrow> nat" where
  "low6 s = (case s of [] \<Rightarrow> 0 | b # _ \<Rightarrow> of_char b mod 64)"

text \<open>The rune at the start of a non-empty string and its number of bytes.\<close>

definition decode_rune :: "char \<Rightarrow> string \<Rightarrow> nat \<times> nat" where
  "decode_rune c s =
     (let b = of_char c;
          s2 = drop 1 s; s3 = drop 2 s;
          lo3 = (if b = 224 then 160 else 128); hi3 = (if b = 237 then 159 else 191);
          lo4 = (if b = 240 then 144 else 128); hi4 = (if b = 244 then 143 else 191)
      in if b < 128 then (b, 1)
         else if 194 \<le> b \<and> b \<le> 223 then
           (if byte_in 128 191 s then (b mod 32 * 64 + low6 s, 2) else (rune_error, 1))
         else if 224 \<le> b \<and> b \<le> 239 then
           (if byte_in lo3 hi3 s \<and> byte_in 128 191 s2
            then (b mod 16 * 4096 + low6 s * 64 + low6 s2, 3) else (rune_error, 1))
         else if 240 \<le> b \<and> b \<le> 244 then
           (if byte_in lo4 hi4 s \<and> byte_in 128 191 s2 \<and> byte_in 128 191 s3
            then (b mod 8 * 262144 + low6 s * 4096 + low6 s2 * 64 + low6 s3, 4)
            else (rune_error, 1))
         else (rune_error, 1))"

text \<open>The runes of a string, each with the bytes it was read from.\<close>

function utf8_decode :: "string \<Rightarrow> (nat \<times> string) list" where
  "utf8_decode [] = []"
| "utf8_decode (c # s) =
     (let (r, w) = decode_rune c s
      in (r, take w (c # s)) # utf8_decode (drop (w - 1) s))"
  by pat_completeness auto
termination
  by (relation "measure length") auto

definition rune_bytes :: "nat \<Rightarrow> nat list" where
  "rune_bytes r =
     (if r < 128 then [r]
      else if r < 2048 then [192 + r div 64, 128 + r mod 64]
      else if r < 65536 then [224 + r div 4096, 128 + r div 64 mod 64, 128 + r mod 64]
      else [240 + r div 262144, 128 + r div 4096 mod 64, 128 + r div 64 mod 64, 128 + r mod 64])"

definition utf8_encode :: "nat \<Rightarrow> string" where
  "utf8_encode r = map char_of (rune_bytes r)"

definition is_ascii :: "string \<Rightarrow> bool" where
  "is_ascii s \<longleftrightarrow> list_all (\<lambda>c. (of_char c :: nat) < 128) s"

lemma utf8_decode_ascii: "is_ascii s \<Longrightarrow> utf8_decode s = map (\<lambda>c. (of_char c, [c])) s"
  by (induction s) (auto simp: is_ascii_def decode_rune_def)

lemma utf8_encode_ascii [simp]: "(of_char c :: nat) < 128 \<Longrightarrow> utf8_encode (of_char c) = [c]"
  by (simp add: utf8_encode_def rune_bytes_def)

lemma rune_bytes_high:
  assumes "128 \<le> r" and "r < 1114112" and "n \<in> set (rune_bytes r)"
  shows "128 \<le> n \<and> n < 256"
  using assms unfolding rune_bytes_def
  by (auto split: if_splits simp: less_mult_imp_div_less)

lemma utf8_encode_byte:
  assumes "c \<in> set (utf8_encode r)" and "(of_char c :: nat) < 128" and "r < 1114112"
  shows "r = of_char c"
proof (cases "r < 128")
  case True
  then show ?thesis using assms(1) by (simp add: utf8_encode_def rune_bytes_def of_char_of)
next
  case False
  obtain n where n: "n \<in> set (rune_bytes r)" "c = char_of n"
    using assms(1) by (auto simp: utf8_encode_def)
  from rune_bytes_high [OF _ assms(3) n(1)] False have "128 \<le> n \<and> n < 256" by simp
  then show ?thesis using n(2) assms(2) by (simp add: of_char_of)
qed

lemma low6_bound: "low6 s < 64"
  by (auto simp: low6_def split: list.splits)

lemma low6_first: "byte_in lo 143 s \<Longrightarrow> 128 \<le> lo \<Longrightarrow> low6 s < 16"
proof -
  have "128 \<le> n \<Longrightarrow> n \<le> 143 \<Longrightarrow> n mod 64 < 16" for n :: nat by presburger
  then show "byte_in lo 143 s \<Longrightarrow> 128 \<le> lo \<Longrightarrow> low6 s < 16"
    by (auto simp: low6_def byte_in_def split: list.splits)
qed

lemma decode_rune_bound: "fst (decode_rune c s) < 1114112"
proof -
  have "240 \<le> b \<Longrightarrow> b \<le> 244 \<Longrightarrow> b \<noteq> 244 \<Longrightarrow> b mod 8 < 4" for b :: nat
    by presburger
  from this [of "of_char c"] show ?thesis
    using low6_bound [of s] low6_bound [of "drop 1 s"] low6_bound [of "drop 2 s"]
      low6_first [of 128 s]
    by (auto simp: decode_rune_def Let_def rune_error_def)
qed

subsection \<open>White space\<close>

text \<open>\<open>unicode.IsSpace\<close>.\<close>

definition is_space :: "nat \<Rightarrow> bool" where
  "is_space r \<longleftrightarrow>
     r \<in> {9, 10, 11, 12, 13, 32, 133, 160, 5760, 8232, 8233, 8239, 8287, 12288} \<or>
     8192 \<le> r \<and> r \<le> 8202"

fun fields_of :: "string \<Rightarrow> (nat \<times> string) list \<Rightarrow> string list" where
  "fields_of w [] = (if w = [] then [] else [w])"
| "fields_of w ((r, bs) # rs) =
     (if is_space r then (if w = [] then fields_of [] rs else w # fields_of [] rs)
      else fields_of (w @ bs) rs)"

text \<open>\<open>strings.Fields\<close> and \<open>strings.TrimSpace\<close>.\<close>

definition go_fields :: "string \<Rightarrow> string list" where
  "go_fields s = fields_of [] (utf8_decode s)"

definition trim_space :: "string \<Rightarrow> string" where
  "trim_space s =
     concat (map snd (rev (dropWhile (\<lambda>x. is_space (fst x))
       (rev (dropWhile (\<lambda>x. is_space (fst x)) (utf8_decode s))))))"

subsection \<open>Lower case\<close>

definition lower_char :: "char \<Rightarrow> char" where
  "lower_char c = (if 65 \<le> (of_char c :: nat) \<and> (of_char c :: nat) \<le> 90
     then char_of (of_char c + 32 :: nat) else c)"

text \<open>
  \<open>strings.ToLower\<close>: byte by byte on an ASCII text, by the tables of package \<open>unicode\<close> (the
  parameter \<open>tables\<close>) otherwise.
\<close>

definition to_lower :: "(string \<Rightarrow> string) \<Rightarrow> string \<Rightarrow> string" where
  "to_lower tables s = (if is_ascii s then map lower_char s else tables s)"

end
