(* ===== verification/Annotations.thy ===== *)
theory Annotations
  imports Mount_Spec Go_Unicode
begin

text \<open>
  The PVC annotations of the driver (internal/driver/annotations.go): the owner of a volume, its
  mount options and the resources of its mount pod. \<open>time.ParseDuration\<close> and the quantities of
  package \<open>resource\<close> are the fields of \<open>parsers\<close>. A range over a Go map literal takes its order
  as an argument.
\<close>

definition annotation_uid :: string where "annotation_uid = ''csi.retycfs.com/uid''"
definition annotation_gid :: string where "annotation_gid = ''csi.retycfs.com/gid''"
definition annotation_cache_ttl :: string where
  "annotation_cache_ttl = ''csi.retycfs.com/cache-ttl''"
definition annotation_background_delete :: string where
  "annotation_background_delete = ''csi.retycfs.com/background-delete''"
definition annotation_unsafe_write :: string where
  "annotation_unsafe_write = ''csi.retycfs.com/unsafe-write''"
definition annotation_read_only :: string where
  "annotation_read_only = ''csi.retycfs.com/read-only''"
definition annotation_local_file :: string where
  "annotation_local_file = ''csi.retycfs.com/local-file''"
definition annotation_mount_cpu_request :: string where
  "annotation_mount_cpu_request = ''csi.retycfs.com/mount-cpu-request''"
definition annotation_mount_cpu_limit :: string where
  "annotation_mount_cpu_limit = ''csi.retycfs.com/mount-cpu-limit''"
definition annotation_mount_memory_request :: string where
  "annotation_mount_memory_request = ''csi.retycfs.com/mount-memory-request''"
definition annotation_mount_memory_limit :: string where
  "annotation_mount_memory_limit = ''csi.retycfs.com/mount-memory-limit''"

lemmas annotation_defs = annotation_uid_def annotation_gid_def annotation_cache_ttl_def
  annotation_background_delete_def annotation_unsafe_write_def annotation_read_only_def
  annotation_local_file_def annotation_mount_cpu_request_def annotation_mount_cpu_limit_def
  annotation_mount_memory_request_def annotation_mount_memory_limit_def

text \<open>The errors, with the annotation and its value as the messages have them.\<close>

datatype annotation_error =
    Required string
  | NotAnID string string
  | NotADuration string string
  | NotABool string string
  | NoneCombined string string
  | NotAQuantity string string

text \<open>The settings of a volume, read by key only.\<close>

type_synonym settings = "string \<rightharpoonup> string"

definition parse_id :: "string \<Rightarrow> string \<Rightarrow> annotation_error + uint32" where
  "parse_id key raw =
     (case parse_uint raw 32 of None \<Rightarrow> Inl (NotAnID key raw) | Some n \<Rightarrow> Inr (of_nat n))"

definition claim_owner :: "settings \<Rightarrow> annotation_error + (uint32 \<times> uint32)" where
  "claim_owner annotations =
     (case annotations annotation_uid of
        None \<Rightarrow> Inl (Required annotation_uid)
      | Some raw \<Rightarrow>
          (case parse_id annotation_uid raw of
             Inl e \<Rightarrow> Inl e
           | Inr uid \<Rightarrow>
               (case annotations annotation_gid of
                  None \<Rightarrow> Inr (uid, uid)
                | Some raw \<Rightarrow>
                    (case parse_id annotation_gid raw of
                       Inl e \<Rightarrow> Inl e
                     | Inr gid \<Rightarrow> Inr (uid, gid)))))"

record 'q parsers =
  parse_duration :: "string \<Rightarrow> int option"
  parse_quantity :: "string \<Rightarrow> 'q option"
  quantity_sign :: "'q \<Rightarrow> int"

definition parse_cache_ttl :: "'q parsers \<Rightarrow> settings \<Rightarrow> annotation_error + int" where
  "parse_cache_ttl P s =
     (case s annotation_cache_ttl of
        None \<Rightarrow> Inr 0
      | Some raw \<Rightarrow>
          (case parse_duration P raw of
             None \<Rightarrow> Inl (NotADuration annotation_cache_ttl raw)
           | Some d \<Rightarrow> if d < 0 then Inl (NotADuration annotation_cache_ttl raw) else Inr d))"

text \<open>The destination of each boolean annotation.\<close>

definition set_bool :: "string \<Rightarrow> bool \<Rightarrow> mount_options \<Rightarrow> mount_options" where
  "set_bool key b opts =
     (if key = annotation_background_delete then opts\<lparr>background_delete := b\<rparr>
      else if key = annotation_unsafe_write then opts\<lparr>unsafe_write := b\<rparr>
      else opts\<lparr>opt_read_only := b\<rparr>)"

definition bool_annotations :: "string set" where
  "bool_annotations =
     {annotation_background_delete, annotation_unsafe_write, annotation_read_only}"

fun parse_bools ::
  "settings \<Rightarrow> string list \<Rightarrow> mount_options \<Rightarrow> annotation_error + mount_options" where
  "parse_bools s [] opts = Inr opts"
| "parse_bools s (key # keys) opts =
     (case s key of
        None \<Rightarrow> parse_bools s keys opts
      | Some raw \<Rightarrow>
          (case parse_bool raw of
             None \<Rightarrow> Inl (NotABool key raw)
           | Some b \<Rightarrow> parse_bools s keys (set_bool key b opts)))"

definition parse_local_file :: "settings \<Rightarrow> annotation_error + string list option" where
  "parse_local_file s =
     (case s annotation_local_file of
        None \<Rightarrow> Inr None
      | Some raw \<Rightarrow>
          (let patterns = go_fields raw
           in if 1 < length patterns \<and> ''none'' \<in> set patterns
              then Inl (NoneCombined annotation_local_file raw) else Inr (Some patterns)))"

datatype resource_list = Requests | Limits

definition resource_annotations :: "(string \<times> resource_list \<times> string) list" where
  "resource_annotations =
     [(annotation_mount_cpu_request, Requests, resource_cpu),
      (annotation_mount_cpu_limit, Limits, resource_cpu),
      (annotation_mount_memory_request, Requests, resource_memory),
      (annotation_mount_memory_limit, Limits, resource_memory)]"

definition add_resource ::
  "resource_list \<Rightarrow> string \<Rightarrow> 'q \<Rightarrow> 'q resource_requirements \<Rightarrow> 'q resource_requirements" where
  "add_resource l name q r =
     (case l of
        Requests \<Rightarrow> r\<lparr>requests := requests r @ [(name, q)]\<rparr>
      | Limits \<Rightarrow> r\<lparr>limits := limits r @ [(name, q)]\<rparr>)"

fun parse_resources ::
  "'q parsers \<Rightarrow> settings \<Rightarrow> (string \<times> resource_list \<times> string) list \<Rightarrow> 'q resource_requirements \<Rightarrow>
   annotation_error + 'q resource_requirements" where
  "parse_resources P s [] r = Inr r"
| "parse_resources P s ((key, l, name) # rest) r =
     (case s key of
        None \<Rightarrow> parse_resources P s rest r
      | Some raw \<Rightarrow>
          (case parse_quantity P raw of
             None \<Rightarrow> Inl (NotAQuantity key raw)
           | Some q \<Rightarrow>
               if quantity_sign P q \<le> 0 then Inl (NotAQuantity key raw)
               else parse_resources P s rest (add_resource l name q r)))"

definition parse_mount_resources ::
  "'q parsers \<Rightarrow> settings \<Rightarrow> annotation_error + 'q resource_requirements" where
  "parse_mount_resources P s = parse_resources P s resource_annotations no_resources"

record 'q mount_settings =
  ms_uid :: uint32
  ms_gid :: uint32
  ms_options :: mount_options
  ms_resources :: "'q resource_requirements"

text \<open>\<open>keys\<close> is the order in which the loop ranges over the boolean annotations.\<close>

definition parse_mount_settings ::
  "'q parsers \<Rightarrow> string list \<Rightarrow> settings \<Rightarrow> annotation_error + 'q mount_settings" where
  "parse_mount_settings P keys s =
     (case claim_owner s of Inl e \<Rightarrow> Inl e | Inr (uid, gid) \<Rightarrow>
      (case parse_cache_ttl P s of Inl e \<Rightarrow> Inl e | Inr ttl \<Rightarrow>
       (case parse_bools s keys (no_options\<lparr>cache_ttl := ttl\<rparr>) of Inl e \<Rightarrow> Inl e | Inr opts \<Rightarrow>
        (case parse_local_file s of Inl e \<Rightarrow> Inl e | Inr files \<Rightarrow>
         (case parse_mount_resources P s of Inl e \<Rightarrow> Inl e | Inr r \<Rightarrow>
            Inr \<lparr>ms_uid = uid, ms_gid = gid, ms_options = opts\<lparr>local_file := files\<rparr>,
                 ms_resources = r\<rparr>)))))"

subsection \<open>Owners\<close>

lemma parse_id_iff:
  "parse_id key raw = Inr w \<longleftrightarrow> parse_uint raw 32 = Some (unat w)"
proof
  assume "parse_id key raw = Inr w"
  then obtain n where n: "parse_uint raw 32 = Some n" "w = of_nat n"
    by (auto simp: parse_id_def split: option.splits)
  then have "n < 2 ^ 32" by (auto dest: parse_uint_bound)
  then have "unat (of_nat n :: uint32) = n" by (simp add: unsigned_of_nat take_bit_nat_eq_self)
  then show "parse_uint raw 32 = Some (unat w)" using n by simp
qed (simp add: parse_id_def)

lemma parse_id_Inl: "parse_id key raw = Inl e \<Longrightarrow> parse_uint raw 32 = None"
  by (simp add: parse_id_def split: option.splits)

lemma parse_show_id: "parse_uint (show_nat (unat (w :: uint32))) 32 = Some (unat w)"
  by (rule parse_show_uint) (rule order_less_le_trans [OF unsigned_less], simp)

text \<open>
  The owner of a volume: \<open>claimOwner\<close> accepts exactly the claims whose UID annotation is a
  decimal number below \<open>2 ^ 32\<close> and whose GID annotation, if there is one, is too; the value is
  never truncated, a missing GID is the UID, and any pair of IDs written in decimal is read back.
\<close>

lemma claim_owner_iff:
  "claim_owner s = Inr (u, g) \<longleftrightarrow>
     (\<exists>raw. s annotation_uid = Some raw \<and> parse_uint raw 32 = Some (unat u) \<and>
       (case s annotation_gid of
          None \<Rightarrow> g = u
        | Some raw' \<Rightarrow> parse_uint raw' 32 = Some (unat g)))"
  by (auto simp: claim_owner_def parse_id_iff dest: parse_id_Inl intro: unsigned_word_eqI
      split: option.splits sum.splits)

lemma claim_owner_written:
  "claim_owner [annotation_uid \<mapsto> show_nat (unat u), annotation_gid \<mapsto> show_nat (unat g)] = Inr (u, g)"
  by (simp add: claim_owner_iff parse_show_id annotation_defs)

subsection \<open>Boolean annotations in any order\<close>

text \<open>What the loop leaves in the options, as a function of the set of keys.\<close>

definition bool_value :: "settings \<Rightarrow> string \<Rightarrow> bool \<Rightarrow> bool" where
  "bool_value s k d = (case s k of None \<Rightarrow> d | Some raw \<Rightarrow> the (parse_bool raw))"

definition bools_valid :: "settings \<Rightarrow> string set \<Rightarrow> bool" where
  "bools_valid s ks \<longleftrightarrow> (\<forall>k \<in> ks. \<forall>raw. s k = Some raw \<longrightarrow> parse_bool raw \<noteq> None)"

definition bools_result :: "settings \<Rightarrow> string set \<Rightarrow> mount_options \<Rightarrow> mount_options" where
  "bools_result s ks opts = opts\<lparr>
     background_delete := (if annotation_background_delete \<in> ks
       then bool_value s annotation_background_delete (background_delete opts)
       else background_delete opts),
     unsafe_write := (if annotation_unsafe_write \<in> ks
       then bool_value s annotation_unsafe_write (unsafe_write opts) else unsafe_write opts),
     opt_read_only := (if annotation_read_only \<in> ks
       then bool_value s annotation_read_only (opt_read_only opts) else opt_read_only opts)\<rparr>"

lemma bool_keys_distinct:
  "annotation_unsafe_write \<noteq> annotation_background_delete"
  "annotation_read_only \<noteq> annotation_background_delete"
  "annotation_read_only \<noteq> annotation_unsafe_write"
  "annotation_background_delete \<noteq> annotation_unsafe_write"
  "annotation_background_delete \<noteq> annotation_read_only"
  "annotation_unsafe_write \<noteq> annotation_read_only"
  by (simp_all add: annotation_defs)

lemma parse_bools_ok:
  "set keys \<subseteq> bool_annotations \<Longrightarrow> bools_valid s (set keys) \<Longrightarrow>
   parse_bools s keys opts = Inr (bools_result s (set keys) opts)"
proof (induction keys arbitrary: opts)
  case Nil
  then show ?case by (simp add: bools_result_def)
next
  case (Cons k keys)
  then have IH: "parse_bools s keys opts' = Inr (bools_result s (set keys) opts')" for opts'
    by (simp add: bools_valid_def)
  have k: "k \<in> bool_annotations" using Cons.prems(1) by simp
  show ?case
  proof (cases "s k")
    case None
    then have "bools_result s (set (k # keys)) opts = bools_result s (set keys) opts"
      by (auto simp: bools_result_def bool_value_def)
    with None show ?thesis by (simp add: IH)
  next
    case (Some raw)
    then obtain b where b: "parse_bool raw = Some b"
      using Cons.prems(2) by (auto simp: bools_valid_def)
    from k have "bools_result s (set (k # keys)) opts = bools_result s (set keys) (set_bool k b opts)"
      using Some b unfolding bool_annotations_def
      by (elim insertE emptyE)
        (simp_all add: bools_result_def bool_value_def set_bool_def bool_keys_distinct)
    with Some b show ?thesis by (simp add: IH)
  qed
qed

lemma parse_bools_err: "\<not> bools_valid s (set keys) \<Longrightarrow> is_err (parse_bools s keys opts)"
  by (induction keys arbitrary: opts) (auto simp: bools_valid_def split: option.splits)

text \<open>
  C40. The settings of a mount pod do not depend on the order in which Go ranges over the map of the
  boolean annotations: two orders give the same settings, or both refuse the claim.
\<close>

theorem mount_settings_any_order:
  assumes "set keys = bool_annotations" and "set keys' = bool_annotations"
  shows "parse_mount_settings P keys s = parse_mount_settings P keys' s \<or>
    is_err (parse_mount_settings P keys s) \<and> is_err (parse_mount_settings P keys' s)"
proof (cases "bools_valid s bool_annotations")
  case True
  then have "parse_bools s keys = parse_bools s keys'"
    using parse_bools_ok [of keys s] parse_bools_ok [of keys' s] assms by (simp add: fun_eq_iff)
  then show ?thesis by (intro disjI1) (simp only: parse_mount_settings_def)
next
  case False
  have refused: "is_err (parse_mount_settings P ks s)" if "set ks = bool_annotations" for ks
  proof -
    have "is_err (parse_bools s ks opts)" for opts
      using parse_bools_err [of s ks opts] False that by simp
    then have "parse_bools s ks opts \<noteq> Inr v" for opts v
      by (metis is_err_simps(2))
    then show ?thesis
      by (auto simp: parse_mount_settings_def is_err_def split: sum.splits)
  qed
  then show ?thesis using assms by blast
qed

definition no_quantities :: "int parsers" where
  "no_quantities =
     \<lparr>parse_duration = \<lambda>_. None, parse_quantity = \<lambda>_. None, quantity_sign = sgn\<rparr>"

theorem mount_settings_any_order_witness:
  "parse_mount_settings no_quantities
       [annotation_background_delete, annotation_unsafe_write, annotation_read_only]
       [annotation_uid \<mapsto> ''1000'', annotation_read_only \<mapsto> ''maybe'', annotation_unsafe_write \<mapsto> ''2'']
   = Inl (NotABool annotation_unsafe_write ''2'') \<and>
   is_err (parse_mount_settings no_quantities
       [annotation_read_only, annotation_background_delete, annotation_unsafe_write]
       [annotation_uid \<mapsto> ''1000'', annotation_read_only \<mapsto> ''maybe'', annotation_unsafe_write \<mapsto> ''2''])"
proof -
  let ?s = "[annotation_uid \<mapsto> ''1000'', annotation_read_only \<mapsto> ''maybe'', annotation_unsafe_write \<mapsto> ''2'']"
  let ?a = "[annotation_background_delete, annotation_unsafe_write, annotation_read_only]"
  let ?b = "[annotation_read_only, annotation_background_delete, annotation_unsafe_write]"
  have one: "parse_uint ''1000'' 32 = Some 1000"
    by (simp add: parse_uint_def is_digit_def read_nat_def digit_val_def)
  have l: "parse_mount_settings no_quantities ?a ?s = Inl (NotABool annotation_unsafe_write ''2'')"
    by (simp add: parse_mount_settings_def claim_owner_def parse_id_def one parse_cache_ttl_def
        annotation_defs parse_bool_def)
  have "parse_mount_settings no_quantities ?a ?s = parse_mount_settings no_quantities ?b ?s \<or>
      is_err (parse_mount_settings no_quantities ?a ?s) \<and>
      is_err (parse_mount_settings no_quantities ?b ?s)"
    by (rule mount_settings_any_order) (auto simp: bool_annotations_def)
  then show ?thesis using l by (metis is_err_simps(1))
qed

end
