(* ===== verification/Retyc_Client.thy ===== *)
theory Retyc_Client
  imports Identity Go_Unicode
begin

text \<open>
  Package \<open>internal/retycclient\<close> (client.go): one subprocess of the \<open>retyc\<close> CLI per call. The
  process itself (\<open>os/exec\<close> and the CLI), the JSON decoders and the Unicode tables are the fields of
  the record \<open>cli\<close>, over a world of any type; everything the package does around them (arguments,
  the error object on stderr, the classification of errors, sizes) is defined here.
\<close>

subsection \<open>Errors of the CLI\<close>

record cli_error =
  ce_args :: "string list"
  ce_message :: string
  ce_kind :: string
  ce_status :: int
  ce_detail :: string

text \<open>\<open>*Error\<close>, or the error of a stdout that does not decode.\<close>

datatype client_error = CLI cli_error | Decode "string list"

definition kind_auth_required :: string where "kind_auth_required = ''auth_required''"
definition kind_config :: string where "kind_config = ''config''"
definition kind_rate_limited :: string where "kind_rate_limited = ''rate_limited''"
definition kind_storage_exceeded :: string where "kind_storage_exceeded = ''storage_exceeded''"
definition kind_plan_exceeded :: string where "kind_plan_exceeded = ''plan_exceeded''"
definition kind_capacity_too_small :: string where "kind_capacity_too_small = ''capacity_too_small''"
definition kind_capacity_shrink :: string where "kind_capacity_shrink = ''capacity_shrink''"
definition kind_unauthenticated :: string where "kind_unauthenticated = ''unauthenticated''"
definition kind_forbidden :: string where "kind_forbidden = ''forbidden''"
definition kind_not_found :: string where "kind_not_found = ''not_found''"
definition kind_gone :: string where "kind_gone = ''gone''"
definition kind_invalid :: string where "kind_invalid = ''invalid''"
definition kind_cli_too_old :: string where "kind_cli_too_old = ''cli_too_old''"

lemmas kind_defs = kind_auth_required_def kind_config_def kind_rate_limited_def
  kind_storage_exceeded_def kind_plan_exceeded_def kind_capacity_too_small_def
  kind_capacity_shrink_def kind_unauthenticated_def kind_forbidden_def kind_not_found_def
  kind_gone_def kind_invalid_def kind_cli_too_old_def

definition classify :: "(string \<Rightarrow> string) \<Rightarrow> client_error \<Rightarrow> string \<times> string \<times> bool" where
  "classify tables err =
     (case err of
        Decode _ \<Rightarrow> ([], [], False)
      | CLI e \<Rightarrow> (ce_kind e, to_lower tables (ce_message e), True))"

definition has_kind :: "(string \<Rightarrow> string) \<Rightarrow> client_error \<Rightarrow> string list \<Rightarrow> bool" where
  "has_kind tables err kinds =
     (case classify tables err of (kind, _, ok) \<Rightarrow> ok \<and> kind \<noteq> [] \<and> kind \<in> set kinds)"

text \<open>A predicate that reads the kind when there is one, the lowercased message otherwise.\<close>

definition by_kind_or_text ::
  "(string \<Rightarrow> string) \<Rightarrow> client_error \<Rightarrow> (string \<Rightarrow> bool) \<Rightarrow> (string \<Rightarrow> bool) \<Rightarrow> bool" where
  "by_kind_or_text tables err on_kind on_text =
     (case classify tables err of (kind, msg, ok) \<Rightarrow>
        if kind \<noteq> [] then on_kind kind else ok \<and> on_text msg)"

text \<open>The regular expressions: \<open>(^|: )api error 422:\<close>, the same with 404, and
  \<open>must be at least \d+ bytes\<close>.\<close>

definition starts_or_after_colon :: "string \<Rightarrow> string \<Rightarrow> bool" where
  "starts_or_after_colon pat s \<longleftrightarrow> has_prefix s pat \<or> contains s ('': '' @ pat)"

definition validation_error :: "string \<Rightarrow> bool" where
  "validation_error s = starts_or_after_colon ''api error 422:'' s"

definition not_found_error :: "string \<Rightarrow> bool" where
  "not_found_error s = starts_or_after_colon ''api error 404:'' s"

definition minimum_at :: "string \<Rightarrow> bool" where
  "minimum_at s =
     (let p = ''must be at least ''; r = drop (length p) s
      in has_prefix s p \<and> takeWhile is_digit r \<noteq> [] \<and> has_prefix (dropWhile is_digit r) '' bytes'')"

fun minimum_capacity :: "string \<Rightarrow> bool" where
  "minimum_capacity [] = False"
| "minimum_capacity (c # s) = (minimum_at (c # s) \<or> minimum_capacity s)"

definition is_storage_exhausted :: "(string \<Rightarrow> string) \<Rightarrow> client_error \<Rightarrow> bool" where
  "is_storage_exhausted tables err =
     by_kind_or_text tables err (\<lambda>k. k = kind_plan_exceeded \<or> k = kind_storage_exceeded)
       (\<lambda>msg. contains msg ''not enough storage left'')"

definition is_validation :: "(string \<Rightarrow> string) \<Rightarrow> client_error \<Rightarrow> bool" where
  "is_validation tables err =
     by_kind_or_text tables err (\<lambda>k. k = kind_invalid) validation_error"

definition is_capacity_refused :: "(string \<Rightarrow> string) \<Rightarrow> client_error \<Rightarrow> bool" where
  "is_capacity_refused tables err =
     by_kind_or_text tables err (\<lambda>k. k = kind_capacity_too_small)
       (\<lambda>msg. validation_error msg \<and> (contains msg ''storage_capacity'' \<or> minimum_capacity msg))"

definition is_not_enlarged :: "(string \<Rightarrow> string) \<Rightarrow> client_error \<Rightarrow> bool" where
  "is_not_enlarged tables err =
     by_kind_or_text tables err (\<lambda>k. k = kind_capacity_shrink)
       (\<lambda>msg. contains msg ''can only be enlarged'')"

definition is_not_found :: "(string \<Rightarrow> string) \<Rightarrow> client_error \<Rightarrow> bool" where
  "is_not_found tables err =
     by_kind_or_text tables err (\<lambda>k. k = kind_not_found \<or> k = kind_gone) not_found_error"

definition is_unauthenticated :: "(string \<Rightarrow> string) \<Rightarrow> client_error \<Rightarrow> bool" where
  "is_unauthenticated tables err = has_kind tables err [kind_auth_required, kind_unauthenticated]"

definition is_config :: "(string \<Rightarrow> string) \<Rightarrow> client_error \<Rightarrow> bool" where
  "is_config tables err = has_kind tables err [kind_config]"

definition is_forbidden :: "(string \<Rightarrow> string) \<Rightarrow> client_error \<Rightarrow> bool" where
  "is_forbidden tables err = has_kind tables err [kind_forbidden]"

definition is_rate_limited :: "(string \<Rightarrow> string) \<Rightarrow> client_error \<Rightarrow> bool" where
  "is_rate_limited tables err = has_kind tables err [kind_rate_limited]"

definition is_cli_too_old :: "(string \<Rightarrow> string) \<Rightarrow> client_error \<Rightarrow> bool" where
  "is_cli_too_old tables err = has_kind tables err [kind_cli_too_old]"

lemmas predicate_defs = is_storage_exhausted_def is_validation_def is_capacity_refused_def
  is_not_enlarged_def is_not_found_def is_unauthenticated_def is_config_def is_forbidden_def
  is_rate_limited_def is_cli_too_old_def

lemma by_kind_or_text_kind [simp]:
  "ce_kind e \<noteq> [] \<Longrightarrow> by_kind_or_text tables (CLI e) on_kind on_text = on_kind (ce_kind e)"
  by (simp add: by_kind_or_text_def classify_def)

lemma by_kind_or_text_Decode [simp]: "\<not> by_kind_or_text tables (Decode a) on_kind on_text"
  by (simp add: by_kind_or_text_def classify_def)

lemma has_kind_kind [simp]:
  "has_kind tables (CLI e) kinds \<longleftrightarrow> ce_kind e \<noteq> [] \<and> ce_kind e \<in> set kinds"
  by (simp add: has_kind_def classify_def)

lemma has_kind_Decode [simp]: "\<not> has_kind tables (Decode a) kinds"
  by (simp add: has_kind_def classify_def)

subsection \<open>Escape sequences\<close>

datatype ansi = Text | AfterEsc | InCSI

fun strip_runes :: "ansi \<Rightarrow> nat list \<Rightarrow> nat list" where
  "strip_runes st [] = []"
| "strip_runes AfterEsc (r # rs) = (if r = 91 then strip_runes InCSI rs else strip_runes Text rs)"
| "strip_runes InCSI (r # rs) =
     (if 64 \<le> r \<and> r \<le> 126 then strip_runes Text rs else strip_runes InCSI rs)"
| "strip_runes Text (r # rs) =
     (if r = 27 then strip_runes AfterEsc rs
      else if r = 13 then strip_runes Text rs
      else r # strip_runes Text rs)"

definition strip_ansi :: "string \<Rightarrow> string" where
  "strip_ansi s = concat (map utf8_encode (strip_runes Text (map fst (utf8_decode s))))"

lemma strip_runes_clean: "27 \<notin> set (strip_runes st rs) \<and> 13 \<notin> set (strip_runes st rs)"
  by (induction st rs rule: strip_runes.induct) auto

lemma strip_runes_subset: "set (strip_runes st rs) \<subseteq> set rs"
  by (induction st rs rule: strip_runes.induct) auto

lemma utf8_decode_bound: "r \<in> fst ` set (utf8_decode s) \<Longrightarrow> r < 1114112"
proof (induction s rule: utf8_decode.induct)
  case (2 c s)
  obtain q w where qw: "decode_rune c s = (q, w)" by fastforce
  then have "q < 1114112" using decode_rune_bound [of c s] by simp
  then show ?case using 2 qw by auto
qed simp

text \<open>
  The pieces of a terminal's output: plain text, a CSI sequence (parameter bytes and a final
  byte), a carriage return.
\<close>

datatype piece = Plain string | CSI string char | Return

fun render :: "piece \<Rightarrow> string" where
  "render (Plain t) = t"
| "render (CSI ps f) = CHR 0x1B # CHR ''['' # ps @ [f]"
| "render Return = [CHR 0x0D]"

fun visible :: "piece \<Rightarrow> string" where
  "visible (Plain t) = t"
| "visible (CSI ps f) = []"
| "visible Return = []"

fun wf_piece :: "piece \<Rightarrow> bool" where
  "wf_piece (Plain t) \<longleftrightarrow> is_ascii t \<and> CHR 0x1B \<notin> set t \<and> CHR 0x0D \<notin> set t"
| "wf_piece (CSI ps f) \<longleftrightarrow>
     list_all (\<lambda>c. 32 \<le> (of_char c :: nat) \<and> (of_char c :: nat) < 64) ps \<and>
     64 \<le> (of_char f :: nat) \<and> (of_char f :: nat) \<le> 126"
| "wf_piece Return = True"

lemma is_ascii_append [simp]: "is_ascii (a @ b) \<longleftrightarrow> is_ascii a \<and> is_ascii b"
  by (simp add: is_ascii_def)

lemma is_ascii_Nil [simp]: "is_ascii []"
  by (simp add: is_ascii_def)

lemma is_ascii_render: "wf_piece p \<Longrightarrow> is_ascii (render p)"
  by (cases p) (auto simp: is_ascii_def list_all_iff)

lemma is_ascii_visible: "wf_piece p \<Longrightarrow> is_ascii (visible p)"
  by (cases p) (auto simp: is_ascii_def)

lemma of_char_eq: "(of_char c :: nat) = of_char d \<longleftrightarrow> c = d"
  by (rule of_char_eq_iff)

lemma strip_plain:
  "CHR 0x1B \<notin> set t \<Longrightarrow> CHR 0x0D \<notin> set t \<Longrightarrow>
   strip_runes Text (map of_char t @ rs) = map of_char t @ strip_runes Text rs"
proof (induction t)
  case (Cons c t)
  have "(of_char c :: nat) \<noteq> 27" "(of_char c :: nat) \<noteq> 13"
    using Cons.prems of_char_eq [of c "CHR 0x1B"] of_char_eq [of c "CHR 0x0D"] by auto
  then show ?case using Cons by simp
qed simp

lemma strip_csi:
  "list_all (\<lambda>c. 32 \<le> (of_char c :: nat) \<and> (of_char c :: nat) < 64) ps \<Longrightarrow>
   64 \<le> (of_char f :: nat) \<and> (of_char f :: nat) \<le> 126 \<Longrightarrow>
   strip_runes InCSI (map of_char ps @ of_char f # rs) = strip_runes Text rs"
  by (induction ps) auto

lemma strip_piece:
  "wf_piece p \<Longrightarrow>
   strip_runes Text (map of_char (render p) @ rs) = map of_char (visible p) @ strip_runes Text rs"
  by (cases p) (simp_all add: strip_plain strip_csi)

lemma strip_pieces:
  "list_all wf_piece ps \<Longrightarrow>
   strip_runes Text (map of_char (concat (map render ps)))
     = map of_char (concat (map visible ps))"
  by (induction ps) (simp_all add: strip_piece)

lemma encode_ascii: "is_ascii s \<Longrightarrow> concat (map utf8_encode (map of_char s)) = s"
  by (induction s) (simp_all add: is_ascii_def)

lemma strip_ansi_pieces:
  assumes "list_all wf_piece ps"
  shows "strip_ansi (concat (map render ps)) = concat (map visible ps)"
proof -
  have "is_ascii (concat (map render ps)) \<and> is_ascii (concat (map visible ps))"
    using assms by (induction ps) (simp_all add: is_ascii_render is_ascii_visible)
  then have a: "is_ascii (concat (map render ps))" "is_ascii (concat (map visible ps))"
    by simp_all
  then show ?thesis
    using strip_pieces [OF assms] encode_ascii [OF a(2)]
    by (simp add: strip_ansi_def utf8_decode_ascii comp_def)
qed

text \<open>
  Stripping the CLI's terminal noise keeps exactly the text: for any interleaving of plain text
  (ASCII, without escape or return), CSI sequences and carriage returns, the result is the
  concatenation of the plain pieces.
\<close>

lemma strip_ansi_keeps_text:
  assumes "list_all wf_piece ps"
  shows "strip_ansi (concat (map render ps)) = concat (map visible ps)"
  using assms by (rule strip_ansi_pieces)

theorem strip_ansi_keeps_text_witness:
  "strip_ansi (concat (map render [Return, CSI [] (CHR ''K''), CSI ''36'' (CHR ''m''), Plain ''retyc: no'']))
   = ''retyc: no''"
  by (subst strip_ansi_keeps_text) (simp_all add: is_ascii_def)

text \<open>
  Whatever bytes the CLI wrote (valid UTF-8 or not), the stripped message holds neither an
  escape byte nor a carriage return: it is safe to put in a log line or an event.
\<close>

lemma strip_ansi_no_control:
  "set (strip_ansi s) \<inter> {CHR 0x1B, CHR 0x0D} = {}"
proof -
  let ?rs = "map fst (utf8_decode s)"
  have "c \<notin> set (strip_ansi s)" if "c \<in> {CHR 0x1B, CHR 0x0D}" for c
  proof
    assume "c \<in> set (strip_ansi s)"
    then obtain r where r: "r \<in> set (strip_runes Text ?rs)" "c \<in> set (utf8_encode r)"
      by (auto simp: strip_ansi_def)
    have "r \<in> set ?rs" using r(1) strip_runes_subset by blast
    then have "r < 1114112" using utf8_decode_bound by simp
    moreover have "(of_char c :: nat) < 128" using that by auto
    ultimately have "r = of_char c" using r(2) utf8_encode_byte by simp
    then show False using r(1) strip_runes_clean that by auto
  qed
  then show ?thesis by blast
qed

subsection \<open>The error object on stderr\<close>

record stderr_error =
  se_error :: string
  se_kind :: string
  se_status :: int
  se_detail :: string

record exec_result =
  ex_stdout :: string
  ex_stderr :: string
  ex_err :: "string option"

text \<open>A \<open>Client\<close>: the binary, the environment and the timeout (nanoseconds) of every call.\<close>

record client =
  bin_path :: string
  client_env :: "string list"
  client_timeout :: int

definition new_client :: "string \<Rightarrow> string list \<Rightarrow> client" where
  "new_client bin env = \<lparr>bin_path = bin, client_env = env, client_timeout = 60 * 10 ^ 9\<rparr>"

record dataroom =
  dr_id :: string
  dr_title :: string
  dr_created_at :: int
  dr_storage_capacity :: "int option"
  dr_versioning_enabled :: "bool option"

record create_result =
  cr_id :: string
  cr_title :: string

record delete_result =
  del_dataroom_id :: string
  del_uri :: string
  del_count :: int

record user_quota =
  count_share :: int
  max_count_share :: "int option"
  count_dataroom :: int
  max_count_dataroom :: "int option"
  used_storage :: int
  max_storage :: int
  is_upload_read_only :: bool

record auth_status =
  authenticated :: bool
  offline :: bool
  reason :: string

text \<open>
  What is outside the repository: running the CLI (\<open>exec.CommandContext\<close> bounded by the timeout,
  with the arguments), the JSON decoders (\<open>json_whole\<close> is \<open>Unmarshal\<close>, \<open>json_first\<close> decodes the
  first value of a text and ignores the rest), the Unicode tables, and the order \<open>go_range\<close> in which
  the runtime ranges over a map.
\<close>

record 'w cli =
  cli_exec :: "client \<Rightarrow> string list \<Rightarrow> ('w, exec_result) state"
  json_whole :: "string \<Rightarrow> stderr_error option"
  json_first :: "string \<Rightarrow> stderr_error option"
  json_create :: "string \<Rightarrow> create_result option"
  json_delete :: "string \<Rightarrow> delete_result option"
  json_page :: "string \<Rightarrow> dataroom list option"
  json_quota :: "string \<Rightarrow> user_quota option"
  json_auth :: "string \<Rightarrow> auth_status option"
  unicode_lower :: "string \<Rightarrow> string"
  go_range :: "string gomap \<Rightarrow> string gomap"

fun split_lines :: "string \<Rightarrow> string list" where
  "split_lines [] = [[]]"
| "split_lines (c # s) =
     (if c = CHR 0x0A then [] # split_lines s
      else (case split_lines s of [] \<Rightarrow> [[c]] | x # xs \<Rightarrow> (c # x) # xs))"

text \<open>The loop over every opening brace, from the first one on.\<close>

fun first_object :: "(string \<Rightarrow> stderr_error option) \<Rightarrow> string \<Rightarrow> stderr_error option" where
  "first_object dec [] = None"
| "first_object dec (c # s) =
     (if c = CHR 0x7B then
        (case dec (c # s) of
           Some p \<Rightarrow> if se_error p \<noteq> [] then Some p else first_object dec s
         | None \<Rightarrow> first_object dec s)
      else first_object dec s)"

definition parse_stderr_error :: "'w cli \<Rightarrow> string \<Rightarrow> stderr_error" where
  "parse_stderr_error X stderr =
     (let last_line = trim_space (last (split_lines (trim_space stderr)));
          fallback = (case first_object (json_first X) stderr of
              Some p \<Rightarrow> p
            | None \<Rightarrow> \<lparr>se_error = trim_space (strip_ansi stderr), se_kind = [], se_status = 0,
                       se_detail = []\<rparr>)
      in if last_line \<noteq> [] \<and> hd last_line = CHR 0x7B then
           (case json_whole X last_line of
              Some p \<Rightarrow> if se_error p \<noteq> [] then p else fallback
            | None \<Rightarrow> fallback)
         else fallback)"

text \<open>\<open>run\<close>: with \<open>dec\<close> the decoder of stdout (\<open>\<lambda>_. Some ()\<close> for a nil \<open>out\<close>).\<close>

definition run_cli ::
  "'w cli \<Rightarrow> (string \<Rightarrow> 'a option) \<Rightarrow> client \<Rightarrow> string list \<Rightarrow> ('w, client_error + 'a) state" where
  "run_cli X dec c args = do {
     r \<leftarrow> cli_exec X c (''--json'' # args);
     State_Monad.return (case ex_err r of
         Some e \<Rightarrow>
           (let p = parse_stderr_error X (ex_stderr r)
            in Inl (CLI \<lparr>ce_args = args, ce_message = (if se_error p = [] then e else se_error p),
                         ce_kind = se_kind p, ce_status = se_status p, ce_detail = se_detail p\<rparr>))
       | None \<Rightarrow> (case dec (ex_stdout r) of None \<Rightarrow> Inl (Decode args) | Some x \<Rightarrow> Inr x))
   }"

subsection \<open>Sizes and settings\<close>

definition size_units :: "(string \<times> int) list" where
  "size_units = [(''TiB'', 2 ^ 40), (''GiB'', 2 ^ 30), (''MiB'', 2 ^ 20), (''KiB'', 2 ^ 10)]"

definition format_size :: "int \<Rightarrow> string" where
  "format_size bytes =
     (case find (\<lambda>(sfx, sz). 0 < bytes \<and> bytes mod sz = 0) size_units of
        Some (sfx, sz) \<Rightarrow> show_int (bytes div sz) @ sfx
      | None \<Rightarrow> show_int bytes @ ''B'')"

text \<open>
  What a size argument means to its reader: a decimal number times the unit its suffix names.
\<close>

definition all_units :: "(string \<times> int) list" where
  "all_units = size_units @ [(''B'', 1)]"

definition size_value :: "string \<Rightarrow> int option" where
  "size_value s =
     map_option (\<lambda>u. int (read_nat (takeWhile is_digit s)) * u)
       (map_of all_units (dropWhile is_digit s))"

lemma takeWhile_digits:
  "list_all is_digit d \<Longrightarrow> \<not> is_digit c \<Longrightarrow> takeWhile is_digit (d @ c # t) = d"
  by (induction d) auto

lemma dropWhile_digits:
  "list_all is_digit d \<Longrightarrow> \<not> is_digit c \<Longrightarrow> dropWhile is_digit (d @ c # t) = c # t"
  by (induction d) auto

lemma size_value_show:
  assumes "map_of all_units u = Some sz" and "u \<noteq> []" and "\<not> is_digit (hd u)"
  shows "size_value (show_nat n @ u) = Some (int n * sz)"
proof -
  obtain c t where u: "u = c # t" using assms(2) by (cases u) auto
  have "\<not> is_digit c" using assms(3) u by simp
  then show ?thesis
    using assms(1) u
    by (simp add: size_value_def takeWhile_digits dropWhile_digits show_nat_digits)
qed

lemma all_units_suffix:
  "(u, sz) \<in> set all_units \<Longrightarrow>
   map_of all_units u = Some sz \<and> u \<noteq> [] \<and> \<not> is_digit (hd u) \<and> 0 < sz"
  by (auto simp: all_units_def size_units_def is_digit_def)

lemma format_size_unit:
  assumes "0 < n"
  obtains u sz where "(u, sz) \<in> set all_units" and "n mod sz = 0"
    and "format_size n = show_int (n div sz) @ u"
    and "\<forall>(u', sz') \<in> set all_units. n mod sz' = 0 \<longrightarrow> sz' \<le> sz"
proof -
  let ?P = "\<lambda>(sfx, sz). 0 < n \<and> n mod sz = 0"
  have "\<exists>(u, sz) \<in> set all_units. n mod sz = 0 \<and> format_size n = show_int (n div sz) @ u \<and>
      (\<forall>(u', sz') \<in> set all_units. n mod sz' = 0 \<longrightarrow> sz' \<le> sz)"
  proof (cases "find ?P size_units")
    case None
    then have none: "\<forall>(u', sz') \<in> set size_units. n mod sz' \<noteq> 0"
      using assms by (auto simp: find_None_iff mod_eq_0_iff_dvd)
    have "format_size n = show_int (n div 1) @ ''B''"
      unfolding format_size_def None by simp
    moreover have "\<forall>(u', sz') \<in> set all_units. n mod sz' = 0 \<longrightarrow> sz' \<le> 1"
      using none by (auto simp: all_units_def mod_eq_0_iff_dvd)
    ultimately show ?thesis by (intro bexI [of _ "(''B'', 1)"]) (auto simp: all_units_def)
  next
    case (Some x)
    obtain u sz where x: "x = (u, sz)" by fastforce
    have "sorted_wrt (\<lambda>a b. snd b \<le> snd a) size_units" by (simp add: size_units_def)
    from find_sorted [OF Some this] x
    have f: "(u, sz) \<in> set size_units" "n mod sz = 0"
      "\<forall>(u', sz') \<in> set size_units. n mod sz' = 0 \<longrightarrow> sz' \<le> sz"
      using assms by auto
    have "format_size n = show_int (n div sz) @ u"
      unfolding format_size_def Some x by simp
    moreover have "1 \<le> sz" using f(1) by (auto simp: size_units_def)
    ultimately show ?thesis
      using f by (intro bexI [of _ "(u, sz)"]) (auto simp: all_units_def)
  qed
  then show ?thesis
    by clarify (rule that; simp)
qed

text \<open>
  A size is never rounded: the argument \<open>--storage-capacity\<close> gets is read back as exactly the
  number of bytes, and it is written in the largest unit that divides it.
\<close>

lemma format_size_exact:
  assumes "0 < n"
  shows "size_value (format_size n) = Some n \<and>
    (\<exists>(u, sz) \<in> set all_units. format_size n = show_int (n div sz) @ u \<and> n mod sz = 0 \<and>
       (\<forall>(u', sz') \<in> set all_units. n mod sz' = 0 \<longrightarrow> sz' \<le> sz))"
proof -
  obtain u sz where u: "(u, sz) \<in> set all_units" "n mod sz = 0"
      "format_size n = show_int (n div sz) @ u"
    and m: "\<forall>(u', sz') \<in> set all_units. n mod sz' = 0 \<longrightarrow> sz' \<le> sz"
    by (rule format_size_unit [OF assms])
  note s = all_units_suffix [OF u(1)]
  have "0 \<le> n div sz" using assms s by (simp add: pos_imp_zdiv_nonneg_iff)
  then have "size_value (format_size n) = Some (n div sz * sz)"
    using s size_value_show [of u sz "nat (n div sz)"] by (simp add: u(3) show_int_def)
  moreover have "n div sz * sz = n" using u(2) by auto
  ultimately show ?thesis using u m by auto
qed

theorem format_size_exact_witness:
  "size_value (format_size 1572864000) = Some 1572864000"
  by (rule format_size_exact [THEN conjunct1]) simp

definition setting_args :: "int option \<Rightarrow> bool option \<Rightarrow> string list" where
  "setting_args capacity versioning =
     (case capacity of None \<Rightarrow> [] | Some b \<Rightarrow> [''--storage-capacity'', format_size b]) @
     (case versioning of None \<Rightarrow> [] | Some v \<Rightarrow> [''--versioning='' @ format_bool v])"

definition dataroom_uri :: "string \<Rightarrow> string" where
  "dataroom_uri i = ''retyc://'' @ i"

definition create_dataroom ::
  "'w cli \<Rightarrow> client \<Rightarrow> string \<Rightarrow> int option \<Rightarrow> bool option \<Rightarrow> ('w, client_error + create_result) state" where
  "create_dataroom X c title capacity versioning =
     run_cli X (json_create X) c
       ([''dataroom'', ''create'', ''--title'', title] @ setting_args capacity versioning)"

definition update_dataroom ::
  "'w cli \<Rightarrow> client \<Rightarrow> string \<Rightarrow> int option \<Rightarrow> bool option \<Rightarrow> ('w, client_error + unit) state" where
  "update_dataroom X c i capacity versioning =
     (let settings = setting_args capacity versioning
      in if settings = [] then State_Monad.return (Inr ())
         else run_cli X (\<lambda>_. Some ()) c
                ([''dataroom'', ''set'', dataroom_uri i] @ settings @ [''-y'']))"

definition delete_dataroom ::
  "'w cli \<Rightarrow> client \<Rightarrow> string \<Rightarrow> ('w, client_error + delete_result) state" where
  "delete_dataroom X c i = run_cli X (json_delete X) c [''dataroom'', ''rm'', dataroom_uri i, ''-y'']"

definition list_datarooms :: "'w cli \<Rightarrow> client \<Rightarrow> ('w, client_error + dataroom list) state" where
  "list_datarooms X c = run_cli X (json_page X) c [''dataroom'', ''ls'']"

definition quota :: "'w cli \<Rightarrow> client \<Rightarrow> ('w, client_error + user_quota) state" where
  "quota X c = run_cli X (json_quota X) c [''user'', ''quota'']"

definition has_dataroom_quota :: "user_quota \<Rightarrow> bool" where
  "has_dataroom_quota q =
     (case max_count_dataroom q of None \<Rightarrow> True | Some m \<Rightarrow> count_dataroom q < m)"

definition with_env :: "client \<Rightarrow> string gomap \<Rightarrow> client" where
  "with_env c overrides = c\<lparr>client_env := merge_env (client_env c) overrides\<rparr>"

datatype auth_error = AuthRun client_error | NotAuthenticated string

definition auth_status_check :: "'w cli \<Rightarrow> client \<Rightarrow> ('w, auth_error option) state" where
  "auth_status_check X c = do {
     r \<leftarrow> run_cli X (json_auth X) c [''auth'', ''status''];
     State_Monad.return (case r of
         Inl e \<Rightarrow> Some (AuthRun e)
       | Inr st \<Rightarrow> if authenticated st then None else Some (NotAuthenticated (reason st)))
   }"

end
