(* ===== verification/Stderr_Report.thy ===== *)
theory Stderr_Report
  imports Retyc_Client
begin

text \<open>
  What the CLI promises of its stderr, stated on the bytes and not by the reader of client.go: the
  error object on the last line, after text warnings, or behind the spinner's escape sequences on that
  line; and a failure that wrote no object at all. The lemmas show that \<open>parseStderrError\<close> finds exactly
  the object reported, and that the regular expression of the 404 accepts exactly the messages that
  relay one.
\<close>

subsection \<open>Decoding around a byte below 128\<close>

lemma byte_in_Cons: "byte_in lo hi (b # s) \<longleftrightarrow> lo \<le> (of_char b :: nat) \<and> (of_char b :: nat) \<le> hi"
  by (simp add: byte_in_def)

lemma byte_in_Nil [simp]: "\<not> byte_in lo hi []"
  by (simp add: byte_in_def)

lemma low6_Cons: "low6 (b # s) = of_char b mod 64"
  by (simp add: low6_def)

lemma byte_in_low: "(of_char x :: nat) < 128 \<Longrightarrow> 128 \<le> lo \<Longrightarrow> \<not> byte_in lo hi [x]"
  by (simp add: byte_in_Cons)

lemma byte_in_first: "NO_MATCH [] u \<Longrightarrow> byte_in lo hi (a # u) = byte_in lo hi [a]"
  by (simp add: byte_in_Cons)

lemma low_bytes: "128 \<le> (if P then 160 else 128 :: nat)" "128 \<le> (if P then 144 else 128 :: nat)"
  by simp_all

lemma decode_rune_ascii:
  assumes "(of_char x :: nat) < 128"
  shows "decode_rune c (s @ x # t) = decode_rune c s"
proof -
  consider "s = []" | a where "s = [a]" | a b where "s = [a, b]" | a b d s' where "s = a # b # d # s'"
    by (metis list.exhaust)
  then show ?thesis
    by cases (simp_all add: decode_rune_def Let_def low6_Cons byte_in_low [OF assms] low_bytes
      byte_in_first
      split del: if_split cong: if_cong)
qed

lemma decode_rune_width: "1 \<le> snd (decode_rune c s) \<and> snd (decode_rune c s) \<le> Suc (length s)"
  by (auto simp: decode_rune_def Let_def byte_in_def split: list.splits)

lemma utf8_decode_append:
  assumes "(of_char x :: nat) < 128"
  shows "utf8_decode (s @ x # t) = utf8_decode s @ (of_char x, [x]) # utf8_decode t"
proof (induction s rule: utf8_decode.induct)
  case 1
  show ?case using assms by (simp add: decode_rune_def)
next
  case (2 c s)
  obtain r w where d: "decode_rune c s = (r, w)" by fastforce
  then have "w \<le> Suc (length s)" using decode_rune_width [of c s] by simp
  then have "w - Suc 0 \<le> length s" by simp
  then show ?case
    using 2 [OF d [symmetric]] d by (simp add: decode_rune_ascii [OF assms] take_Cons')
qed

lemma utf8_decode_concat: "concat (map snd (utf8_decode s)) = s"
proof (induction s rule: utf8_decode.induct)
  case (2 c s)
  obtain r w where d: "decode_rune c s = (r, w)" by fastforce
  then have "1 \<le> w" using decode_rune_width [of c s] by simp
  then show ?case using 2 [OF d [symmetric]] d by (simp add: take_Cons')
qed simp

subsection \<open>Trimming and splitting\<close>

definition trim_start :: "string \<Rightarrow> string" where
  "trim_start s = concat (map snd (dropWhile (\<lambda>x. is_space (fst x)) (utf8_decode s)))"

text \<open>A text that begins and ends with marks that are not white space keeps all between them.\<close>

lemma trim_space_marks:
  assumes "(of_char x :: nat) < 128" "\<not> is_space (of_char x)" "(of_char y :: nat) < 128"
    "\<not> is_space (of_char y)" "set z \<subseteq> {CHR 0x0A}"
  shows "trim_space (s @ x # m @ y # z) = trim_start s @ x # m @ [y]"
proof -
  have z: "list_all (\<lambda>q. is_space (fst q)) (utf8_decode z)"
    using assms(5) by (induction z) (auto simp: is_space_def decode_rune_def)
  have "dropWhile (\<lambda>q. is_space (fst q)) (utf8_decode s @ (of_char x, [x]) # utf8_decode m @ (of_char y, [y]) # utf8_decode z)
     = dropWhile (\<lambda>q. is_space (fst q)) (utf8_decode s) @ (of_char x, [x]) # utf8_decode m @ (of_char y, [y]) # utf8_decode z"
    using assms(2) by (induction "utf8_decode s") (auto simp: dropWhile_append)
  moreover have "dropWhile (\<lambda>q. is_space (fst q)) (rev (utf8_decode z) @ (of_char y, [y]) # R) = (of_char y, [y]) # R" for R
    using z assms(4) by (subst dropWhile_append2) (auto simp: list_all_iff)
  ultimately show ?thesis
    by (simp add: trim_space_def utf8_decode_append [OF assms(1)] utf8_decode_append [OF assms(3)]
        trim_start_def utf8_decode_concat)
qed

lemma trim_start_mark:
  assumes "(of_char x :: nat) < 128" "\<not> is_space (of_char x)"
  shows "trim_start (s @ x # t) = trim_start s @ x # t"
  using assms
  by (auto simp: trim_start_def utf8_decode_append dropWhile_append utf8_decode_concat
      dropWhile_eq_Nil_conv [THEN iffD2])

lemma trim_start_space:
  assumes "(of_char x :: nat) < 128" "is_space (of_char x)"
  shows "trim_start (s @ [x]) = [] \<or> trim_start (s @ [x]) = trim_start s @ [x]"
  using assms
  by (simp add: trim_start_def utf8_decode_append dropWhile_append)

lemma split_lines_nonempty [simp]: "split_lines s \<noteq> []"
  by (induction s) (auto split: list.splits)

lemma split_lines_append:
  "CHR 0x0A \<notin> set t \<Longrightarrow>
   split_lines (s @ t) = butlast (split_lines s) @ [last (split_lines s) @ t]"
proof (induction s)
  case Nil
  then show ?case by (induction t) auto
next
  case (Cons c s)
  then show ?case by (cases "split_lines s") (auto split: list.splits)
qed

lemma split_lines_newline: "split_lines (s @ CHR 0x0A # t) = split_lines s @ split_lines t"
  by (induction s) (auto split: list.splits simp: Cons_eq_append_conv)

lemma last_line_append:
  "CHR 0x0A \<notin> set t \<Longrightarrow> last (split_lines (s @ t)) = last (split_lines s) @ t"
  by (simp add: split_lines_append)

lemma last_line_newline: "last (split_lines (s @ [CHR 0x0A])) = []"
  by (simp add: split_lines_newline)

subsection \<open>The error object\<close>

text \<open>
  The error object \<open>p\<close> on the last line of stderr, after lines of warnings: alone on its line, where
  \<open>Unmarshal\<close> reads it, or behind the spinner's escape sequences, in a text with no brace before it,
  where a decoder started at the brace reads it.
\<close>

definition reports :: "'w cli \<Rightarrow> string \<Rightarrow> stderr_error \<Rightarrow> bool" where
  "reports X stderr p \<longleftrightarrow> se_error p \<noteq> [] \<and>
     (\<exists>warn spin body nl.
        stderr = warn @ spin @ CHR ''{'' # body @ CHR ''}'' # nl \<and> (nl = [] \<or> nl = [CHR 0x0A]) \<and>
        (warn = [] \<or> (\<exists>w. warn = w @ [CHR 0x0A])) \<and> CHR 0x0A \<notin> set (spin @ body) \<and>
        (spin = [] \<and> json_whole X (CHR ''{'' # body @ [CHR ''}'']) = Some p \<or>
         take 2 spin = [CHR 0x0D, CHR 0x1B] \<and> CHR ''{'' \<notin> set (warn @ spin) \<and>
           json_first X (CHR ''{'' # body @ CHR ''}'' # nl) = Some p))"

text \<open>No part of a text reads as an error object: the CLI died before it could write one.\<close>

definition no_report :: "'w cli \<Rightarrow> string \<Rightarrow> bool" where
  "no_report X stderr \<longleftrightarrow>
     (\<forall>t. sublist (CHR ''{'' # t) stderr \<longrightarrow>
        json_whole X (CHR ''{'' # t) = None \<and> json_first X (CHR ''{'' # t) = None)"

lemma no_braces_no_report: "CHR ''{'' \<notin> set stderr \<Longrightarrow> no_report X stderr"
  by (auto simp: no_report_def dest: set_mono_sublist)

lemma last_line_warnings:
  assumes "warn = [] \<or> (\<exists>w. warn = w @ [CHR 0x0A])"
  shows "last (split_lines (trim_start warn)) = []"
proof (cases "warn = []")
  case False
  then obtain w where w: "warn = w @ [CHR 0x0A]" using assms by auto
  have "trim_start warn = [] \<or> trim_start warn = trim_start w @ [CHR 0x0A]"
    unfolding w by (rule trim_start_space) (simp_all add: is_space_def)
  then show ?thesis by (auto simp: last_line_newline)
qed (simp add: trim_start_def)

lemma last_line_return:
  assumes "warn = [] \<or> (\<exists>w. warn = w @ [CHR 0x0A])"
  shows "last (split_lines (trim_start (warn @ [CHR 0x0D]))) \<in> {[], [CHR 0x0D]}"
proof -
  have "trim_start (warn @ [CHR 0x0D]) = [] \<or> trim_start (warn @ [CHR 0x0D]) = trim_start warn @ [CHR 0x0D]"
    by (rule trim_start_space) (simp_all add: is_space_def)
  then show ?thesis
    using last_line_append [of "[CHR 0x0D]" "trim_start warn"] by (auto simp: last_line_warnings [OF assms])
qed

lemma first_object_skip:
  "CHR ''{'' \<notin> set a \<Longrightarrow> first_object dec (a @ s) = first_object dec s"
  by (induction a) auto

text \<open>\<open>parseStderrError\<close> reads what stderr reports, wherever the object stands.\<close>

lemma parse_own_line:
  assumes "set nl \<subseteq> {CHR 0x0A}" "warn = [] \<or> (\<exists>w. warn = w @ [CHR 0x0A])" "CHR 0x0A \<notin> set body"
    and "json_whole X (CHR ''{'' # body @ [CHR ''}'']) = Some p" "se_error p \<noteq> []"
  shows "parse_stderr_error X (warn @ CHR ''{'' # body @ CHR ''}'' # nl) = p"
proof -
  have trim: "trim_space (s @ CHR ''{'' # body @ CHR ''}'' # z) = trim_start s @ CHR ''{'' # body @ [CHR ''}'']"
    if "set z \<subseteq> {CHR 0x0A}" for s z
    using that by (intro trim_space_marks) (simp_all add: is_space_def)
  have "last (split_lines (trim_start warn @ CHR ''{'' # body @ [CHR ''}''])) = CHR ''{'' # body @ [CHR ''}'']"
    using last_line_append [of "CHR ''{'' # body @ [CHR ''}'']" "trim_start warn"] assms(3)
    by (simp add: last_line_warnings [OF assms(2)])
  moreover have "trim_start [] = []" by (simp add: trim_start_def)
  ultimately show ?thesis
    using trim [of "[]" "[]"] assms(4,5) by (simp add: parse_stderr_error_def trim [OF assms(1)])
qed

lemma parse_spinner_line:
  assumes "set nl \<subseteq> {CHR 0x0A}" "warn = [] \<or> (\<exists>w. warn = w @ [CHR 0x0A])"
    and "CHR 0x0A \<notin> set (t @ body)" "CHR ''{'' \<notin> set (warn @ t)"
    and "json_first X (CHR ''{'' # body @ CHR ''}'' # nl) = Some p" "se_error p \<noteq> []"
  shows "parse_stderr_error X (warn @ CHR 0x0D # CHR 0x1B # t @ CHR ''{'' # body @ CHR ''}'' # nl) = p"
proof -
  let ?m = "t @ CHR ''{'' # body" and ?stderr = "warn @ CHR 0x0D # CHR 0x1B # t @ CHR ''{'' # body @ CHR ''}'' # nl"
  have trim: "trim_space (s @ CHR 0x1B # ?m @ CHR ''}'' # z) = trim_start s @ CHR 0x1B # ?m @ [CHR ''}'']"
    if "set z \<subseteq> {CHR 0x0A}" for s z
    using that by (intro trim_space_marks) (simp_all add: is_space_def)
  have "trim_space ?stderr = trim_start (warn @ [CHR 0x0D]) @ CHR 0x1B # ?m @ [CHR ''}'']"
    using trim [OF assms(1), of "warn @ [CHR 0x0D]"] by simp
  then have "last (split_lines (trim_space ?stderr))
      = last (split_lines (trim_start (warn @ [CHR 0x0D]))) @ CHR 0x1B # ?m @ [CHR ''}'']"
    using last_line_append [of "CHR 0x1B # ?m @ [CHR ''}'']"] assms(3) by simp
  then obtain z where z: "last (split_lines (trim_space ?stderr)) = z @ CHR 0x1B # ?m @ [CHR ''}'']"
      and "z = [] \<or> z = [CHR 0x0D]"
    using last_line_return [OF assms(2)] by blast
  then have "trim_start z = []"
    by (auto simp: trim_start_def is_space_def decode_rune_def)
  then have "hd (trim_space (last (split_lines (trim_space ?stderr)))) = CHR 0x1B"
    using trim [of "[]" z] by (simp add: z)
  moreover have "first_object (json_first X) ?stderr = Some p"
    using assms(5,6) first_object_skip [of "warn @ CHR 0x0D # CHR 0x1B # t"] assms(4) by simp
  ultimately show ?thesis by (simp add: parse_stderr_error_def)
qed

text \<open>\<open>parseStderrError\<close> reads what stderr reports, wherever the object stands.\<close>

lemma parse_reported:
  assumes "reports X stderr p"
  shows "parse_stderr_error X stderr = p"
proof -
  obtain warn spin body nl where p: "se_error p \<noteq> []"
    and stderr: "stderr = warn @ spin @ CHR ''{'' # body @ CHR ''}'' # nl"
    and nl: "nl = [] \<or> nl = [CHR 0x0A]" and warn: "warn = [] \<or> (\<exists>w. warn = w @ [CHR 0x0A])"
    and line: "CHR 0x0A \<notin> set (spin @ body)"
    and dec: "spin = [] \<and> json_whole X (CHR ''{'' # body @ [CHR ''}'']) = Some p \<or>
         take 2 spin = [CHR 0x0D, CHR 0x1B] \<and> CHR ''{'' \<notin> set (warn @ spin) \<and>
           json_first X (CHR ''{'' # body @ CHR ''}'' # nl) = Some p"
    using assms unfolding reports_def by blast
  have nl': "set nl \<subseteq> {CHR 0x0A}" using nl by auto
  from dec show ?thesis
  proof
    assume d: "spin = [] \<and> json_whole X (CHR ''{'' # body @ [CHR ''}'']) = Some p"
    then have "CHR 0x0A \<notin> set body" using line by simp
    from parse_own_line [OF nl' warn this conjunct2 [OF d] p] show ?thesis using d by (simp add: stderr)
  next
    assume d: "take 2 spin = [CHR 0x0D, CHR 0x1B] \<and> CHR ''{'' \<notin> set (warn @ spin) \<and>
      json_first X (CHR ''{'' # body @ CHR ''}'' # nl) = Some p"
    then obtain t where t: "spin = CHR 0x0D # CHR 0x1B # t"
      by (cases spin; cases "tl spin") auto
    have "CHR 0x0A \<notin> set (t @ body)" "CHR ''{'' \<notin> set (warn @ t)" using d line t by simp_all
    from parse_spinner_line [OF nl' warn this conjunct2 [OF conjunct2 [OF d]] p]
    show ?thesis by (simp add: stderr t)
  qed
qed

lemma first_object_none:
  assumes "\<And>t. sublist (CHR ''{'' # t) s \<Longrightarrow> dec (CHR ''{'' # t) = None"
  shows "first_object dec s = None"
  using assms
proof (induction s)
  case (Cons c s)
  have "first_object dec s = None"
    by (rule Cons.IH) (rule Cons.prems, erule sublist_Cons_right [THEN iffD2, OF disjI2])
  then show ?case using Cons.prems [of s] by (auto simp: sublist_order.order_refl)
qed simp

text \<open>What is left of a text that holds no object: the text itself, or the exit status if it is blank.\<close>

definition plain_text :: "string \<Rightarrow> string \<Rightarrow> string" where
  "plain_text stderr status =
     (let t = trim_space (strip_ansi stderr) in if t = [] then status else t)"

lemma sublist_trim_space: "sublist (trim_space s) s"
proof -
  let ?sp = "\<lambda>q :: nat \<times> string. is_space (fst q)"
  let ?d = "utf8_decode s"
  let ?m = "rev (dropWhile ?sp (rev (dropWhile ?sp ?d)))"
  have "takeWhile ?sp ?d @ ?m @ rev (takeWhile ?sp (rev (dropWhile ?sp ?d))) = ?d"
    by (simp flip: rev_append)
  then have "concat (map snd (takeWhile ?sp ?d)) @ concat (map snd ?m) @
      concat (map snd (rev (takeWhile ?sp (rev (dropWhile ?sp ?d))))) = s"
    by (metis concat_append map_append utf8_decode_concat)
  then show ?thesis unfolding trim_space_def sublist_def by metis
qed

lemma sublist_last_line: "sublist (last (split_lines s)) s"
proof (cases "CHR 0x0A \<in> set s")
  case True
  then obtain a b where s: "s = a @ CHR 0x0A # b" "CHR 0x0A \<notin> set b"
    by (metis split_list_last)
  then have "last (split_lines s) = b"
    using last_line_append [of b "a @ [CHR 0x0A]"] by (simp add: last_line_newline)
  then show ?thesis by (simp add: s(1) sublist_append sublist_Cons_right)
next
  case False
  then show ?thesis using last_line_append [of s "[]"] by simp
qed

lemma parse_no_report:
  assumes "no_report X stderr"
  shows "parse_stderr_error X stderr =
    \<lparr>se_error = trim_space (strip_ansi stderr), se_kind = [], se_status = 0, se_detail = []\<rparr>"
proof -
  let ?line = "trim_space (last (split_lines (trim_space stderr)))"
  have "sublist ?line stderr"
    by (rule sublist_order.order_trans [OF sublist_trim_space
      sublist_order.order_trans [OF sublist_last_line sublist_trim_space]])
  then have "json_whole X ?line = None" if "?line \<noteq> []" "hd ?line = CHR ''{''"
    using assms that by (cases ?line) (auto simp: no_report_def)
  moreover have "first_object (json_first X) stderr = None"
    using assms by (intro first_object_none) (simp add: no_report_def)
  ultimately show ?thesis by (simp add: parse_stderr_error_def Let_def)
qed

subsection \<open>A missing resource\<close>

text \<open>
  A message relays the API's 404: whatever the case of its letters, \<open>API error 404:\<close> stands at its
  start or after a prefix of the CLI's that ends in a colon and a space.
\<close>

definition relays_404 :: "'w cli \<Rightarrow> string \<Rightarrow> bool" where
  "relays_404 X msg \<longleftrightarrow> (\<exists>pre rest. to_lower (unicode_lower X) msg = pre @ ''api error 404:'' @ rest \<and>
     (pre = [] \<or> (\<exists>q. pre = q @ '': '')))"

lemma not_found_error_iff:
  "not_found_error s \<longleftrightarrow> (\<exists>pre rest. s = pre @ ''api error 404:'' @ rest \<and> (pre = [] \<or> (\<exists>q. pre = q @ '': '')))"
proof
  assume "not_found_error s"
  then consider rest where "s = ''api error 404:'' @ rest"
    | q rest where "s = q @ ('': '' @ ''api error 404:'') @ rest"
    unfolding not_found_error_def starts_or_after_colon_def has_prefix_def contains_def sublist_def
      Sublist.prefix_def by blast
  then show "\<exists>pre rest. s = pre @ ''api error 404:'' @ rest \<and> (pre = [] \<or> (\<exists>q. pre = q @ '': ''))"
  proof cases
    case (1 rest)
    then show ?thesis by (intro exI [of _ "[]"] exI [of _ rest]) simp
  next
    case (2 q rest)
    then show ?thesis by (intro exI [of _ "q @ '': ''"] exI [of _ rest]) simp
  qed
next
  assume "\<exists>pre rest. s = pre @ ''api error 404:'' @ rest \<and> (pre = [] \<or> (\<exists>q. pre = q @ '': ''))"
  then obtain pre rest where s: "s = pre @ ''api error 404:'' @ rest"
    and "pre = [] \<or> (\<exists>q. pre = q @ '': '')" by blast
  then consider "pre = []" | q where "pre = q @ '': ''" by blast
  then show "not_found_error s"
  proof cases
    case 1
    then show ?thesis by (simp add: s not_found_error_def starts_or_after_colon_def has_prefix_def)
  next
    case (2 q)
    have "sublist ('': '' @ ''api error 404:'') (q @ ('': '' @ ''api error 404:'') @ rest)"
      by (rule sublist_appendI)
    then show ?thesis
      by (simp add: s 2 not_found_error_def starts_or_after_colon_def contains_def)
  qed
qed

text \<open>The object says that the resource is missing: by its kind, or an older CLI by its text.\<close>

definition missing :: "'w cli \<Rightarrow> stderr_error \<Rightarrow> bool" where
  "missing X p \<longleftrightarrow>
     (if se_kind p = [] then relays_404 X (se_error p) else se_kind p \<in> {''not_found'', ''gone''})"

text \<open>What a failed run makes of the error, and that \<open>IsNotFound\<close> reads it right.\<close>

lemma run_cli_failed:
  assumes "run_state (cli_exec X c (''--json'' # args)) w = (out, w')" and "ex_err out = Some status"
  shows "\<exists>e. run_state (run_cli X dec c args) w = (Inl e, w') \<and>
    (\<forall>p. reports X (ex_stderr out) p \<longrightarrow> (is_not_found (unicode_lower X) e \<longleftrightarrow> missing X p)) \<and>
    (no_report X (ex_stderr out) \<longrightarrow>
      (is_not_found (unicode_lower X) e \<longleftrightarrow> relays_404 X (plain_text (ex_stderr out) status)))"
proof -
  let ?p = "parse_stderr_error X (ex_stderr out)"
  let ?e = "CLI \<lparr>ce_args = args, ce_message = (if se_error ?p = [] then status else se_error ?p),
    ce_kind = se_kind ?p, ce_status = se_status ?p, ce_detail = se_detail ?p\<rparr>"
  have "run_state (run_cli X dec c args) w = (Inl ?e, w')"
    using assms by (simp add: run_cli_def Let_def)
  moreover have "is_not_found (unicode_lower X) ?e \<longleftrightarrow> missing X p" if "reports X (ex_stderr out) p" for p
  proof -
    have "?p = p" "se_error p \<noteq> []" using parse_reported [OF that] that by (auto simp: reports_def)
    then show ?thesis
      by (simp add: is_not_found_def by_kind_or_text_def classify_def missing_def relays_404_def
        not_found_error_iff kind_not_found_def kind_gone_def)
  qed
  moreover have "is_not_found (unicode_lower X) ?e \<longleftrightarrow> relays_404 X (plain_text (ex_stderr out) status)"
    if "no_report X (ex_stderr out)"
    by (simp add: parse_no_report [OF that] is_not_found_def by_kind_or_text_def classify_def
        relays_404_def not_found_error_iff plain_text_def Let_def)
  ultimately show ?thesis by blast
qed

lemma run_cli_exit_zero:
  assumes "run_state (cli_exec X c (''--json'' # args)) w = (out, w')" and "ex_err out = None"
  shows "run_state (run_cli X dec c args) w =
    ((case dec (ex_stdout out) of None \<Rightarrow> Inl (Decode args) | Some x \<Rightarrow> Inr x), w')"
  using assms by (simp add: run_cli_def)

end
