(* ===== verification/Csi_Types.thy ===== *)
theory Csi_Types
  imports Prelude
begin

text \<open>
  What both CSI services share: gRPC status codes, the errors of the Kubernetes API as the code
  tells them apart, volume capabilities and capacity ranges (the protobuf getters included: a
  missing message reads as zero). The text of a status is left out; \<open>hint\<close> keeps which of the
  fixed explanations \<open>apiError\<close> appends.
\<close>

datatype code =
    InvalidArgument | NotFound | AlreadyExists | OutOfRange | FailedPrecondition
  | PermissionDenied | ResourceExhausted | Unavailable | Internal | Aborted

datatype hint = NoHint | RenewToken | FixPassphrase | UpgradeDriver

type_synonym status = "code \<times> hint"

definition err :: "code \<Rightarrow> status" where
  "err c = (c, NoHint)"

definition code_of :: "status \<Rightarrow> code" where
  "code_of s = fst s"

lemma code_of_err [simp]: "code_of (err c) = c"
  by (simp add: code_of_def err_def)

text \<open>\<open>apierrors.IsNotFound\<close>, \<open>apierrors.IsAlreadyExists\<close>, or any other failure.\<close>

datatype api_failure = ApiNotFound | ApiAlreadyExists | ApiOther

datatype access_mode =
    Unknown | SingleNodeWriter | SingleNodeReaderOnly | MultiNodeReaderOnly
  | MultiNodeSingleWriter | MultiNodeMultiWriter | SingleNodeSingleWriter | SingleNodeMultiWriter

record volume_capability =
  cap_block :: bool
  cap_mode :: access_mode

record capacity_range =
  range_required :: int
  range_limit :: int

definition required_bytes :: "capacity_range option \<Rightarrow> int" where
  "required_bytes r = (case r of None \<Rightarrow> 0 | Some c \<Rightarrow> range_required c)"

definition limit_bytes :: "capacity_range option \<Rightarrow> int" where
  "limit_bytes r = (case r of None \<Rightarrow> 0 | Some c \<Rightarrow> range_limit c)"

end
