(* ===== verification/Controller.thy ===== *)
theory Controller
  imports Annotations Stderr_Report Csi_Types
begin

text \<open>
  The CSI controller service (internal/driver/controller.go): requests and responses as records,
  one operation per RPC, each an early-return chain in the order of the code. The CLI is the record
  \<open>cli\<close> of Retyc_Client; the Kubernetes client is the reading of one claim's annotations.
  The lemmas follow the CLI calls of each RPC, then the datarooms of the account, under what
  \<open>dataroom ls\<close>, \<open>create\<close> and \<open>set\<close> are documented to do.
\<close>

record 'w controller =
  cs_retyc :: client
  cs_kube :: "(string \<Rightarrow> string \<Rightarrow> ('w, api_failure + settings) state) option"

definition request_client ::
  "'w cli \<Rightarrow> 'w controller \<Rightarrow> string gomap \<Rightarrow> status + client" where
  "request_client X s secrets =
     (case from_secrets secrets of
        Inl _ \<Rightarrow> Inl (err InvalidArgument)
      | Inr (Some creds) \<Rightarrow> Inr (with_env (cs_retyc s) (go_range X (env_overrides creds)))
      | Inr None \<Rightarrow>
          if from_env (client_env (cs_retyc s)) = None then Inl (err FailedPrecondition)
          else Inr (cs_retyc s))"

datatype controller_capability = CREATE_DELETE_VOLUME | EXPAND_VOLUME | MODIFY_VOLUME

definition controller_get_capabilities :: "controller_capability list" where
  "controller_get_capabilities = [CREATE_DELETE_VOLUME, EXPAND_VOLUME, MODIFY_VOLUME]"

definition is_supported_capability :: "volume_capability \<Rightarrow> bool" where
  "is_supported_capability cap =
     (if cap_block cap then False
      else case cap_mode cap of
          SingleNodeWriter \<Rightarrow> True | SingleNodeSingleWriter \<Rightarrow> True | SingleNodeMultiWriter \<Rightarrow> True
        | SingleNodeReaderOnly \<Rightarrow> True | MultiNodeReaderOnly \<Rightarrow> True
        | MultiNodeSingleWriter \<Rightarrow> True | MultiNodeMultiWriter \<Rightarrow> True
        | _ \<Rightarrow> False)"

definition kubernetes_parameter_prefix :: string where
  "kubernetes_parameter_prefix = ''csi.storage.k8s.io/''"
definition pvc_name_parameter :: string where
  "pvc_name_parameter = kubernetes_parameter_prefix @ ''pvc/name''"
definition pvc_namespace_parameter :: string where
  "pvc_namespace_parameter = kubernetes_parameter_prefix @ ''pvc/namespace''"
definition versioning_parameter :: string where "versioning_parameter = ''versioning''"
definition volume_context_pvc_name :: string where "volume_context_pvc_name = ''pvcName''"
definition volume_context_namespace :: string where "volume_context_namespace = ''pvcNamespace''"

fun check_parameters :: "string gomap \<Rightarrow> status + unit" where
  "check_parameters [] = Inr ()"
| "check_parameters ((key, value) # params) =
     (if \<not> has_prefix key kubernetes_parameter_prefix then Inl (err InvalidArgument)
      else check_parameters params)"

text \<open>The loop over the parameters, with the variable \<open>versioning\<close>.\<close>

fun mutable_loop :: "string gomap \<Rightarrow> bool option \<Rightarrow> status + bool option" where
  "mutable_loop [] versioning = Inr versioning"
| "mutable_loop ((key, value) # params) versioning =
     (if key = versioning_parameter then
        (case parse_bool value of
           None \<Rightarrow> Inl (err InvalidArgument)
         | Some v \<Rightarrow> mutable_loop params (Some v))
      else if has_prefix key kubernetes_parameter_prefix then mutable_loop params versioning
      else Inl (err InvalidArgument))"

definition parse_mutable_parameters :: "string gomap \<Rightarrow> status + bool option" where
  "parse_mutable_parameters params = mutable_loop params None"

definition min_dataroom_capacity :: int where
  "min_dataroom_capacity = 20 * 2 ^ 30"

definition reserved_bytes :: "capacity_range option \<Rightarrow> status + int" where
  "reserved_bytes r =
     (let required = required_bytes r; limit = limit_bytes r
      in if required < 0 \<or> limit < 0 then Inl (err InvalidArgument)
         else if 0 < limit \<and> limit < required then Inl (err OutOfRange)
         else if required = 0 \<and> limit = 0 then Inr 0
         else if 0 < limit \<and> limit < min_dataroom_capacity then Inl (err OutOfRange)
         else Inr (max required min_dataroom_capacity))"

text \<open>\<open>apiError\<close>: the switch in its order, with the hint appended to the message.\<close>

definition api_error :: "(string \<Rightarrow> string) \<Rightarrow> client_error \<Rightarrow> status" where
  "api_error tables e =
     (if is_storage_exhausted tables e then err ResourceExhausted
      else if is_not_enlarged tables e \<or> is_capacity_refused tables e then err OutOfRange
      else if is_validation tables e then err InvalidArgument
      else if is_unauthenticated tables e then (FailedPrecondition, RenewToken)
      else if is_config tables e then (FailedPrecondition, FixPassphrase)
      else if is_cli_too_old tables e then (FailedPrecondition, UpgradeDriver)
      else if is_forbidden tables e then err PermissionDenied
      else if is_rate_limited tables e then err Unavailable
      else err Internal)"

definition update_error :: "(string \<Rightarrow> string) \<Rightarrow> client_error \<Rightarrow> status" where
  "update_error tables e =
     (if is_not_found tables e then err NotFound else api_error tables e)"

definition check_claim ::
  "'w controller \<Rightarrow> string \<Rightarrow> string \<Rightarrow> ('w, status + unit) state" where
  "check_claim s namespace name =
     guarded (namespace = [] \<or> name = []) (err InvalidArgument)
       (case cs_kube s of
          None \<Rightarrow> State_Monad.return (Inl (err FailedPrecondition))
        | Some get_claim \<Rightarrow>
            attempt (get_claim namespace name)
              (\<lambda>e. if e = ApiNotFound then err NotFound else err Unavailable)
              (\<lambda>annotations. case claim_owner annotations of
                 Inl _ \<Rightarrow> State_Monad.return (Inl (err InvalidArgument))
               | Inr _ \<Rightarrow> State_Monad.return (Inr ())))"

record create_request =
  cv_name :: string
  cv_capabilities :: "volume_capability list"
  cv_parameters :: "string gomap"
  cv_mutable :: "string gomap"
  cv_range :: "capacity_range option"
  cv_secrets :: "string gomap"

record volume =
  vol_id :: string
  vol_capacity :: int
  vol_context :: "string gomap"

definition create_volume_response :: "string \<Rightarrow> int \<Rightarrow> string \<Rightarrow> string \<Rightarrow> volume" where
  "create_volume_response i capacity pvc ns =
     \<lparr>vol_id = i, vol_capacity = capacity,
      vol_context = [(volume_context_pvc_name, pvc), (volume_context_namespace, ns)]\<rparr>"

text \<open>The body of the loop over the listed datarooms, for the first one with the title.\<close>

definition reuse_dataroom :: "create_request \<Rightarrow> int \<Rightarrow> dataroom \<Rightarrow> status + volume" where
  "reuse_dataroom req capacity dr =
     (let limit = limit_bytes (cv_range req);
          response = (\<lambda>reserved. create_volume_response (dr_id dr) reserved
            (lookup0 (cv_parameters req) pvc_name_parameter)
            (lookup0 (cv_parameters req) pvc_namespace_parameter))
      in case dr_storage_capacity dr of
           None \<Rightarrow> Inr (response capacity)
         | Some reserved \<Rightarrow>
             if reserved < capacity \<or> (0 < limit \<and> limit < reserved) then Inl (err AlreadyExists)
             else Inr (response reserved))"

definition provision_dataroom ::
  "'w cli \<Rightarrow> client \<Rightarrow> create_request \<Rightarrow> int \<Rightarrow> bool option \<Rightarrow> ('w, status + volume) state" where
  "provision_dataroom X retyc req capacity versioning =
     attempt (quota X retyc) (api_error (unicode_lower X)) (\<lambda>q.
     guarded (is_upload_read_only q) (err ResourceExhausted) (
     guarded (\<not> has_dataroom_quota q) (err ResourceExhausted) (
     attempt (create_dataroom X retyc (cv_name req)
         (if 0 < capacity then Some capacity else None) versioning)
       (api_error (unicode_lower X)) (\<lambda>result.
     State_Monad.return (Inr (create_volume_response (cr_id result) capacity
       (lookup0 (cv_parameters req) pvc_name_parameter)
       (lookup0 (cv_parameters req) pvc_namespace_parameter)))))))"

definition create_volume ::
  "'w cli \<Rightarrow> 'w controller \<Rightarrow> create_request \<Rightarrow> ('w, status + volume) state" where
  "create_volume X s req =
     guarded (cv_name req = []) (err InvalidArgument) (
     guarded (cv_capabilities req = []) (err InvalidArgument) (
     guarded (\<not> list_all is_supported_capability (cv_capabilities req)) (err InvalidArgument) (
     check (check_parameters (cv_parameters req)) (\<lambda>_.
     check (parse_mutable_parameters (cv_mutable req)) (\<lambda>versioning.
     check (reserved_bytes (cv_range req)) (\<lambda>capacity.
     attempt (check_claim s (lookup0 (cv_parameters req) pvc_namespace_parameter)
         (lookup0 (cv_parameters req) pvc_name_parameter)) id (\<lambda>_.
     check (request_client X s (cv_secrets req)) (\<lambda>retyc.
     attempt (list_datarooms X retyc) (api_error (unicode_lower X)) (\<lambda>existing.
     case find (\<lambda>dr. dr_title dr = cv_name req) existing of
       Some dr \<Rightarrow> State_Monad.return (reuse_dataroom req capacity dr)
     | None \<Rightarrow> provision_dataroom X retyc req capacity versioning)))))))))"

definition delete_volume ::
  "'w cli \<Rightarrow> 'w controller \<Rightarrow> string \<Rightarrow> string gomap \<Rightarrow> ('w, status + unit) state" where
  "delete_volume X s i secrets =
     guarded (i = []) (err InvalidArgument) (
     check (request_client X s secrets) (\<lambda>retyc. do {
       r \<leftarrow> delete_dataroom X retyc i;
       State_Monad.return (case r of
           Inl e \<Rightarrow> if is_not_found (unicode_lower X) e then Inr ()
                    else Inl (api_error (unicode_lower X) e)
         | Inr _ \<Rightarrow> Inr ())
     }))"

record expand_response =
  ex_capacity :: int
  node_expansion_required :: bool

definition controller_expand_volume ::
  "'w cli \<Rightarrow> 'w controller \<Rightarrow> string \<Rightarrow> capacity_range option \<Rightarrow> string gomap \<Rightarrow>
   ('w, status + expand_response) state" where
  "controller_expand_volume X s i rng secrets =
     guarded (i = []) (err InvalidArgument) (
     guarded (required_bytes rng = 0) (err InvalidArgument) (
     check (reserved_bytes rng) (\<lambda>capacity.
     check (request_client X s secrets) (\<lambda>retyc.
     attempt (list_datarooms X retyc) (api_error (unicode_lower X)) (\<lambda>items.
     case find (\<lambda>dr. dr_id dr = i \<and>
         (case dr_storage_capacity dr of None \<Rightarrow> False | Some b \<Rightarrow> capacity \<le> b)) items of
       Some dr \<Rightarrow> State_Monad.return (Inr \<lparr>ex_capacity = the (dr_storage_capacity dr),
                    node_expansion_required = False\<rparr>)
     | None \<Rightarrow>
         attempt (update_dataroom X retyc i (Some capacity) None) (update_error (unicode_lower X)) (\<lambda>_.
         State_Monad.return (Inr \<lparr>ex_capacity = capacity, node_expansion_required = False\<rparr>)))))))"

definition controller_modify_volume ::
  "'w cli \<Rightarrow> 'w controller \<Rightarrow> string \<Rightarrow> string gomap \<Rightarrow> string gomap \<Rightarrow>
   ('w, status + unit) state" where
  "controller_modify_volume X s i params secrets =
     guarded (i = []) (err InvalidArgument) (
     check (parse_mutable_parameters params) (\<lambda>versioning.
     if versioning = None then State_Monad.return (Inr ())
     else check (request_client X s secrets) (\<lambda>retyc.
          attempt (update_dataroom X retyc i None versioning) (update_error (unicode_lower X)) (\<lambda>_.
          State_Monad.return (Inr ())))))"

text \<open>\<open>None\<close> for a response that carries only the message, \<open>Some\<close> for a confirmation.\<close>

record validate_request =
  vv_id :: string
  vv_capabilities :: "volume_capability list"
  vv_context :: "string gomap"
  vv_parameters :: "string gomap"

definition validate_volume_capabilities ::
  "validate_request \<Rightarrow>
   status + (string gomap \<times> volume_capability list \<times> string gomap) option" where
  "validate_volume_capabilities req =
     (if vv_id req = [] then Inl (err InvalidArgument)
      else if \<not> list_all is_supported_capability (vv_capabilities req) then Inr None
      else Inr (Some (vv_context req, vv_capabilities req, vv_parameters req)))"

subsection \<open>Pure parts\<close>

lemma mutable_loop_result:
  "mutable_loop m v =
     (if \<forall>(k, x) \<in> set m. (k = versioning_parameter \<and> parse_bool x \<noteq> None) \<or>
           (k \<noteq> versioning_parameter \<and> has_prefix k kubernetes_parameter_prefix)
      then Inr (case map_of (rev m) versioning_parameter of None \<Rightarrow> v | Some x \<Rightarrow> parse_bool x)
      else Inl (err InvalidArgument))"
  by (induction m v rule: mutable_loop.induct)
    (auto simp: map_add_def split: option.splits)

text \<open>
  The VolumeAttributesClass parameters are read the same whatever order Go ranges over the map
  in: the same \<open>versioning\<close>, or the same refusal.
\<close>

lemma mutable_parameters_any_order:
  assumes "same_map m n"
  shows "parse_mutable_parameters m = parse_mutable_parameters n"
proof -
  have "map_of (rev m) = map_of m" "map_of (rev n) = map_of n"
    using assms by (auto simp: same_map_def intro!: same_map_of simp flip: rev_map)
  then show ?thesis
    using assms same_map_of [OF assms]
    by (simp add: parse_mutable_parameters_def mutable_loop_result same_map_def)
qed

theorem mutable_parameters_any_order_witness:
  "parse_mutable_parameters [(''csi.storage.k8s.io/pvc/name'', ''data''), (''versioning'', ''T'')]
   = parse_mutable_parameters [(''versioning'', ''T''), (''csi.storage.k8s.io/pvc/name'', ''data'')]"
  by (rule mutable_parameters_any_order) (auto simp: same_map_def)

text \<open>The reservations that meet a capacity range: no less than asked, no less than the API's floor,
  within the limit.\<close>

definition feasible :: "capacity_range option \<Rightarrow> int set" where
  "feasible r = {b. required_bytes r \<le> b \<and> min_dataroom_capacity \<le> b \<and>
     (0 < limit_bytes r \<longrightarrow> b \<le> limit_bytes r)}"

text \<open>
  C35. The reservation made for a capacity range is the least one that meets it, and the range is
  refused as OutOfRange exactly when none does.
\<close>

theorem reserved_bytes_least:
  assumes "0 \<le> required_bytes r" and "0 \<le> limit_bytes r"
    and "required_bytes r \<noteq> 0 \<or> limit_bytes r \<noteq> 0"
  shows "case reserved_bytes r of
      Inr c \<Rightarrow> c \<in> feasible r \<and> (\<forall>b \<in> feasible r. c \<le> b)
    | Inl e \<Rightarrow> e = err OutOfRange \<and> feasible r = {}"
  using assms by (auto simp: reserved_bytes_def feasible_def Let_def max_def)

theorem reserved_bytes_least_witness:
  "reserved_bytes (Some \<lparr>range_required = 5, range_limit = 20 * 2 ^ 30\<rparr>) = Inr (20 * 2 ^ 30)
   \<and> 20 * 2 ^ 30 \<in> feasible (Some \<lparr>range_required = 5, range_limit = 20 * 2 ^ 30\<rparr>)"
  using reserved_bytes_least [of "Some \<lparr>range_required = 5, range_limit = 20 * 2 ^ 30\<rparr>"]
  by (simp add: reserved_bytes_def required_bytes_def limit_bytes_def min_dataroom_capacity_def)

lemma reserved_bytes_range:
  "reserved_bytes r = Inr c \<Longrightarrow>
   required_bytes r \<le> c \<and> 0 \<le> c \<and> (0 < limit_bytes r \<longrightarrow> c \<le> limit_bytes r)"
  by (auto simp: reserved_bytes_def Let_def min_dataroom_capacity_def split: if_splits)

text \<open>The statuses of the kinds of an API error, as the comment of \<open>apiError\<close> lists them.\<close>

definition kind_statuses :: "(string \<times> status) list" where
  "kind_statuses =
     [(kind_plan_exceeded, err ResourceExhausted), (kind_storage_exceeded, err ResourceExhausted),
      (kind_capacity_shrink, err OutOfRange), (kind_capacity_too_small, err OutOfRange),
      (kind_invalid, err InvalidArgument),
      (kind_auth_required, (FailedPrecondition, RenewToken)),
      (kind_unauthenticated, (FailedPrecondition, RenewToken)),
      (kind_config, (FailedPrecondition, FixPassphrase)),
      (kind_cli_too_old, (FailedPrecondition, UpgradeDriver)),
      (kind_forbidden, err PermissionDenied), (kind_rate_limited, err Unavailable)]"

text \<open>
  C39. An error with a kind gets the status its kind is documented to have, whatever its message
  says and however the Unicode tables lower it; any other kind is Internal.
\<close>

theorem api_error_by_kind:
  assumes "ce_kind e \<noteq> []"
  shows "api_error tables (CLI e) =
    (case map_of kind_statuses (ce_kind e) of Some st \<Rightarrow> st | None \<Rightarrow> err Internal)"
  using assms by (simp add: api_error_def predicate_defs kind_statuses_def kind_defs)

theorem api_error_by_kind_witness:
  "api_error id (CLI \<lparr>ce_args = [], ce_message = ''not enough storage left'',
     ce_kind = ''cli_too_old'', ce_status = 426, ce_detail = []\<rparr>) = (FailedPrecondition, UpgradeDriver)"
  by (subst api_error_by_kind) (simp_all add: kind_statuses_def kind_defs)

subsection \<open>The CLI calls of an RPC\<close>

text \<open>
  The same program over a world that also records every run of the CLI: the client (its binary
  and environment) and the arguments.
\<close>

type_synonym call = "client \<times> string list"

definition lifted :: "('w, 'a) state \<Rightarrow> ('w \<times> call list, 'a) state" where
  "lifted m = State (\<lambda>(w, l). case run_state m w of (x, w') \<Rightarrow> (x, (w', l)))"

definition recorded :: "call \<Rightarrow> ('w, 'a) state \<Rightarrow> ('w \<times> call list, 'a) state" where
  "recorded c m = State (\<lambda>(w, l). case run_state m w of (x, w') \<Rightarrow> (x, (w', l @ [c])))"

definition logged :: "'w cli \<Rightarrow> ('w \<times> call list) cli" where
  "logged X =
     \<lparr>cli_exec = \<lambda>c args. recorded (c, args) (cli_exec X c args),
      json_whole = json_whole X, json_first = json_first X, json_create = json_create X,
      json_delete = json_delete X, json_page = json_page X, json_quota = json_quota X,
      json_auth = json_auth X, unicode_lower = unicode_lower X, go_range = go_range X\<rparr>"

definition logged_controller :: "'w controller \<Rightarrow> ('w \<times> call list) controller" where
  "logged_controller s =
     \<lparr>cs_retyc = cs_retyc s,
      cs_kube = map_option (\<lambda>get_claim ns n. lifted (get_claim ns n)) (cs_kube s)\<rparr>"

definition calls :: "('w \<times> call list, 'a) state \<Rightarrow> 'w \<Rightarrow> call list" where
  "calls m w = snd (snd (run_state m (w, [])))"

definition at_log :: "call list \<Rightarrow> 'w \<times> call list \<Rightarrow> bool" where
  "at_log l s \<longleftrightarrow> snd s = l"

lemma run_logged:
  "triple (at_log l) (run_cli (logged X) dec c args) (\<lambda>_. at_log (l @ [(c, ''--json'' # args)]))"
  by (auto simp: triple_def at_log_def run_cli_def logged_def recorded_def split: prod.splits)

lemma lifted_log: "triple (at_log l) (lifted m) (\<lambda>_. at_log l)"
  by (auto simp: triple_def at_log_def lifted_def split: prod.splits)

lemma triple_calls: "triple (at_log []) m Q \<Longrightarrow> \<exists>r w'. Q r (w', calls m w)"
  using tripleD [of "at_log []" m Q "(w, [])"]
  by (cases "run_state m (w, [])") (fastforce simp: calls_def at_log_def)

lemma keeps_calls: "keeps (\<lambda>s. list_all G (snd s)) m \<Longrightarrow> list_all G (calls m w)"
  using keepsD [of _ m "(w, [])"] by (fastforce simp: calls_def)

lemma keeps_lifted [wp]: "keeps (\<lambda>s. R (snd s)) (lifted m)"
  by (auto simp: keeps_def triple_def lifted_def split: prod.splits)

lemma keeps_run_logged:
  "G (c, ''--json'' # args) \<Longrightarrow> keeps (\<lambda>s. list_all G (snd s)) (run_cli (logged X) dec c args)"
  by (auto simp: keeps_def triple_def run_cli_def logged_def recorded_def split: prod.splits)

lemma check_claim_log:
  "triple (at_log l) (check_claim (logged_controller s) ns n) (\<lambda>_. at_log l)"
  unfolding check_claim_def logged_controller_def
  by (rule triple_guarded, assumption)
    (auto split: option.split sum.split intro!: triple_return triple_attempt [OF lifted_log])

lemma request_client_logged [simp]:
  "request_client (logged X) (logged_controller s) secrets = request_client X s secrets"
  by (simp add: request_client_def logged_def logged_controller_def split: sum.split option.split)

definition json_args :: "string list \<Rightarrow> string list" where
  "json_args args = ''--json'' # args"

definition ls_args :: "string list" where "ls_args = json_args [''dataroom'', ''ls'']"
definition quota_args :: "string list" where "quota_args = json_args [''user'', ''quota'']"

definition create_args :: "create_request \<Rightarrow> int \<Rightarrow> bool option \<Rightarrow> string list" where
  "create_args req capacity versioning =
     json_args ([''dataroom'', ''create'', ''--title'', cv_name req] @
       setting_args (if 0 < capacity then Some capacity else None) versioning)"

lemmas args_defs = json_args_def ls_args_def quota_args_def create_args_def

lemma provision_log:
  "triple (at_log l) (provision_dataroom (logged X) c req capacity versioning)
     (\<lambda>r s. at_log (l @ [(c, quota_args)]) s \<and> is_err r \<or>
        at_log (l @ [(c, quota_args), (c, create_args req capacity versioning)]) s)"
  unfolding provision_dataroom_def quota_def create_dataroom_def
  by (rule triple_attempt [OF run_logged], simp add: args_defs)
    (intro triple_guarded triple_attempt [OF run_logged] triple_return; simp add: args_defs)

definition outcome :: "('w \<times> call list, 'a) state \<Rightarrow> 'w \<Rightarrow> 'a" where
  "outcome m w = fst (run_state m (w, []))"

lemma triple_outcome: "triple (at_log []) m Q \<Longrightarrow> \<exists>w'. Q (outcome m w) (w', calls m w)"
  using tripleD [of "at_log []" m Q "(w, [])"]
  by (cases "run_state m (w, [])") (fastforce simp: outcome_def calls_def at_log_def)

definition valid_create :: "create_request \<Rightarrow> bool" where
  "valid_create req \<longleftrightarrow> cv_name req \<noteq> [] \<and> cv_capabilities req \<noteq> [] \<and>
     list_all is_supported_capability (cv_capabilities req) \<and>
     is_ok (check_parameters (cv_parameters req)) \<and>
     is_ok (parse_mutable_parameters (cv_mutable req)) \<and> is_ok (reserved_bytes (cv_range req))"

lemma list_log:
  "triple (at_log l) (list_datarooms (logged X) c) (\<lambda>_. at_log (l @ [(c, ls_args)]))"
  using run_logged by (simp add: list_datarooms_def args_defs)

text \<open>What the CLI may be asked for one CreateVolume that answers \<open>r\<close>.\<close>

definition create_trace ::
  "'w cli \<Rightarrow> 'w controller \<Rightarrow> create_request \<Rightarrow> status + volume \<Rightarrow> call list \<Rightarrow> bool" where
  "create_trace X s req r l \<longleftrightarrow>
     l = [] \<and> is_err r \<or>
     valid_create req \<and> (\<exists>c capacity versioning.
       request_client X s (cv_secrets req) = Inr c \<and>
       reserved_bytes (cv_range req) = Inr capacity \<and>
       parse_mutable_parameters (cv_mutable req) = Inr versioning \<and>
       (l = [(c, ls_args)] \<or>
        l = [(c, ls_args), (c, quota_args)] \<and> is_err r \<or>
        l = [(c, ls_args), (c, quota_args), (c, create_args req capacity versioning)]))"

lemma create_volume_triple:
  "triple (at_log []) (create_volume (logged X) (logged_controller s) req)
     (\<lambda>r t. create_trace X s req r (snd t))"
proof -
  have prov: "triple (at_log [(c, ls_args)])
      (provision_dataroom (logged X) c req capacity versioning)
      (\<lambda>r t. create_trace X s req r (snd t))"
    if "valid_create req" "request_client X s (cv_secrets req) = Inr c"
      "reserved_bytes (cv_range req) = Inr capacity"
      "parse_mutable_parameters (cv_mutable req) = Inr versioning" for c capacity versioning
    by (rule triple_weaken [OF provision_log [of "[(c, ls_args)]" X c req capacity versioning]])
      (use that in \<open>auto simp: at_log_def create_trace_def\<close>)
  show ?thesis
    unfolding create_volume_def
    by (intro triple_guarded triple_check triple_attempt [OF check_claim_log]
        triple_attempt [OF list_log])
      (auto simp: valid_create_def split: option.split intro!: triple_return prov,
        simp_all add: create_trace_def at_log_def valid_create_def)
qed

text \<open>
  C25. CreateVolume checks before it acts: a request that is refused by a check runs no command;
  otherwise the CLI is run, always as the request's own identity, to list the datarooms, then at
  most to read the quota, then at most once to create the dataroom with the validated settings.
\<close>

theorem create_volume_commands:
  "create_trace X s req
     (outcome (create_volume (logged X) (logged_controller s) req) w)
     (calls (create_volume (logged X) (logged_controller s) req) w)"
  using triple_outcome [OF create_volume_triple, of X s req w] by simp

subsection \<open>Identities\<close>

lemma keeps_check_claim [wp]:
  "keeps (\<lambda>t. R (snd t)) (check_claim (logged_controller s) ns n)"
  unfolding check_claim_def logged_controller_def
  by (intro keeps_guarded) (auto split: option.split sum.split intro!: keeps_attempt keeps_lifted)

definition runs_with :: "('client \<Rightarrow> bool) \<Rightarrow> 'w \<times> ('client \<times> string list) list \<Rightarrow> bool" where
  "runs_with G t \<longleftrightarrow> list_all (\<lambda>c. G (fst c)) (snd t)"

lemma keeps_cli: "G c \<Longrightarrow> keeps (runs_with G) (run_cli (logged X) dec c args)"
  unfolding runs_with_def by (rule keeps_run_logged) simp

lemma keeps_update:
  "G c \<Longrightarrow> keeps (runs_with G) (update_dataroom (logged X) c i capacity versioning)"
  by (simp add: update_dataroom_def Let_def keeps_cli)

lemma keeps_claim: "keeps (runs_with G) (check_claim (logged_controller s) ns n)"
  unfolding runs_with_def by (rule keeps_check_claim)

lemma keeps_rpcs:
  assumes "\<And>c. request_client X s secrets = Inr c \<Longrightarrow> G c" and "cv_secrets req = secrets"
  shows "keeps (runs_with G) (create_volume (logged X) (logged_controller s) req)"
    and "keeps (runs_with G) (delete_volume (logged X) (logged_controller s) i secrets)"
    and "keeps (runs_with G) (controller_expand_volume (logged X) (logged_controller s) i rng secrets)"
    and "keeps (runs_with G) (controller_modify_volume (logged X) (logged_controller s) i ps secrets)"
  using assms
  by (auto simp: create_volume_def provision_dataroom_def delete_volume_def
      controller_expand_volume_def controller_modify_volume_def list_datarooms_def quota_def
      create_dataroom_def delete_dataroom_def
      split: option.split intro!: keeps_guarded keeps_check keeps_attempt keeps_bind keeps_claim
      keeps_cli keeps_update)

lemma keeps_runs_with:
  assumes "keeps (runs_with G) m" and "c \<in> set (calls m w)"
  shows "G (fst c)"
  using assms keeps_calls [of "\<lambda>c. G (fst c)" m w]
  by (simp add: runs_with_def [abs_def] list_all_iff)

lemma with_env_identity:
  assumes "from_secrets secrets = Inr (Some creds)"
    and "same_map (go_range X (env_overrides creds)) (env_overrides creds)"
    and "request_client X s secrets = Inr c"
  shows "from_env (client_env c) = Some creds \<and> bin_path c = bin_path (cs_retyc s)"
  using assms from_secrets_complete [OF assms(1)]
  by (auto simp: request_client_def with_env_def from_merged_env)

text \<open>
  C2. No RPC ever runs the CLI as anybody else than the tenant of its secrets: whatever the
  request and the state of the cluster, every command of a CreateVolume, DeleteVolume,
  ControllerExpandVolume or ControllerModifyVolume runs the driver's binary in an environment whose
  identity is the one of the request's secrets.
\<close>

theorem controller_acts_as_tenant:
  assumes "from_secrets secrets = Inr (Some creds)"
    and "same_map (go_range X (env_overrides creds)) (env_overrides creds)"
    and "cv_secrets req = secrets"
    and "call \<in> set (calls (create_volume (logged X) (logged_controller s) req) w) \<union>
      set (calls (delete_volume (logged X) (logged_controller s) i secrets) w) \<union>
      set (calls (controller_expand_volume (logged X) (logged_controller s) i rng secrets) w) \<union>
      set (calls (controller_modify_volume (logged X) (logged_controller s) i ps secrets) w)"
  shows "from_env (client_env (fst call)) = Some creds \<and>
    bin_path (fst call) = bin_path (cs_retyc s)"
proof -
  let ?G = "\<lambda>c. from_env (client_env c) = Some creds \<and> bin_path c = bin_path (cs_retyc s)"
  note rpcs = keeps_rpcs [of X s secrets ?G, OF with_env_identity [OF assms(1,2)] assms(3)]
  have "?G (fst call)" if "keeps (runs_with ?G) m" "call \<in> set (calls m w)"
    for m :: "('a \<times> call list, status + volume) state"
    using that by (rule keeps_runs_with)
  moreover have "?G (fst call)" if "keeps (runs_with ?G) m" "call \<in> set (calls m w)"
    for m :: "('a \<times> call list, status + unit) state"
    using that by (rule keeps_runs_with)
  moreover have "?G (fst call)" if "keeps (runs_with ?G) m" "call \<in> set (calls m w)"
    for m :: "('a \<times> call list, status + expand_response) state"
    using that by (rule keeps_runs_with)
  ultimately show ?thesis using assms(4) rpcs by blast
qed

subsection \<open>The datarooms of the account\<close>

text \<open>
  What the CLI is documented to do with the datarooms \<open>rooms w\<close> of the account of a client: \<open>ls\<close>
  lists them all, \<open>user quota\<close> changes nothing, a \<open>create\<close> that succeeds adds one with the title
  and the reservation asked for, \<open>set\<close> changes the reservation of one or fails.
\<close>

definition ls_law :: "'w cli \<Rightarrow> client \<Rightarrow> ('w \<Rightarrow> dataroom list) \<Rightarrow> bool" where
  "ls_law X c rooms \<longleftrightarrow> (\<forall>w r w'. run_state (list_datarooms X c) w = (r, w') \<longrightarrow>
     rooms w' = rooms w \<and> (\<forall>l. r = Inr l \<longrightarrow> l = rooms w))"

definition quota_law :: "'w cli \<Rightarrow> client \<Rightarrow> ('w \<Rightarrow> dataroom list) \<Rightarrow> bool" where
  "quota_law X c rooms \<longleftrightarrow> (\<forall>w. rooms (snd (run_state (quota X c) w)) = rooms w)"

definition create_law ::
  "'w cli \<Rightarrow> client \<Rightarrow> ('w \<Rightarrow> dataroom list) \<Rightarrow> string \<Rightarrow> int option \<Rightarrow> bool option \<Rightarrow> bool" where
  "create_law X c rooms title capacity versioning \<longleftrightarrow>
     (\<forall>w r w'. run_state (create_dataroom X c title capacity versioning) w = (Inr r, w') \<longrightarrow>
        (\<exists>d. rooms w' = rooms w @ [d] \<and> dr_id d = cr_id r \<and> dr_title d = title \<and>
             dr_storage_capacity d = capacity))"

definition set_capacity :: "string \<Rightarrow> int \<Rightarrow> dataroom \<Rightarrow> dataroom" where
  "set_capacity i b d = (if dr_id d = i then d\<lparr>dr_storage_capacity := Some b\<rparr> else d)"

definition set_law :: "'w cli \<Rightarrow> client \<Rightarrow> ('w \<Rightarrow> dataroom list) \<Rightarrow> string \<Rightarrow> int \<Rightarrow> bool" where
  "set_law X c rooms i b \<longleftrightarrow>
     (\<forall>w r w'. run_state (update_dataroom X c i (Some b) None) w = (r, w') \<longrightarrow>
        rooms w' = map (set_capacity i b) (rooms w) \<or> is_err r \<and> rooms w' = rooms w)"

definition claim_law :: "'w controller \<Rightarrow> ('w \<Rightarrow> dataroom list) \<Rightarrow> bool" where
  "claim_law s rooms \<longleftrightarrow> (\<forall>g ns n w. cs_kube s = Some g \<longrightarrow>
     rooms (snd (run_state (g ns n) w)) = rooms w)"

lemma claim_law_check:
  "claim_law s rooms \<Longrightarrow> rooms (snd (run_state (check_claim s ns n) w)) = rooms w"
  by (auto simp: claim_law_def check_claim_def run_guarded run_attempt
      split: option.split prod.split sum.split) (metis snd_conv)+

text \<open>Past the checks, CreateVolume is the claim, the listing and what follows from it.\<close>

definition after_listing ::
  "'w cli \<Rightarrow> client \<Rightarrow> create_request \<Rightarrow> int \<Rightarrow> bool option \<Rightarrow> dataroom list \<Rightarrow>
   ('w, status + volume) state" where
  "after_listing X c req capacity versioning existing =
     (case find (\<lambda>dr. dr_title dr = cv_name req) existing of
        Some dr \<Rightarrow> State_Monad.return (reuse_dataroom req capacity dr)
      | None \<Rightarrow> provision_dataroom X c req capacity versioning)"

lemma create_volume_valid:
  assumes "valid_create req" and "request_client X s (cv_secrets req) = Inr c"
    and "parse_mutable_parameters (cv_mutable req) = Inr versioning"
    and "reserved_bytes (cv_range req) = Inr capacity"
  shows "run_state (create_volume X s req) w =
    run_state (attempt (check_claim s (lookup0 (cv_parameters req) pvc_namespace_parameter)
         (lookup0 (cv_parameters req) pvc_name_parameter)) id (\<lambda>_.
       attempt (list_datarooms X c) (api_error (unicode_lower X))
         (after_listing X c req capacity versioning))) w"
  using assms
  by (auto simp: create_volume_def valid_create_def is_ok_conv check_def guarded_def
      after_listing_def [abs_def])

lemma create_volume_Inr:
  assumes "run_state (create_volume X s req) w = (Inr v, w')"
  shows "valid_create req"
  using assms
  by (auto simp: create_volume_def valid_create_def run_check run_guarded
      split: if_splits sum.splits)

definition created :: "create_request \<Rightarrow> string \<Rightarrow> int \<Rightarrow> volume" where
  "created req i capacity = create_volume_response i capacity
     (lookup0 (cv_parameters req) pvc_name_parameter)
     (lookup0 (cv_parameters req) pvc_namespace_parameter)"

lemma provision_creates:
  assumes "quota_law X c rooms"
    and "create_law X c rooms (cv_name req) (if 0 < capacity then Some capacity else None) versioning"
    and "run_state (provision_dataroom X c req capacity versioning) w = (Inr v, w')"
  shows "\<exists>d. rooms w' = rooms w @ [d] \<and> dr_title d = cv_name req \<and>
    dr_storage_capacity d = (if 0 < capacity then Some capacity else None) \<and>
    v = created req (dr_id d) capacity"
proof -
  obtain q w1 res where q: "run_state (quota X c) w = (Inr q, w1)"
    and res: "run_state (create_dataroom X c (cv_name req)
        (if 0 < capacity then Some capacity else None) versioning) w1 = (Inr res, w')"
      "v = created req (cr_id res) capacity"
    using assms(3) unfolding provision_dataroom_def attempt_Inr guarded_Inr
    by (auto simp: created_def)
  have "rooms (snd (run_state (quota X c) w)) = rooms w"
    using assms(1) by (simp add: quota_law_def)
  then have "rooms w1 = rooms w" using q by simp
  moreover from assms(2) res(1) obtain d where "rooms w' = rooms w1 @ [d]" "dr_id d = cr_id res"
      "dr_title d = cv_name req" "dr_storage_capacity d = (if 0 < capacity then Some capacity else None)"
    unfolding create_law_def by blast
  ultimately show ?thesis using res(2) by auto
qed

lemma reuse_created:
  assumes "reserved_bytes (cv_range req) = Inr capacity"
    and "dr_storage_capacity d = (if 0 < capacity then Some capacity else None)"
  shows "reuse_dataroom req capacity d = Inr (created req (dr_id d) capacity)"
  using assms(2) reserved_bytes_range [OF assms(1)]
  by (auto simp: reuse_dataroom_def created_def Let_def)

text \<open>What a CreateVolume that succeeded leaves for a retry.\<close>

lemma create_volume_leaves:
  assumes c: "request_client X s (cv_secrets req) = Inr c"
    and v: "parse_mutable_parameters (cv_mutable req) = Inr versioning"
    and cap: "reserved_bytes (cv_range req) = Inr capacity"
    and laws: "ls_law X c rooms" "quota_law X c rooms" "claim_law s rooms"
      "create_law X c rooms (cv_name req) (if 0 < capacity then Some capacity else None) versioning"
    and run: "run_state (create_volume X s req) w = (Inr vol, w')"
  shows "\<exists>d. find (\<lambda>dr. dr_title dr = cv_name req) (rooms w') = Some d \<and>
    reuse_dataroom req capacity d = Inr vol"
proof -
  note valid = create_volume_Inr [OF run]
  note eq = create_volume_valid [OF valid c v cap, of w]
  obtain w1 where w1: "run_state (check_claim s (lookup0 (cv_parameters req) pvc_namespace_parameter)
      (lookup0 (cv_parameters req) pvc_name_parameter)) w = (Inr (), w1)"
    using run unfolding eq by (auto simp: run_attempt split: prod.splits sum.splits)
  obtain l w2 where l: "run_state (list_datarooms X c) w1 = (Inr l, w2)"
    using run w1 unfolding eq by (auto simp: run_attempt split: prod.splits sum.splits)
  have fin: "run_state (after_listing X c req capacity versioning l) w2 = (Inr vol, w')"
    using run w1 l unfolding eq by (simp add: run_attempt)
  have rooms: "l = rooms w2" using laws(1) l by (metis ls_law_def)
  show ?thesis
  proof (cases "find (\<lambda>dr. dr_title dr = cv_name req) l")
    case (Some d)
    then show ?thesis using fin rooms by (auto simp: after_listing_def)
  next
    case None
    then have "run_state (provision_dataroom X c req capacity versioning) w2 = (Inr vol, w')"
      using fin by (simp add: after_listing_def)
    from provision_creates [OF laws(2,4) this] None rooms reuse_created [OF cap]
    show ?thesis by (auto simp: find_append_case created_def)
  qed
qed

text \<open>
  C8. CreateVolume is idempotent: once it has answered a volume, a retry in any later state with
  the same datarooms creates nothing and answers the very same volume, unless the claim or the
  listing cannot be read, in which case it fails and still creates nothing.
\<close>

theorem create_volume_idempotent:
  assumes c: "request_client X s (cv_secrets req) = Inr c"
    and v: "parse_mutable_parameters (cv_mutable req) = Inr versioning"
    and cap: "reserved_bytes (cv_range req) = Inr capacity"
    and laws: "ls_law X c rooms" "quota_law X c rooms" "claim_law s rooms"
      "create_law X c rooms (cv_name req) (if 0 < capacity then Some capacity else None) versioning"
    and run: "run_state (create_volume X s req) w = (Inr vol, w1)"
    and later: "rooms w2 = rooms w1"
    and again: "run_state (create_volume X s req) w2 = (r, w3)"
    and claim: "run_state (check_claim s (lookup0 (cv_parameters req) pvc_namespace_parameter)
      (lookup0 (cv_parameters req) pvc_name_parameter)) w2 = (claim, w2')"
    and listing: "run_state (list_datarooms X c) w2' = (listing, w2'')"
  shows "rooms w3 = rooms w1 \<and>
    (if is_ok claim \<and> is_ok listing then r = Inr vol else is_err r)"
proof -
  note eq = create_volume_valid [OF create_volume_Inr [OF run] c v cap, of w2]
  obtain d where d: "find (\<lambda>dr. dr_title dr = cv_name req) (rooms w2) = Some d"
      "reuse_dataroom req capacity d = Inr vol"
    using create_volume_leaves [OF c v cap laws run] later by auto
  have w2': "rooms w2' = rooms w1"
    using claim_law_check [OF laws(3)] claim later by (metis snd_conv)
  have w2'': "rooms w2'' = rooms w1" "\<And>l. listing = Inr l \<Longrightarrow> l = rooms w2"
    using laws(1) listing w2' later by (auto simp: ls_law_def)
  show ?thesis
    using again d w2' w2'' claim listing unfolding eq
    by (auto simp: run_attempt after_listing_def split: sum.splits)
qed

text \<open>One dataroom before and after: the same one, its reservation not smaller.\<close>

definition not_shrunk :: "dataroom \<Rightarrow> dataroom \<Rightarrow> bool" where
  "not_shrunk d d' \<longleftrightarrow> dr_id d' = dr_id d \<and> dr_title d' = dr_title d \<and>
     (case dr_storage_capacity d of
        None \<Rightarrow> True
      | Some b \<Rightarrow> (case dr_storage_capacity d' of None \<Rightarrow> False | Some b' \<Rightarrow> b \<le> b'))"

lemma not_shrunk_refl [simp]: "not_shrunk d d"
  by (simp add: not_shrunk_def split: option.split)

lemma not_shrunk_set:
  assumes "find (\<lambda>dr. dr_id dr = i \<and>
      (case dr_storage_capacity dr of None \<Rightarrow> False | Some b \<Rightarrow> c \<le> b)) ds = None"
  shows "list_all2 not_shrunk ds (map (set_capacity i c) ds)"
  using assms
  by (auto simp: find_None_iff list_all2_conv_all_nth not_shrunk_def set_capacity_def
      split: option.split dest: nth_mem)

lemma set_capacity_listed:
  assumes "i \<in> dr_id ` set (map (set_capacity i c) ds)"
  shows "\<exists>d \<in> set (map (set_capacity i c) ds). dr_id d = i \<and> dr_storage_capacity d = Some c"
proof -
  obtain d where d: "d \<in> set ds" "dr_id (set_capacity i c d) = i" using assms by auto
  then have "dr_id d = i" by (simp add: set_capacity_def split: if_splits)
  then have "dr_storage_capacity (set_capacity i c d) = Some c" by (simp add: set_capacity_def)
  then show ?thesis using d by force
qed

text \<open>
  C18. ControllerExpandVolume never shrinks a reservation, whatever the sidecar asks for and whatever
  the reservation has become elsewhere; when it succeeds the size it answers covers the request
  and is the reservation the account then has.
\<close>

theorem expand_never_shrinks:
  assumes c: "request_client X s secrets = Inr c" and cap: "reserved_bytes rng = Inr capacity"
    and laws: "ls_law X c rooms" "set_law X c rooms i capacity"
    and run: "run_state (controller_expand_volume X s i rng secrets) w = (r, w')"
  shows "list_all2 not_shrunk (rooms w) (rooms w') \<and>
    (case r of Inl _ \<Rightarrow> True | Inr v \<Rightarrow>
       required_bytes rng \<le> ex_capacity v \<and>
       (i \<in> dr_id ` set (rooms w') \<longrightarrow>
          (\<exists>d \<in> set (rooms w'). dr_id d = i \<and> dr_storage_capacity d = Some (ex_capacity v))))"
proof (cases "i = [] \<or> required_bytes rng = 0")
  case True
  then show ?thesis
    using run by (auto simp: controller_expand_volume_def run_guarded list_all2_refl split: if_splits)
next
  case False
  let ?big = "\<lambda>dr. dr_id dr = i \<and>
      (case dr_storage_capacity dr of None \<Rightarrow> False | Some b \<Rightarrow> capacity \<le> b)"
  obtain l w1 where l: "run_state (list_datarooms X c) w = (l, w1)" by fastforce
  have w1: "rooms w1 = rooms w" "\<And>x. l = Inr x \<Longrightarrow> x = rooms w"
    using laws(1) l by (auto simp: ls_law_def)
  show ?thesis
  proof (cases "\<exists>x. l = Inr x \<and> find ?big x = None")
    case False
    have "w' = w1 \<and> (case r of Inl _ \<Rightarrow> True | Inr v \<Rightarrow>
        \<exists>d. find ?big (rooms w) = Some d \<and> ex_capacity v = the (dr_storage_capacity d))"
      using run l w1(2) False \<open>\<not> (i = [] \<or> required_bytes rng = 0)\<close>
      by (cases l) (auto simp: controller_expand_volume_def run_guarded run_check run_attempt c cap
          split: option.splits)
    then show ?thesis
      using reserved_bytes_range [OF cap] w1(1)
      by (force simp: list_all2_refl find_Some_iff split: sum.splits option.splits)
  next
    case True
    then have none: "find ?big (rooms w) = None" and l': "l = Inr (rooms w)" using w1 by auto
    obtain u w2 where u: "run_state (update_dataroom X c i (Some capacity) None) w1 = (u, w2)"
      by fastforce
    have w2: "rooms w2 = map (set_capacity i capacity) (rooms w) \<or> is_err u \<and> rooms w2 = rooms w"
      using laws(2) u w1 unfolding set_law_def by metis
    have "w' = w2 \<and> (case r of Inl _ \<Rightarrow> True | Inr v \<Rightarrow> ex_capacity v = capacity \<and> is_ok u)"
      using run l l' none u \<open>\<not> (i = [] \<or> required_bytes rng = 0)\<close>
      by (cases u) (auto simp: controller_expand_volume_def run_guarded run_check run_attempt c cap)
    moreover have "list_all2 not_shrunk (rooms w) (rooms w2)"
      using w2 not_shrunk_set [OF none] by (auto simp: list_all2_refl)
    moreover have "\<exists>d \<in> set (rooms w2). dr_id d = i \<and> dr_storage_capacity d = Some capacity"
      if "is_ok u" "i \<in> dr_id ` set (rooms w2)"
      using w2 that set_capacity_listed [of i capacity "rooms w"] by (cases u) simp_all
    ultimately show ?thesis
      using reserved_bytes_range [OF cap] by (cases r) simp_all
  qed
qed

text \<open>
  \<open>dataroom rm\<close>, as a process: whatever it answers, the datarooms are as they were or without the one
  named, so that a run that was cut off may have deleted it; when it exits with 0 it is gone. When it
  fails it reports an error object on stderr, and one that says the dataroom is missing means that the
  account does not hold it; or it dies without one, and then its text relays no 404.
\<close>

definition rm_args :: "string \<Rightarrow> string list" where
  "rm_args i = json_args [''dataroom'', ''rm'', dataroom_uri i, ''-y'']"

definition without :: "string \<Rightarrow> dataroom list \<Rightarrow> dataroom list" where
  "without i = filter (\<lambda>d. dr_id d \<noteq> i)"

definition rm_law :: "'w cli \<Rightarrow> client \<Rightarrow> ('w \<Rightarrow> dataroom list) \<Rightarrow> string \<Rightarrow> bool" where
  "rm_law X c rooms i \<longleftrightarrow>
     (\<forall>w out w'. run_state (cli_exec X c (rm_args i)) w = (out, w') \<longrightarrow>
        (rooms w' = rooms w \<or> rooms w' = without i (rooms w)) \<and>
        (case ex_err out of
           None \<Rightarrow> rooms w' = without i (rooms w)
         | Some exit \<Rightarrow>
             (\<exists>p. reports X (ex_stderr out) p \<and> (missing X p \<longrightarrow> i \<notin> dr_id ` set (rooms w))) \<or>
             no_report X (ex_stderr out) \<and> \<not> relays_404 X (plain_text (ex_stderr out) exit)))"

lemma without_absent: "i \<notin> dr_id ` set ds \<Longrightarrow> without i ds = ds"
  unfolding without_def by (rule filter_True) auto

text \<open>What one run of \<open>dataroom rm\<close> makes of a DeleteVolume.\<close>

lemma delete_volume_run:
  assumes c: "request_client X s secrets = Inr c" and i: "i \<noteq> []"
    and exec: "run_state (cli_exec X c (rm_args i)) w = (out, w1)"
    and run: "run_state (delete_volume X s i secrets) w = (r, w')"
  shows "w' = w1 \<and>
    (case ex_err out of
       None \<Rightarrow> is_ok r \<longleftrightarrow> json_delete X (ex_stdout out) \<noteq> None
     | Some exit \<Rightarrow>
         (\<forall>p. reports X (ex_stderr out) p \<longrightarrow> (is_ok r \<longleftrightarrow> missing X p)) \<and>
         (no_report X (ex_stderr out) \<longrightarrow>
            (is_ok r \<longleftrightarrow> relays_404 X (plain_text (ex_stderr out) exit))))"
proof -
  obtain q w2 where q: "run_state (delete_dataroom X c i) w = (q, w2)" by fastforce
  have r: "w' = w2 \<and> (is_ok r \<longleftrightarrow>
      (case q of Inl e \<Rightarrow> is_not_found (unicode_lower X) e | Inr _ \<Rightarrow> True))"
    using run q
    by (auto simp: delete_volume_def run_guarded run_check c i split: sum.splits if_splits)
  note exec' = exec [unfolded rm_args_def json_args_def]
  show ?thesis
  proof (cases "ex_err out")
    case None
    then show ?thesis
      using r q run_cli_exit_zero [OF exec' None, of "json_delete X"]
      by (auto simp: delete_dataroom_def is_not_found_def split: option.splits)
  next
    case (Some exit)
    then show ?thesis
      using r q run_cli_failed [OF exec' Some, of "json_delete X"]
      by (auto simp: delete_dataroom_def)
  qed
qed

text \<open>
  C9. DeleteVolume is idempotent and never reports a volume deleted while its dataroom remains. When it
  succeeds exactly the dataroom of the volume is gone; when it fails that dataroom may be gone or not,
  as the CLI may be cut off after the deletion, and every other one is there, so that the retry is safe.
  When the CLI fails with an error object, DeleteVolume succeeds exactly when the object says that the
  dataroom is missing (\<open>not_found\<close>, \<open>gone\<close>, or the relayed 404 of a CLI without kinds): a volume deleted
  before is deleted again without an error, and no other failure passes for it.
\<close>

theorem delete_volume_idempotent:
  assumes c: "request_client X s secrets = Inr c" and i: "i \<noteq> []" and law: "rm_law X c rooms i"
    and exec: "run_state (cli_exec X c (rm_args i)) w = (out, w1)"
    and run: "run_state (delete_volume X s i secrets) w = (r, w')"
  shows "(if is_ok r then rooms w' = without i (rooms w)
     else rooms w' = rooms w \<or> rooms w' = without i (rooms w)) \<and>
    (\<forall>p. ex_err out \<noteq> None \<and> reports X (ex_stderr out) p \<longrightarrow> (is_ok r \<longleftrightarrow> missing X p))"
proof (cases "ex_err out")
  case None
  then show ?thesis
    using delete_volume_run [OF c i exec run] law [unfolded rm_law_def, rule_format, OF exec] by auto
next
  case (Some exit)
  then show ?thesis
    using delete_volume_run [OF c i exec run] law [unfolded rm_law_def, rule_format, OF exec]
      without_absent [of i "rooms w"] by auto
qed

subsection \<open>A concrete account\<close>

text \<open>
  An account that can hold one dataroom, for the witnesses: its state is the reservation of that
  dataroom, if it exists, and the CLI answers exactly the commands the driver sends for it.
\<close>

definition demo_room :: "int \<Rightarrow> dataroom" where
  "demo_room b = \<lparr>dr_id = ''d1'', dr_title = ''pvc-1'', dr_created_at = 0,
     dr_storage_capacity = Some b, dr_versioning_enabled = None\<rparr>"

definition demo_rooms :: "nat option \<Rightarrow> dataroom list" where
  "demo_rooms w = (case w of None \<Rightarrow> [] | Some b \<Rightarrow> [demo_room (int b)])"

definition demo_range :: "capacity_range option" where
  "demo_range = Some \<lparr>range_required = 30 * 2 ^ 30, range_limit = 0\<rparr>"

definition demo_secrets :: "string gomap" where
  "demo_secrets = [(token_key, ''t''), (passphrase_key, ''p'')]"

definition demo_request :: create_request where
  "demo_request =
     \<lparr>cv_name = ''pvc-1'', cv_capabilities = [\<lparr>cap_block = False, cap_mode = SingleNodeWriter\<rparr>],
      cv_parameters = [(pvc_name_parameter, ''data''), (pvc_namespace_parameter, ''default'')],
      cv_mutable = [], cv_range = demo_range, cv_secrets = demo_secrets\<rparr>"

definition demo_answer :: "string \<Rightarrow> exec_result" where
  "demo_answer out = \<lparr>ex_stdout = out, ex_stderr = [], ex_err = None\<rparr>"

definition demo_failure :: exec_result where
  "demo_failure = \<lparr>ex_stdout = [], ex_stderr = ''{}'', ex_err = Some ''exit status 1''\<rparr>"

definition set_args :: "string \<Rightarrow> int \<Rightarrow> string list" where
  "set_args i b =
     json_args ([''dataroom'', ''set'', dataroom_uri i] @ setting_args (Some b) None @ [''-y''])"

definition demo_exec :: "client \<Rightarrow> string list \<Rightarrow> (nat option, exec_result) state" where
  "demo_exec c args = State (\<lambda>w.
     if args = ls_args then (demo_answer (case w of None \<Rightarrow> [] | Some b \<Rightarrow> show_nat b), w)
     else if args = quota_args then (demo_answer [], w)
     else if args = create_args demo_request (30 * 2 ^ 30) None \<and> w = None
       then (demo_answer [], Some (30 * 2 ^ 30))
     else if args = set_args ''d1'' (30 * 2 ^ 30) \<and> w \<noteq> None
       then (demo_answer [], Some (30 * 2 ^ 30))
     else if args = rm_args ''d1'' \<and> w \<noteq> None then (demo_answer [], None)
     else (demo_failure, w))"

definition demo_cli :: "nat option cli" where
  "demo_cli =
     \<lparr>cli_exec = demo_exec,
      json_whole = \<lambda>_. Some \<lparr>se_error = ''no such dataroom'', se_kind = kind_not_found,
        se_status = 404, se_detail = []\<rparr>,
      json_first = \<lambda>_. Some \<lparr>se_error = ''no such dataroom'', se_kind = kind_not_found,
        se_status = 404, se_detail = []\<rparr>,
      json_create = \<lambda>_. Some \<lparr>cr_id = ''d1'', cr_title = ''pvc-1''\<rparr>,
      json_delete = \<lambda>_. Some \<lparr>del_dataroom_id = ''d1'', del_uri = ''retyc://d1'', del_count = 1\<rparr>,
      json_page = \<lambda>s. Some (if s = [] then [] else [demo_room (int (read_nat s))]),
      json_quota = \<lambda>_. Some \<lparr>count_share = 0, max_count_share = None, count_dataroom = 0,
        max_count_dataroom = None, used_storage = 0, max_storage = 0, is_upload_read_only = False\<rparr>,
      json_auth = \<lambda>_. None, unicode_lower = id, go_range = id\<rparr>"

definition demo_controller :: "nat option controller" where
  "demo_controller =
     \<lparr>cs_retyc = new_client ''retyc'' [''RETYC_TOKEN=default''],
      cs_kube = Some (\<lambda>_ _. State_Monad.return (Inr [annotation_uid \<mapsto> ''7'']))\<rparr>"

definition demo_client :: client where
  "demo_client =
     with_env (cs_retyc demo_controller) (env_overrides \<lparr>token = ''t'', passphrase = ''p''\<rparr>)"

lemma demo_identity:
  "from_secrets demo_secrets = Inr (Some \<lparr>token = ''t'', passphrase = ''p''\<rparr>)"
  by (simp add: from_secrets_def demo_secrets_def lookup0_def token_key_def passphrase_key_def)

lemma demo_request_client: "request_client demo_cli demo_controller demo_secrets = Inr demo_client"
  by (simp add: request_client_def demo_identity demo_client_def demo_cli_def)

lemma demo_reserved: "reserved_bytes demo_range = Inr (30 * 2 ^ 30)"
  by (simp add: reserved_bytes_def demo_range_def required_bytes_def limit_bytes_def
      min_dataroom_capacity_def)

lemma demo_args_distinct:
  "ls_args \<noteq> quota_args" "create_args r b v \<noteq> ls_args" "create_args r b v \<noteq> quota_args"
  "set_args i b \<noteq> ls_args" "set_args i b \<noteq> quota_args" "set_args i b \<noteq> create_args r b' v"
  "rm_args i \<noteq> ls_args" "rm_args i \<noteq> quota_args" "rm_args i \<noteq> create_args r b v"
  "rm_args i \<noteq> set_args i' b"
  by (simp_all add: args_defs set_args_def rm_args_def)

lemma demo_reports:
  "reports demo_cli ''{}'' \<lparr>se_error = ''no such dataroom'', se_kind = kind_not_found,
     se_status = 404, se_detail = []\<rparr>"
  unfolding reports_def
  by (intro conjI exI [of _ "[]"]) (simp_all add: demo_cli_def)

lemma demo_run:
  "run_state (run_cli demo_cli dec c args) w =
     (case run_state (demo_exec c (json_args args)) w of (r, w') \<Rightarrow>
        (case ex_err r of
           Some e \<Rightarrow> Inl (CLI \<lparr>ce_args = args, ce_message = ''no such dataroom'',
             ce_kind = kind_not_found, ce_status = 404, ce_detail = []\<rparr>)
         | None \<Rightarrow> (case dec (ex_stdout r) of None \<Rightarrow> Inl (Decode args) | Some x \<Rightarrow> Inr x), w'))"
proof -
  note parse_reported [OF demo_reports]
  moreover have "cli_exec demo_cli = demo_exec" by (simp add: demo_cli_def)
  ultimately show ?thesis
    by (simp add: run_cli_def json_args_def demo_exec_def demo_answer_def demo_failure_def
        split: option.split prod.split)
qed

lemma demo_json:
  "json_page demo_cli = (\<lambda>s. Some (if s = [] then [] else [demo_room (int (read_nat s))]))"
  "json_create demo_cli = (\<lambda>_. Some \<lparr>cr_id = ''d1'', cr_title = ''pvc-1''\<rparr>)"
  "json_delete demo_cli = (\<lambda>_. Some \<lparr>del_dataroom_id = ''d1'', del_uri = ''retyc://d1'', del_count = 1\<rparr>)"
  "unicode_lower demo_cli = id"
  by (simp_all add: demo_cli_def)

lemma demo_ls: "run_state (list_datarooms demo_cli c) w = (Inr (demo_rooms w), w)"
  by (cases w) (simp_all add: list_datarooms_def demo_run demo_exec_def demo_answer_def
      demo_json demo_rooms_def flip: ls_args_def)

lemma demo_not_found: "ce_kind e = kind_not_found \<Longrightarrow> is_not_found tables (CLI e)"
  by (simp add: is_not_found_def kind_not_found_def)

lemma demo_quota:
  "snd (run_state (quota demo_cli c) w) = w"
  by (simp add: quota_def demo_run demo_exec_def demo_answer_def demo_args_distinct
      split: prod.split flip: quota_args_def)

lemma demo_laws:
  "ls_law demo_cli c demo_rooms" "quota_law demo_cli c demo_rooms"
  "claim_law demo_controller demo_rooms"
  by (simp_all add: ls_law_def quota_law_def claim_law_def demo_ls demo_quota demo_controller_def)

lemma demo_create_law:
  "create_law demo_cli c demo_rooms ''pvc-1'' (Some (30 * 2 ^ 30)) None"
proof -
  have a: "json_args ([''dataroom'', ''create'', ''--title'', ''pvc-1''] @
      setting_args (Some (30 * 2 ^ 30)) None) = create_args demo_request (30 * 2 ^ 30) None"
    by (simp add: create_args_def demo_request_def)
  show ?thesis
    unfolding create_law_def create_dataroom_def demo_run a
    by (auto simp: demo_exec_def demo_args_distinct
      demo_args_distinct [symmetric] demo_answer_def demo_failure_def demo_json
        demo_rooms_def demo_room_def split: if_splits)
qed

lemma demo_set_law: "set_law demo_cli c demo_rooms ''d1'' (30 * 2 ^ 30)"
proof -
  have "json_args ([''dataroom'', ''set'', dataroom_uri ''d1''] @
      setting_args (Some (30 * 2 ^ 30)) None @ [''-y'']) = set_args ''d1'' (30 * 2 ^ 30)"
    by (simp add: set_args_def)
  moreover have "setting_args (Some (30 * 2 ^ 30)) None \<noteq> []" by (simp add: setting_args_def)
  ultimately show ?thesis
    by (auto simp: set_law_def update_dataroom_def demo_run demo_exec_def demo_args_distinct
        demo_answer_def demo_failure_def demo_rooms_def demo_room_def set_capacity_def Let_def
        simp del: append.simps split: if_splits)
qed

lemma demo_rm:
  "run_state (cli_exec demo_cli c (rm_args ''d1'')) w =
     (if w = None then demo_failure else demo_answer [], None)"
  using demo_args_distinct by (simp add: demo_cli_def demo_exec_def)

lemma demo_rm_law: "rm_law demo_cli c demo_rooms ''d1''"
  using demo_reports
  by (auto simp: rm_law_def demo_rm demo_answer_def demo_failure_def demo_rooms_def demo_room_def
      without_def intro!: exI split: if_splits option.splits)

lemma demo_valid: "valid_create demo_request"
  by (simp add: valid_create_def demo_request_def is_supported_capability_def demo_reserved
      parse_mutable_parameters_def has_prefix_def pvc_name_parameter_def pvc_namespace_parameter_def)

lemma demo_check_claim:
  "run_state (check_claim demo_controller (lookup0 (cv_parameters demo_request) pvc_namespace_parameter)
     (lookup0 (cv_parameters demo_request) pvc_name_parameter)) w = (Inr (), w)"
proof -
  have "parse_uint ''7'' 32 = Some 7"
    by (simp add: parse_uint_def is_digit_def read_nat_def digit_val_def)
  then have "claim_owner [annotation_uid \<mapsto> ''7''] = Inr (7, 7)"
    by (simp add: claim_owner_def parse_id_def annotation_defs)
  then show ?thesis
    by (simp add: check_claim_def run_guarded run_attempt demo_controller_def demo_request_def
        lookup0_def pvc_name_parameter_def pvc_namespace_parameter_def)
qed

lemma demo_parsed:
  "request_client demo_cli demo_controller (cv_secrets demo_request) = Inr demo_client"
  "parse_mutable_parameters (cv_mutable demo_request) = Inr None"
  "reserved_bytes (cv_range demo_request) = Inr (30 * 2 ^ 30)"
  using demo_request_client demo_reserved
  by (simp_all add: demo_request_def parse_mutable_parameters_def)

lemma demo_created:
  "run_state (create_volume demo_cli demo_controller demo_request) None
   = (Inr (created demo_request ''d1'' (30 * 2 ^ 30)), Some (30 * 2 ^ 30))"
proof -
  have "json_args ([''dataroom'', ''create'', ''--title'', cv_name demo_request] @
      setting_args (Some (30 * 2 ^ 30)) None) = create_args demo_request (30 * 2 ^ 30) None"
    by (simp add: create_args_def)
  then have "run_state (create_dataroom demo_cli c (cv_name demo_request) (Some (30 * 2 ^ 30)) None) None
      = (Inr \<lparr>cr_id = ''d1'', cr_title = ''pvc-1''\<rparr>, Some (30 * 2 ^ 30))" for c
    by (simp add: create_dataroom_def demo_run demo_exec_def demo_args_distinct demo_answer_def
        demo_json del: append.simps)
  moreover have "run_state (quota demo_cli c) None = (Inr \<lparr>count_share = 0, max_count_share = None,
      count_dataroom = 0, max_count_dataroom = None, used_storage = 0, max_storage = 0,
      is_upload_read_only = False\<rparr>, None)" for c
    by (simp add: quota_def demo_run demo_exec_def demo_args_distinct demo_answer_def
        flip: quota_args_def) (simp add: demo_cli_def)
  ultimately have "run_state (provision_dataroom demo_cli c demo_request (30 * 2 ^ 30) None) None
      = (Inr (created demo_request ''d1'' (30 * 2 ^ 30)), Some (30 * 2 ^ 30))" for c
    by (simp add: provision_dataroom_def run_attempt run_guarded has_dataroom_quota_def created_def)
  then show ?thesis
    by (simp add: create_volume_valid [OF demo_valid demo_parsed] run_attempt demo_check_claim
        demo_ls demo_rooms_def after_listing_def)
qed

theorem create_volume_idempotent_witness:
  "fst (run_state (create_volume demo_cli demo_controller demo_request) (Some (30 * 2 ^ 30)))
   = Inr (created demo_request ''d1'' (30 * 2 ^ 30))"
proof -
  obtain r w3 where r: "run_state (create_volume demo_cli demo_controller demo_request)
      (Some (30 * 2 ^ 30)) = (r, w3)" by fastforce
  have law: "create_law demo_cli demo_client demo_rooms (cv_name demo_request)
      (if 0 < (30 * 2 ^ 30 :: int) then Some (30 * 2 ^ 30) else None) None"
    using demo_create_law by (simp add: demo_request_def)
  from create_volume_idempotent [OF demo_parsed demo_laws law demo_created refl r
      demo_check_claim demo_ls]
  show ?thesis using r by simp
qed

theorem expand_never_shrinks_witness:
  "list_all2 not_shrunk (demo_rooms (Some (20 * 2 ^ 30)))
     (demo_rooms (snd (run_state (controller_expand_volume demo_cli demo_controller ''d1'' demo_range
       demo_secrets) (Some (20 * 2 ^ 30)))))"
  using expand_never_shrinks [OF demo_request_client demo_reserved demo_laws(1) demo_set_law
      surjective_pairing, of "Some (20 * 2 ^ 30)"] by (rule conjunct1)

theorem delete_volume_idempotent_witness:
  "is_ok (fst (run_state (delete_volume demo_cli demo_controller ''d1'' demo_secrets) None)) \<and>
   demo_rooms (snd (run_state (delete_volume demo_cli demo_controller ''d1'' demo_secrets) (Some 7)))
     \<in> {[], demo_rooms (Some 7)}"
proof -
  have i: "''d1'' \<noteq> []" by simp
  note deleted = delete_volume_idempotent [OF demo_request_client i demo_rm_law demo_rm surjective_pairing]
  from deleted [of None] deleted [of "Some 7"] demo_reports show ?thesis
    by (auto simp: demo_failure_def demo_rooms_def demo_room_def without_def missing_def kind_not_found_def
        split: if_splits)
qed

lemma demo_delete_calls:
  "calls (delete_volume (logged demo_cli) (logged_controller demo_controller) ''d1'' demo_secrets) w
   = [(demo_client, rm_args ''d1'')]"
proof -
  have "at_log ([] @ [(demo_client, rm_args ''d1'')])
      (snd (run_state (delete_dataroom (logged demo_cli) demo_client ''d1'') (w, [])))"
    unfolding delete_dataroom_def rm_args_def json_args_def
    by (rule tripleD [OF run_logged _ surjective_pairing]) (simp add: at_log_def)
  then show ?thesis
    by (auto simp: calls_def delete_volume_def run_guarded run_check demo_request_client at_log_def
        split: prod.splits)
qed

theorem controller_acts_as_tenant_witness:
  "calls (delete_volume (logged demo_cli) (logged_controller demo_controller) ''d1'' demo_secrets) None
     = [(demo_client, rm_args ''d1'')] \<and>
   from_env (client_env demo_client) = Some \<lparr>token = ''t'', passphrase = ''p''\<rparr>"
proof -
  have "same_map (go_range demo_cli (env_overrides \<lparr>token = ''t'', passphrase = ''p''\<rparr>))
      (env_overrides \<lparr>token = ''t'', passphrase = ''p''\<rparr>)"
    by (simp add: demo_cli_def same_map_def env_overrides_def token_key_def passphrase_key_def)
  from controller_acts_as_tenant [OF demo_identity this, of demo_request
      "(demo_client, rm_args ''d1'')" demo_controller None "''d1''"]
  show ?thesis by (simp add: demo_delete_calls demo_request_def)
qed

end
