(* ===== verification/Per_Volume.thy ===== *)
theory Per_Volume
  imports Main
begin

text \<open>
  The interface of a state kept per volume, which several components rely on: an operation on a
  volume reads and writes the entry of that volume only. What a client may conclude is proved
  once here: the entry of a volume is decided by the operations on that volume, whatever happens
  to the others in between, and a property of an entry that the volume's own operations keep lasts.
\<close>

definition run_ops :: "('v \<Rightarrow> 'o \<Rightarrow> 's \<Rightarrow> 's) \<Rightarrow> ('v \<times> 'o) list \<Rightarrow> 's \<Rightarrow> 's" where
  "run_ops step ops s = foldl (\<lambda>t (v, x). step v x t) s ops"

lemma run_ops_simps [simp]:
  "run_ops step [] s = s"
  "run_ops step ((v, x) # ops) s = run_ops step ops (step v x s)"
  "run_ops step (ops @ ops') s = run_ops step ops' (run_ops step ops s)"
  by (simp_all add: run_ops_def)

definition own :: "'v \<Rightarrow> ('v \<times> 'o) list \<Rightarrow> ('v \<times> 'o) list" where
  "own v ops = filter (\<lambda>(u, _). u = v) ops"

text \<open>
  The frame alone, for operations that also depend on the world: what an operation on a volume leaves of
  the others', in a context \<open>c\<close> that keeps the law \<open>law\<close> for the volume of the operation.
\<close>

locale volume_frame =
  fixes law :: "'c \<Rightarrow> 'v \<Rightarrow> bool" and step :: "'c \<Rightarrow> 'v \<Rightarrow> 'o \<Rightarrow> 's \<Rightarrow> 's" and view :: "'s \<Rightarrow> 'v \<Rightarrow> 'e"
  assumes frame: "law c v \<Longrightarrow> v \<noteq> u \<Longrightarrow> view (step c v x s) u = view s u"
begin

lemma others_leave:
  "\<forall>u \<in> fst ` set ops. law c u \<Longrightarrow> v \<notin> fst ` set ops \<Longrightarrow> view (run_ops (step c) ops s) v = view s v"
proof (induction ops arbitrary: s)
  case (Cons p ops)
  have "law c (fst p)" "fst p \<noteq> v" using Cons.prems by auto
  then have "view (step c (fst p) (snd p) s) v = view s v" by (rule frame)
  then show ?case using Cons by (cases p) simp
qed simp

end

locale per_volume =
  fixes step :: "'v \<Rightarrow> 'o \<Rightarrow> 's \<Rightarrow> 's" and view :: "'s \<Rightarrow> 'v \<Rightarrow> 'e option"
  assumes frame: "v \<noteq> u \<Longrightarrow> view (step v x s) u = view s u"
    and reads_own: "view s v = view t v \<Longrightarrow> view (step v x s) v = view (step v x t) v"
begin

lemma own_ops_decide:
  "view s v = view t v \<Longrightarrow> view (run_ops step ops s) v = view (run_ops step (own v ops) t) v"
proof (induction ops arbitrary: s t)
  case (Cons p ops)
  obtain u x where p: "p = (u, x)" by (cases p)
  show ?case
  proof (cases "u = v")
    case True
    then show ?thesis
      using Cons.IH [OF reads_own [OF Cons.prems], of x] p by (simp add: own_def)
  next
    case False
    then have "view (step u x s) v = view t v" using Cons.prems frame by simp
    then show ?thesis using Cons.IH p False by (simp add: own_def)
  qed
qed (simp add: own_def)

end

sublocale per_volume \<subseteq> all: volume_frame "\<lambda>(_ :: unit) _. True" "\<lambda>_. step" view
  by unfold_locales (rule frame)

text \<open>
  A mark that only the operations \<open>lifts c\<close> remove from an entry of the configuration \<open>c\<close>.
\<close>

locale lasting_mark = per_volume step view
  for step :: "'v \<Rightarrow> 'o \<Rightarrow> 's \<Rightarrow> 's" and view :: "'s \<Rightarrow> 'v \<Rightarrow> 'e option" +
  fixes marked :: "'c \<Rightarrow> 'e \<Rightarrow> bool" and lifts :: "'c \<Rightarrow> 'o \<Rightarrow> bool"
  assumes kept: "view s v = Some e \<Longrightarrow> marked c e \<Longrightarrow> \<not> lifts c x \<Longrightarrow>
    \<exists>e'. view (step v x s) v = Some e' \<and> marked c e'"
begin

lemma mark_lasts:
  assumes "view s v = Some e" and "marked c e"
    and "\<And>x. (v, x) \<in> set ops \<Longrightarrow> \<not> lifts c x"
  shows "\<exists>e'. view (run_ops step ops s) v = Some e' \<and> marked c e'"
  using assms
proof (induction ops arbitrary: s e)
  case (Cons p ops)
  obtain u x where p: "p = (u, x)" by (cases p)
  have "\<exists>e'. view (step u x s) v = Some e' \<and> marked c e'"
  proof (cases "u = v")
    case True
    then show ?thesis using Cons.prems p kept by simp
  next
    case False
    then show ?thesis using Cons.prems frame [OF False] by simp
  qed
  then show ?case using Cons.IH Cons.prems(3) p by fastforce
qed simp

end

end
