(* ===== verification/Backoff.thy ===== *)
theory Backoff
  imports Go_Strings Per_Volume "HOL-Library.Signed_Division"
begin

text \<open>
  The restart policy of the mount pods (internal/mountpod/backoff.go): what the exit codes of
  \<open>retyc fs mount\<close> mean, and the restart state of every volume, a map kept by the \<open>Manager\<close>. A
  \<open>time.Time\<close> is the nanoseconds since the zero time, a \<open>time.Duration\<close> a number of nanoseconds whose
  64-bit wrap-around is written out where the code multiplies. The lock \<open>m.mu\<close> makes every operation
  one step; the clock and the source of the jitter are arguments.

  The lemmas show the closed form of the delay, the counters as a summary of the exits since the last
  fresh start (a refinement), and what makes a give-up last.
\<close>

definition seconds :: "int \<Rightarrow> int" where
  "seconds n = n * 10 ^ 9"

text \<open>Two's complement on 64 bits.\<close>

definition wrap64 :: "int \<Rightarrow> int" where
  "wrap64 x = (x + 2 ^ 63) mod 2 ^ 64 - 2 ^ 63"

lemma wrap64_id [simp]: "- (2 ^ 63) \<le> x \<Longrightarrow> x < 2 ^ 63 \<Longrightarrow> wrap64 x = x"
  by (simp add: wrap64_def)

definition zero_time :: int where "zero_time = 0"

subsection \<open>Exit codes\<close>

definition exit_failed :: int where "exit_failed = 1"
definition exit_writes_lost :: int where "exit_writes_lost = 75"
definition exit_auth_required :: int where "exit_auth_required = 77"
definition exit_config :: int where "exit_config = 78"

lemmas exit_defs = exit_failed_def exit_writes_lost_def exit_auth_required_def exit_config_def

definition exit_meaning :: "int \<Rightarrow> string" where
  "exit_meaning code =
     (if code = exit_failed then ''error''
      else if code = exit_writes_lost
        then ''writes lost: files being written could not be sent to the Retyc API''
      else if code = exit_auth_required
        then ''authentication required: RETYC_TOKEN is missing, expired or revoked''
      else if code = exit_config then ''key passphrase missing or wrong''
      else [])"

text \<open>The part of a \<open>State\<close> (manager.go) that says how a pod ended.\<close>

record exit_state =
  exit_code :: "int option"
  exit_reason :: string
  exit_message :: string
  st_was_ready :: bool

definition lost_writes_text :: "string list" where
  "lost_writes_text =
     [''before the filesystem was unmounted'', ''abandoned (no drain timeout)'',
      ''what they held is lost'']"

definition lost_writes_reported :: "string \<Rightarrow> bool" where
  "lost_writes_reported message =
     (if list_ex (contains message) lost_writes_text then True
      else contains message ''drain over after'' \<and> contains message '' not sent'')"

definition lost_writes :: "'a exit_state_scheme \<Rightarrow> bool" where
  "lost_writes st =
     (case exit_code st of
        None \<Rightarrow> False
      | Some code \<Rightarrow>
          if code = exit_writes_lost then True
          else if code = exit_failed \<or> code = exit_auth_required
            then lost_writes_reported (exit_message st)
          else False)"

definition exit_label :: "'a exit_state_scheme \<Rightarrow> string" where
  "exit_label st =
     (case exit_code st of
        None \<Rightarrow> []
      | Some code \<Rightarrow>
          if code = exit_auth_required \<and> lost_writes st
            then exit_meaning exit_auth_required @ ''; '' @ exit_meaning exit_writes_lost
          else if lost_writes st then exit_meaning exit_writes_lost
          else if code = exit_failed \<and> \<not> st_was_ready st
            then ''failed before it was ready, nothing written''
          else if code = exit_failed then ''failed after it was ready, no lost writes reported''
          else exit_meaning code)"

definition is_fatal :: "int \<Rightarrow> bool" where
  "is_fatal code \<longleftrightarrow> code = exit_auth_required \<or> code = exit_config"

subsection \<open>The delay\<close>

text \<open>The loop, \<open>k\<close> iterations left by its counter.\<close>

fun delay_loop :: "int \<Rightarrow> int \<Rightarrow> nat \<Rightarrow> int" where
  "delay_loop delay max_delay 0 = delay"
| "delay_loop delay max_delay (Suc k) =
     (if delay < max_delay then delay_loop (wrap64 (delay * 2)) max_delay k else delay)"

definition restart_delay :: "int \<Rightarrow> int \<Rightarrow> int \<Rightarrow> int" where
  "restart_delay base max_delay consecutive =
     min (delay_loop base max_delay (nat (consecutive - 1))) max_delay"

subsection \<open>The restart state of the volumes\<close>

record backoff =
  consecutive_failures :: int
  fatal_exits :: int
  last_exit_code :: int
  last_exit_message :: string
  next_restart :: int
  gave_up :: bool

definition no_backoff :: backoff where
  "no_backoff = \<lparr>consecutive_failures = 0, fatal_exits = 0, last_exit_code = 0,
     last_exit_message = [], next_restart = zero_time, gave_up = False\<rparr>"

record backoff_entry =
  entry_backoff :: backoff
  entry_hash :: string
  last_pod :: string
  entry_staging :: string

type_synonym backoffs = "string \<rightharpoonup> backoff_entry"

record restart_config =
  restart_backoff :: int
  max_restart_backoff :: int
  stable_after :: int
  max_fatal_exits :: int

definition fresh_entry :: "string \<Rightarrow> backoff_entry" where
  "fresh_entry hash =
     \<lparr>entry_backoff = no_backoff, entry_hash = hash, last_pod = [], entry_staging = []\<rparr>"

definition backoff_for :: "string \<Rightarrow> string \<Rightarrow> backoffs \<Rightarrow> backoff_entry \<times> backoffs" where
  "backoff_for volume hash m =
     (case m volume of
        Some e \<Rightarrow> if entry_hash e \<noteq> hash then (fresh_entry hash, m(volume \<mapsto> fresh_entry hash)) else (e, m)
      | None \<Rightarrow> (fresh_entry hash, m(volume \<mapsto> fresh_entry hash)))"

text \<open>The counters of an entry once an exit is counted, before the next restart is set.\<close>

definition count_backoff ::
  "'a restart_config_scheme \<Rightarrow> int \<Rightarrow> string \<Rightarrow> int \<Rightarrow> backoff \<Rightarrow> backoff" where
  "count_backoff cfg code message lasted b = b\<lparr>
     consecutive_failures := (if stable_after cfg \<le> lasted then 0 else consecutive_failures b) + 1,
     last_exit_code := code, last_exit_message := message,
     fatal_exits := (if is_fatal code then fatal_exits b + 1 else 0)\<rparr>"

text \<open>\<open>rnd n\<close> is what \<open>rand.N(n)\<close> draws.\<close>

definition schedule ::
  "'a restart_config_scheme \<Rightarrow> (int \<Rightarrow> int) \<Rightarrow> int \<Rightarrow> backoff \<Rightarrow> backoff" where
  "schedule cfg rnd now b =
     (if max_fatal_exits cfg \<le> fatal_exits b then b\<lparr>gave_up := True, next_restart := zero_time\<rparr>
      else let delay = restart_delay (restart_backoff cfg) (max_restart_backoff cfg)
                 (consecutive_failures b)
           in b\<lparr>next_restart := now + (delay + rnd (delay sdiv 10 + 1))\<rparr>)"

definition record_exit ::
  "'a restart_config_scheme \<Rightarrow> (int \<Rightarrow> int) \<Rightarrow> int \<Rightarrow>
   string \<Rightarrow> string \<Rightarrow> string \<Rightarrow> string \<Rightarrow> int \<Rightarrow> string \<Rightarrow> int \<Rightarrow> backoffs \<Rightarrow> backoff \<times> backoffs" where
  "record_exit cfg rnd now volume hash staging uid code message lasted m =
     (case backoff_for volume hash m of (e, m) \<Rightarrow>
        if uid \<noteq> [] \<and> uid = last_pod e then (entry_backoff e, m)
        else let b = schedule cfg rnd now (count_backoff cfg code message lasted (entry_backoff e))
             in (b, m(volume \<mapsto> e\<lparr>entry_backoff := b, last_pod := uid, entry_staging := staging\<rparr>)))"

definition backoff_state :: "string \<Rightarrow> string \<Rightarrow> backoffs \<Rightarrow> backoff \<times> backoffs" where
  "backoff_state volume hash m =
     (case backoff_for volume hash m of (e, m) \<Rightarrow> (entry_backoff e, m))"

definition reset_backoff :: "string \<Rightarrow> backoffs \<Rightarrow> backoffs" where
  "reset_backoff volume m =
     (case m volume of None \<Rightarrow> m | Some e \<Rightarrow> m(volume \<mapsto> e\<lparr>entry_backoff := no_backoff\<rparr>))"

definition forget :: "string \<Rightarrow> backoffs \<Rightarrow> backoffs" where
  "forget volume m =
     (case m volume of
        None \<Rightarrow> m
      | Some e \<Rightarrow> if \<not> gave_up (entry_backoff e) then m(volume := None) else m)"

definition start_over :: "string \<Rightarrow> string \<Rightarrow> backoffs \<Rightarrow> backoffs" where
  "start_over volume hash m =
     (case backoff_for volume hash m of (e, m) \<Rightarrow>
        if gave_up (entry_backoff e) then m(volume \<mapsto> e\<lparr>entry_backoff := no_backoff\<rparr>) else m)"

text \<open>The exported \<open>Forget\<close>.\<close>

definition forget_all :: "string \<Rightarrow> backoffs \<Rightarrow> backoffs" where
  "forget_all volume m = m(volume := None)"

definition volumes :: "backoffs \<Rightarrow> string \<rightharpoonup> string" where
  "volumes m = map_option entry_staging \<circ> m"

subsection \<open>Labels of exits\<close>

lemma exit_texts:
  "\<not> contains (exit_meaning exit_auth_required) (exit_meaning exit_writes_lost)"
  "\<not> contains (exit_meaning exit_config) (exit_meaning exit_writes_lost)"
  "\<not> contains ''error'' (exit_meaning exit_writes_lost)"
  "\<not> contains [] (exit_meaning exit_writes_lost)"
  "\<not> contains ''failed before it was ready, nothing written'' (exit_meaning exit_writes_lost)"
  "\<not> contains ''failed after it was ready, no lost writes reported'' (exit_meaning exit_writes_lost)"
  by (simp_all add: contains_def exit_meaning_def exit_defs sublist_Cons_right)

lemma exit_meaning_lost:
  "contains (exit_meaning code) (exit_meaning exit_writes_lost) \<longleftrightarrow> code = exit_writes_lost"
proof (cases "code \<in> {exit_failed, exit_writes_lost, exit_auth_required, exit_config}")
  case True
  then show ?thesis
    using exit_texts
    by (elim insertE emptyE) (simp_all add: exit_defs contains_def, simp_all add: exit_meaning_def exit_defs)
next
  case False
  then have "exit_meaning code = []" by (simp add: exit_meaning_def)
  then show ?thesis using False exit_texts(4) by simp
qed

text \<open>
  The label of an exit (events, logs, metrics) says that writes were lost exactly when they were:
  neither another code, nor the words of a termination message on a code that does not read them,
  nor a refused login at the same time hides or invents a loss.
\<close>

lemma label_tells_lost_writes:
  "contains (exit_label st) (exit_meaning exit_writes_lost) \<longleftrightarrow> lost_writes st"
proof (cases "exit_code st")
  case None
  then show ?thesis using exit_texts(4) by (simp add: exit_label_def lost_writes_def)
next
  case (Some code)
  show ?thesis
  proof (cases "lost_writes st")
    case True
    have "contains (a @ exit_meaning exit_writes_lost) (exit_meaning exit_writes_lost)" for a
      by (simp add: contains_def sublist_append_leftI)
    from this [of "exit_meaning exit_auth_required @ ''; ''"] show ?thesis
      using True Some by (simp add: exit_label_def exit_meaning_lost)
  next
    case False
    then have "code \<noteq> exit_writes_lost" using Some by (auto simp: lost_writes_def)
    then show ?thesis
      using False Some exit_texts(5,6) by (simp add: exit_label_def exit_meaning_lost)
  qed
qed

subsection \<open>The delay, closed form\<close>

lemma delay_loop_min:
  assumes "0 < d" and "mx \<le> 2 ^ 62" and "d < 2 ^ 63"
  shows "min (delay_loop d mx k) mx = min (d * 2 ^ k) mx \<and> 0 < delay_loop d mx k"
  using assms
proof (induction k arbitrary: d)
  case (Suc k)
  show ?case
  proof (cases "d < mx")
    case True
    then have "d * 2 < 2 ^ 63" using Suc.prems by simp
    then have "wrap64 (d * 2) = d * 2" using Suc.prems by simp
    then show ?thesis using Suc.IH [of "d * 2"] Suc.prems True \<open>d * 2 < 2 ^ 63\<close>
      by (simp add: mult.assoc)
  next
    case False
    have "(1 :: int) \<le> 2 ^ Suc k" by (rule one_le_power) simp
    then have "d \<le> d * (2 * 2 ^ k)" using Suc.prems by (simp add: mult_le_cancel_left1)
    then have "min (d * 2 ^ Suc k) mx = mx" using False by (simp add: min_def)
    then show ?thesis using False Suc.prems by (simp add: min_def)
  qed
qed simp

text \<open>
  C36. The restart delay is the base doubled for every failure after the first, capped at the
  maximum: no doubling overflows for a maximum up to \<open>2 ^ 62\<close> ns (146 years), the delay is always
  positive and grows with the failures.
\<close>

theorem restart_delay_closed_form:
  assumes "0 < base" and "base \<le> 2 ^ 62" and "0 < mx" and "mx \<le> 2 ^ 62" and "1 \<le> n"
  shows "restart_delay base mx n = min (base * 2 ^ nat (n - 1)) mx \<and>
    0 < restart_delay base mx n \<and> restart_delay base mx n \<le> restart_delay base mx (n + 1)"
proof -
  have d: "restart_delay base mx k = min (base * 2 ^ nat (k - 1)) mx" for k
    using delay_loop_min [of base mx "nat (k - 1)"] assms by (simp add: restart_delay_def)
  have "nat (n + 1 - 1) = Suc (nat (n - 1))" using assms by simp
  then have "base * 2 ^ nat (n - 1) \<le> base * 2 ^ nat (n + 1 - 1)" using assms by simp
  then show ?thesis using assms by (simp add: d min_le_iff_disj min.coboundedI1)
qed

theorem restart_delay_closed_form_witness:
  "map (restart_delay (seconds 5) (seconds 300)) [1, 2, 3, 7, 100]
   = map seconds [5, 10, 20, 300, 300] \<and>
   restart_delay (seconds 5) (seconds 300) 7 \<le> restart_delay (seconds 5) (seconds 300) 8"
  by (simp add: restart_delay_closed_form seconds_def)

subsection \<open>The operations of the restart state\<close>

text \<open>
  Every operation of the Manager on the restart state of one volume, with what the clock and the
  source of the jitter say at that moment.
\<close>

datatype backoff_op =
    Exit string string string int string int "int \<Rightarrow> int" int
  | Query string
  | Reset
  | DropKept
  | StartOver string
  | DropAll

definition backoff_step ::
  "'a restart_config_scheme \<Rightarrow> string \<Rightarrow> backoff_op \<Rightarrow> backoffs \<Rightarrow> backoffs" where
  "backoff_step cfg volume x m =
     (case x of
        Exit hash staging uid code message lasted rnd now \<Rightarrow>
          snd (record_exit cfg rnd now volume hash staging uid code message lasted m)
      | Query hash \<Rightarrow> snd (backoff_state volume hash m)
      | Reset \<Rightarrow> reset_backoff volume m
      | DropKept \<Rightarrow> forget volume m
      | StartOver hash \<Rightarrow> start_over volume hash m
      | DropAll \<Rightarrow> forget_all volume m)"

lemmas backoff_ops = record_exit_def backoff_state_def reset_backoff_def forget_def
  start_over_def forget_all_def

lemma backoff_for_entry: "snd (backoff_for v h m) = m(v \<mapsto> fst (backoff_for v h m))"
  by (auto simp: backoff_for_def split: option.split)

lemma backoff_for_local: "m v = n v \<Longrightarrow> fst (backoff_for v h m) = fst (backoff_for v h n)"
  by (simp add: backoff_for_def split: option.split)

lemma backoff_for_case:
  "(case backoff_for v h m of (e, m') \<Rightarrow> f e m')
     = f (fst (backoff_for v h m)) (m(v \<mapsto> fst (backoff_for v h m)))"
  by (simp add: case_prod_beta backoff_for_entry)

interpretation bo: per_volume "backoff_step cfg" "\<lambda>m. m"
proof
  show "v \<noteq> u \<Longrightarrow> backoff_step cfg v x s u = s u" for v u x s
    by (auto simp: backoff_step_def backoff_ops backoff_for_case Let_def
        split: backoff_op.split option.split)
  show "s v = t v \<Longrightarrow> backoff_step cfg v x s v = backoff_step cfg v x t v" for s t v x
    using backoff_for_local [of s v t]
    by (auto simp: backoff_step_def backoff_ops backoff_for_case Let_def
        split: backoff_op.split option.split)
qed

text \<open>
  Volumes do not disturb each other: after any interleaving of operations the restart state of a
  volume is what its own operations alone would have left.
\<close>

lemma backoff_per_volume:
  "run_ops (backoff_step cfg) ops m v = run_ops (backoff_step cfg) (own v ops) m v"
  by (rule bo.own_ops_decide [OF refl])

text \<open>A give-up counted for a config, and the operations that may lift it.\<close>

definition gave_up_with :: "string \<Rightarrow> backoff_entry \<Rightarrow> bool" where
  "gave_up_with hash e \<longleftrightarrow> entry_hash e = hash \<and> gave_up (entry_backoff e)"

definition may_lift :: "string \<Rightarrow> backoff_op \<Rightarrow> bool" where
  "may_lift hash x =
     (case x of
        Exit h _ _ _ _ _ _ _ \<Rightarrow> h \<noteq> hash | Query h \<Rightarrow> h \<noteq> hash
      | Reset \<Rightarrow> True | DropKept \<Rightarrow> False | StartOver _ \<Rightarrow> True | DropAll \<Rightarrow> True)"

lemma gave_up_schedule:
  "gave_up b \<Longrightarrow> gave_up (schedule cfg rnd now (count_backoff cfg code message lasted b))"
  by (simp add: schedule_def count_backoff_def Let_def)

lemma backoff_for_same: "m v = Some e \<Longrightarrow> entry_hash e = h \<Longrightarrow> backoff_for v h m = (e, m)"
  by (simp add: backoff_for_def)

interpretation give_up: lasting_mark "backoff_step cfg" "\<lambda>m. m" gave_up_with may_lift
proof
  show "s v = Some e \<Longrightarrow> gave_up_with c e \<Longrightarrow> \<not> may_lift c x \<Longrightarrow>
      \<exists>e'. backoff_step cfg v x s v = Some e' \<and> gave_up_with c e'" for s v e c x
    by (cases x) (auto simp: backoff_step_def backoff_ops gave_up_with_def may_lift_def Let_def
        backoff_for_same gave_up_schedule)
qed

text \<open>
  C27. A give-up lasts: once the pods of a volume gave up for a config, no number of further exits,
  queries and deletions that keep it (\<open>forget\<close>: kubelet retrying the stage), nor anything done to other
  volumes, lifts it. What may lift it, in this process, is a mount seen ready, another config hash (new
  credentials), \<open>startOver\<close> (a pod deleted by hand), and \<open>Forget\<close>, which an explicit unstage calls, a deletion by
  hand found by \<open>Delete\<close>, and the sweep of the recovery once the volume is gone from the node and no
  stage has found it given up for thirty minutes.
\<close>

theorem give_up_lasts:
  assumes "m v = Some e" and "gave_up_with hash e"
    and "\<And>x. (v, x) \<in> set ops \<Longrightarrow> \<not> may_lift hash x"
  shows "gave_up (fst (backoff_state v hash (run_ops (backoff_step cfg) ops m)))"
  using give_up.mark_lasts [where s = m and v = v and e = e and c = hash and ops = ops, OF assms, where cfg = cfg]
  by (auto simp: gave_up_with_def backoff_state_def backoff_for_same)

definition demo_restart :: restart_config where
  "demo_restart = \<lparr>restart_backoff = seconds 5, max_restart_backoff = seconds 300,
     stable_after = seconds 60, max_fatal_exits = 1\<rparr>"

definition demo_entry :: backoff_entry where
  "demo_entry = \<lparr>entry_backoff = no_backoff\<lparr>gave_up := True, fatal_exits := 1, last_exit_code := 77\<rparr>,
     entry_hash = ''h'', last_pod = ''u1'', entry_staging = ''/s''\<rparr>"

theorem give_up_lasts_witness:
  "gave_up (fst (backoff_state ''v'' ''h'' (run_ops (backoff_step demo_restart)
     [(''v'', DropKept), (''w'', DropAll), (''v'', Exit ''h'' ''/s'' ''u2'' 1 [] 0 (\<lambda>_. 0) 7)]
     [''v'' \<mapsto> demo_entry])))"
  by (rule give_up_lasts [where e = demo_entry]) (auto simp: gave_up_with_def demo_entry_def may_lift_def)

text \<open>
  The exit of a pod is counted once: however often the same pod is seen exited (by Ensure, by
  Delete, by the recovery), with whatever is read of it, of the clock and of the jitter, the
  restart state stays the one of the first time.
\<close>

lemma exit_counted_once:
  assumes "uid \<noteq> []"
  shows "record_exit cfg rnd' now' v hash staging' uid code' message' lasted'
      (snd (record_exit cfg rnd now v hash staging uid code message lasted m))
    = record_exit cfg rnd now v hash staging uid code message lasted m"
proof -
  let ?m = "snd (record_exit cfg rnd now v hash staging uid code message lasted m)"
  have h: "entry_hash (fst (backoff_for v hash m)) = hash"
    by (simp add: backoff_for_def fresh_entry_def split: option.split)
  have "\<exists>e. ?m v = Some e \<and> entry_hash e = hash \<and> last_pod e = uid \<and>
      fst (record_exit cfg rnd now v hash staging uid code message lasted m) = entry_backoff e"
    using h by (cases "uid \<noteq> [] \<and> uid = last_pod (fst (backoff_for v hash m))")
      (simp_all add: record_exit_def backoff_for_case Let_def)
  then obtain e where "?m v = Some e" "entry_hash e = hash" "last_pod e = uid"
      "fst (record_exit cfg rnd now v hash staging uid code message lasted m) = entry_backoff e"
    by blast
  then show ?thesis
    using assms by (simp add: record_exit_def [of cfg rnd'] backoff_for_same prod_eq_iff)
qed

theorem exit_counted_once_witness:
  "consecutive_failures (fst (record_exit demo_restart id 9 ''v'' ''h'' ''/s'' ''u2'' 1 [] 0
     (snd (record_exit demo_restart (\<lambda>_. 0) 7 ''v'' ''h'' ''/s'' ''u2'' 1 [] 0 Map.empty)))) = 1"
  by (subst exit_counted_once)
    (simp_all add: record_exit_def backoff_for_def fresh_entry_def no_backoff_def schedule_def
      count_backoff_def demo_restart_def seconds_def is_fatal_def exit_defs Let_def)

subsection \<open>The counters as a summary of the exits\<close>

text \<open>
  The abstract restart state of a volume: its config, the last pod counted, and the exits (code and
  running time) counted since the last fresh start, oldest first. The abstract operations only
  append an exit or start afresh; the counters of the code are functions of the list.
\<close>

record history =
  hi_hash :: string
  hi_pod :: string
  hi_exits :: "(int \<times> int) list"

type_synonym histories = "string \<rightharpoonup> history"

definition trailing_fatal :: "(int \<times> int) list \<Rightarrow> int" where
  "trailing_fatal es = int (length (takeWhile (is_fatal \<circ> fst) (rev es)))"

text \<open>The exits since the last pod that ran long enough, that one included.\<close>

definition unstable_run :: "'a restart_config_scheme \<Rightarrow> (int \<times> int) list \<Rightarrow> int" where
  "unstable_run cfg es =
     (let k = length (takeWhile (\<lambda>x. snd x < stable_after cfg) (rev es))
      in int (if k < length es then k + 1 else k))"

text \<open>At some point since the fresh start, enough exits in a row were fatal.\<close>

definition hopeless :: "'a restart_config_scheme \<Rightarrow> (int \<times> int) list \<Rightarrow> bool" where
  "hopeless cfg es \<longleftrightarrow>
     list_ex (\<lambda>n. max_fatal_exits cfg \<le> trailing_fatal (take (Suc n) es)) [0..<length es]"

lemma trailing_fatal_snoc:
  "trailing_fatal [] = 0"
  "trailing_fatal (es @ [x]) = (if is_fatal (fst x) then trailing_fatal es + 1 else 0)"
  by (simp_all add: trailing_fatal_def)

lemma unstable_run_snoc:
  "unstable_run cfg [] = 0"
  "unstable_run cfg (es @ [x]) = (if stable_after cfg \<le> snd x then 0 else unstable_run cfg es) + 1"
  by (simp_all add: unstable_run_def Let_def)

lemma hopeless_snoc:
  "\<not> hopeless cfg []"
  "hopeless cfg (es @ [x]) \<longleftrightarrow> hopeless cfg es \<or> max_fatal_exits cfg \<le> trailing_fatal (es @ [x])"
  by (auto simp: hopeless_def list_ex_iff less_Suc_eq)

definition history_for :: "string \<Rightarrow> string \<Rightarrow> histories \<Rightarrow> history" where
  "history_for v hash g =
     (case g v of
        Some e \<Rightarrow> if hi_hash e \<noteq> hash then \<lparr>hi_hash = hash, hi_pod = [], hi_exits = []\<rparr> else e
      | None \<Rightarrow> \<lparr>hi_hash = hash, hi_pod = [], hi_exits = []\<rparr>)"

definition history_step ::
  "'a restart_config_scheme \<Rightarrow> string \<Rightarrow> backoff_op \<Rightarrow> histories \<Rightarrow> histories" where
  "history_step cfg v x g =
     (case x of
        Exit hash staging uid code message lasted rnd now \<Rightarrow>
          (let e = history_for v hash g
           in if uid \<noteq> [] \<and> uid = hi_pod e then g(v \<mapsto> e)
              else g(v \<mapsto> e\<lparr>hi_pod := uid, hi_exits := hi_exits e @ [(code, lasted)]\<rparr>))
      | Query hash \<Rightarrow> g(v \<mapsto> history_for v hash g)
      | Reset \<Rightarrow> (case g v of None \<Rightarrow> g | Some e \<Rightarrow> g(v \<mapsto> e\<lparr>hi_exits := []\<rparr>))
      | DropKept \<Rightarrow> (case g v of None \<Rightarrow> g
                    | Some e \<Rightarrow> if hopeless cfg (hi_exits e) then g else g(v := None))
      | StartOver hash \<Rightarrow>
          (let e = history_for v hash g
           in g(v \<mapsto> if hopeless cfg (hi_exits e) then e\<lparr>hi_exits := []\<rparr> else e))
      | DropAll \<Rightarrow> g(v := None))"

definition summarises ::
  "'a restart_config_scheme \<Rightarrow> (int \<times> int) list \<Rightarrow> backoff \<Rightarrow> bool" where
  "summarises cfg es b \<longleftrightarrow>
     fatal_exits b = trailing_fatal es \<and> consecutive_failures b = unstable_run cfg es \<and>
     (gave_up b \<longleftrightarrow> hopeless cfg es) \<and>
     last_exit_code b = (if es = [] then 0 else fst (last es))"

definition refines :: "'a restart_config_scheme \<Rightarrow> backoff_entry \<Rightarrow> history \<Rightarrow> bool" where
  "refines cfg e h \<longleftrightarrow> entry_hash e = hi_hash h \<and> last_pod e = hi_pod h \<and>
     summarises cfg (hi_exits h) (entry_backoff e)"

lemma summarises_fresh: "summarises cfg [] no_backoff"
  by (simp add: summarises_def no_backoff_def trailing_fatal_snoc unstable_run_snoc hopeless_snoc)

lemma summarises_exit:
  "summarises cfg es b \<Longrightarrow>
   summarises cfg (es @ [(code, lasted)]) (schedule cfg rnd now (count_backoff cfg code message lasted b))"
  by (simp add: summarises_def schedule_def count_backoff_def Let_def trailing_fatal_snoc
      unstable_run_snoc hopeless_snoc)

lemma refines_for:
  "rel_option (refines cfg) (m v) (g v) \<Longrightarrow>
   refines cfg (fst (backoff_for v hash m)) (history_for v hash g)"
  by (cases "m v"; cases "g v")
    (auto simp: backoff_for_def history_for_def refines_def fresh_entry_def summarises_fresh)

lemma refines_gave_up: "refines cfg e h \<Longrightarrow> gave_up (entry_backoff e) = hopeless cfg (hi_exits h)"
  by (simp add: refines_def summarises_def)

lemma refines_step:
  assumes "\<And>u. rel_option (refines cfg) (m u) (g u)"
  shows "rel_option (refines cfg) (backoff_step cfg v x m u) (history_step cfg v x g u)"
proof (cases "u = v")
  case False
  then show ?thesis
    using assms [of u]
    by (cases x) (auto simp: backoff_step_def history_step_def backoff_ops backoff_for_case Let_def
        split: option.split)
next
  case True
  note r = refines_for [where m = m and g = g and v = v, OF assms]
  show ?thesis
  proof (cases x)
    case (Exit hash staging uid code message lasted rnd now)
    show ?thesis
      using r [of hash] True Exit
      by (auto simp: backoff_step_def history_step_def record_exit_def backoff_for_case Let_def
          refines_def summarises_exit)
  next
    case (StartOver hash)
    show ?thesis
      using r [of hash] True StartOver refines_gave_up [OF r [of hash]]
      by (auto simp: backoff_step_def history_step_def start_over_def backoff_for_case Let_def
          refines_def summarises_fresh)
  next
    case (Query hash)
    then show ?thesis
      using r [of hash] True
      by (simp add: backoff_step_def history_step_def backoff_state_def backoff_for_case)
  next
    case Reset
    from assms [of v] show ?thesis
      by (cases rule: option.rel_cases)
        (simp_all add: backoff_step_def history_step_def reset_backoff_def True Reset refines_def
          summarises_fresh)
  next
    case DropKept
    from assms [of v] show ?thesis
      by (cases rule: option.rel_cases)
        (simp_all add: backoff_step_def history_step_def forget_def True DropKept refines_gave_up)
  next
    case DropAll
    show ?thesis by (simp add: backoff_step_def history_step_def forget_all_def True DropAll)
  qed
qed

text \<open>
  C26. The restart state refines the history of exits: after any sequence of operations on any volumes,
  the code's counters are the number of fatal exits in a row, the number of exits since the last
  stable pod, the last code, and a volume has given up exactly when at some point since its last
  fresh start \<open>MaxFatalExits\<close> exits in a row, of different pods, were fatal.
\<close>

theorem backoff_refines_history:
  "rel_option (refines cfg) (run_ops (backoff_step cfg) ops Map.empty v)
     (run_ops (history_step cfg) ops Map.empty v)"
proof -
  have "rel_option (refines cfg) (run_ops (backoff_step cfg) ops m v) (run_ops (history_step cfg) ops g v)"
    if "\<And>u. rel_option (refines cfg) (m u) (g u)" for m g
    using that
  proof (induction ops arbitrary: m g)
    case (Cons p ops)
    show ?case
      using Cons.IH [OF refines_step [OF Cons.prems]] by (cases p) simp
  qed simp
  then show ?thesis by simp
qed

end
