(* ===== verification/Go_Path.thy ===== *)
theory Go_Path
  imports Go_Strings
begin

text \<open>
  Go's package \<open>path\<close> (slash-separated paths), as the driver uses it: \<open>Clean\<close>, \<open>Join\<close>, \<open>Dir\<close>,
  \<open>Base\<close> and \<open>IsAbs\<close>, by the rules of its documentation on the elements between the slashes,
  and the facts on clean rooted paths that the staging path checks rest on.
\<close>

subsection \<open>Elements\<close>

fun split_slash :: "string \<Rightarrow> string list" where
  "split_slash [] = [[]]"
| "split_slash (c # s) =
     (if c = CHR ''/'' then [] # split_slash s
      else (case split_slash s of [] \<Rightarrow> [[c]] | x # xs \<Rightarrow> (c # x) # xs))"

fun join_slash :: "string list \<Rightarrow> string" where
  "join_slash [] = []"
| "join_slash [x] = x"
| "join_slash (x # y # ys) = x @ CHR ''/'' # join_slash (y # ys)"

definition dot :: string where "dot = ''.''"
definition dotdot :: string where "dotdot = ''..''"

text \<open>The loop of \<open>path.Clean\<close> over the elements; \<open>acc\<close> holds the output's elements, last first.\<close>

fun clean_elems :: "bool \<Rightarrow> string list \<Rightarrow> string list \<Rightarrow> string list" where
  "clean_elems rooted acc [] = rev acc"
| "clean_elems rooted acc (x # xs) =
     (if x = [] \<or> x = dot then clean_elems rooted acc xs
      else if x = dotdot then
        (case acc of
           [] \<Rightarrow> clean_elems rooted (if rooted then [] else [dotdot]) xs
         | a # as \<Rightarrow> clean_elems rooted (if a = dotdot then dotdot # acc else as) xs)
      else clean_elems rooted (x # acc) xs)"

definition path_is_abs :: "string \<Rightarrow> bool" where
  "path_is_abs p = (case p of [] \<Rightarrow> False | c # _ \<Rightarrow> c = CHR ''/'')"

definition path_clean :: "string \<Rightarrow> string" where
  "path_clean p =
     (if p = [] then dot
      else let out = join_slash (clean_elems (path_is_abs p) [] (split_slash p))
           in if path_is_abs p then CHR ''/'' # out else if out = [] then dot else out)"

definition path_join :: "string list \<Rightarrow> string" where
  "path_join elems =
     (case filter (\<lambda>e. e \<noteq> []) elems of [] \<Rightarrow> [] | es \<Rightarrow> path_clean (join_slash es))"

definition path_dir :: "string \<Rightarrow> string" where
  "path_dir p = path_clean (rev (dropWhile (\<lambda>c. c \<noteq> CHR ''/'') (rev p)))"

definition path_base :: "string \<Rightarrow> string" where
  "path_base p =
     (if p = [] then dot
      else let q = dropWhile (\<lambda>c. c = CHR ''/'') (rev p);
               b = rev (takeWhile (\<lambda>c. c \<noteq> CHR ''/'') q)
           in if b = [] then ''/'' else b)"

subsection \<open>Clean rooted paths\<close>

definition proper_elem :: "string \<Rightarrow> bool" where
  "proper_elem x \<longleftrightarrow> x \<noteq> [] \<and> CHR ''/'' \<notin> set x \<and> x \<noteq> dot \<and> x \<noteq> dotdot"

lemma split_slash_nonempty [simp]: "split_slash s \<noteq> []"
  by (induction s) (auto split: list.splits)

lemma split_slash_no_slash: "x \<in> set (split_slash s) \<Longrightarrow> CHR ''/'' \<notin> set x"
  by (induction s arbitrary: x) (auto split: list.splits if_splits)

lemma split_slash_elem [simp]: "CHR ''/'' \<notin> set x \<Longrightarrow> split_slash x = [x]"
  by (induction x) auto

lemma split_slash_elem_append [simp]:
  "CHR ''/'' \<notin> set x \<Longrightarrow> split_slash (x @ CHR ''/'' # s) = x # split_slash s"
  by (induction x) auto

lemma split_join_slash:
  "xs \<noteq> [] \<Longrightarrow> \<forall>x \<in> set xs. CHR ''/'' \<notin> set x \<Longrightarrow> split_slash (join_slash xs) = xs"
  by (induction xs rule: join_slash.induct) auto

lemma join_slash_snoc:
  "xs \<noteq> [] \<Longrightarrow> join_slash (xs @ [x]) = join_slash xs @ CHR ''/'' # x"
  by (induction xs rule: join_slash.induct) auto

lemma clean_elems_proper:
  "\<forall>x \<in> set xs. CHR ''/'' \<notin> set x \<Longrightarrow> \<forall>x \<in> set acc. proper_elem x \<Longrightarrow>
   \<forall>x \<in> set (clean_elems True acc xs). proper_elem x"
proof (induction xs arbitrary: acc)
  case Nil
  then show ?case by simp
next
  case (Cons x xs)
  note xs = Cons.prems(1) and acc = Cons.prems(2)
  have IH: "\<forall>x \<in> set acc'. proper_elem x \<Longrightarrow> \<forall>x \<in> set (clean_elems True acc' xs). proper_elem x"
    for acc' using Cons.IH xs by simp
  consider "x = [] \<or> x = dot" | "x = dotdot" "x \<noteq> []" "x \<noteq> dot" | "proper_elem x"
    using xs by (auto simp: proper_elem_def)
  then show ?case
  proof cases
    case 1
    then show ?thesis using IH [OF acc] by simp
  next
    case 2
    have "\<forall>a \<in> set acc. a \<noteq> dotdot" using acc by (simp add: proper_elem_def)
    then have "clean_elems True acc (x # xs) = clean_elems True (tl acc) xs"
      using 2 by (cases acc) simp_all
    moreover have "\<forall>a \<in> set (tl acc). proper_elem a"
      using acc by (cases acc) simp_all
    ultimately show ?thesis using IH [of "tl acc"] by metis
  next
    case 3
    then have "clean_elems True acc (x # xs) = clean_elems True (x # acc) xs"
      by (simp add: proper_elem_def)
    then show ?thesis using IH [of "x # acc"] acc 3 by simp
  qed
qed

lemma clean_elems_id:
  "\<forall>x \<in> set xs. proper_elem x \<Longrightarrow> clean_elems r acc xs = rev acc @ xs"
  by (induction xs arbitrary: acc) (auto simp: proper_elem_def)

lemma clean_elems_trail [simp]: "clean_elems r acc (xs @ [[]]) = clean_elems r acc xs"
  by (induction r acc xs rule: clean_elems.induct) (auto split: list.splits)

definition rooted_path :: "string list \<Rightarrow> string" where
  "rooted_path xs = CHR ''/'' # join_slash xs"

lemma path_clean_rooted:
  assumes "path_is_abs p"
  shows "\<exists>xs. (\<forall>x \<in> set xs. proper_elem x) \<and> path_clean p = rooted_path xs"
proof -
  let ?xs = "clean_elems True [] (split_slash p)"
  have "\<forall>x \<in> set ?xs. proper_elem x"
    by (rule clean_elems_proper) (auto dest: split_slash_no_slash)
  moreover have "path_clean p = rooted_path ?xs"
    using assms by (auto simp: path_clean_def rooted_path_def path_is_abs_def)
  ultimately show ?thesis by blast
qed

lemma path_clean_rooted_path [simp]:
  assumes "\<forall>x \<in> set xs. proper_elem x"
  shows "path_clean (rooted_path xs) = rooted_path xs"
proof (cases "xs = []")
  case True
  then show ?thesis
    by (simp add: path_clean_def rooted_path_def path_is_abs_def)
next
  case False
  then have "split_slash (join_slash xs) = xs"
    using assms by (intro split_join_slash) (auto simp: proper_elem_def)
  then show ?thesis
    using assms by (simp add: path_clean_def rooted_path_def path_is_abs_def clean_elems_id)
qed

lemma dropWhile_rev_join:
  "CHR ''/'' \<notin> set b \<Longrightarrow>
   dropWhile (\<lambda>c. c \<noteq> CHR ''/'') (rev (s @ CHR ''/'' # b)) = CHR ''/'' # rev s"
  by (simp add: dropWhile_until)

lemma path_dir_rooted:
  assumes ds: "\<forall>x \<in> set ds. proper_elem x" and b: "proper_elem b"
  shows "path_dir (rooted_path (ds @ [b])) = rooted_path ds"
proof (cases "ds = []")
  case True
  then show ?thesis
    using b dropWhile_rev_join [of b "[]"]
    by (simp add: path_dir_def rooted_path_def path_clean_def path_is_abs_def proper_elem_def)
next
  case False
  have nb: "CHR ''/'' \<notin> set b" using b by (simp add: proper_elem_def)
  have "rooted_path (ds @ [b]) = (CHR ''/'' # join_slash ds) @ CHR ''/'' # b"
    using False by (simp add: rooted_path_def join_slash_snoc)
  then have "path_dir (rooted_path (ds @ [b])) = path_clean ((CHR ''/'' # join_slash ds) @ ''/'')"
    unfolding path_dir_def by (simp only: dropWhile_rev_join [OF nb]) simp
  moreover have "join_slash ds @ ''/'' = join_slash (ds @ [[]])"
    using False by (simp add: join_slash_snoc)
  moreover have "split_slash (join_slash (ds @ [[]])) = ds @ [[]]"
    using ds by (intro split_join_slash) (auto simp: proper_elem_def)
  ultimately show ?thesis
    using ds by (simp add: path_clean_def rooted_path_def path_is_abs_def clean_elems_id)
qed

lemma path_base_rooted:
  assumes b: "proper_elem b"
  shows "path_base (rooted_path (ds @ [b])) = b"
proof -
  have nb: "CHR ''/'' \<notin> set b" and ne: "b \<noteq> []" using b by (auto simp: proper_elem_def)
  obtain s where s: "rooted_path (ds @ [b]) = s @ CHR ''/'' # b"
    by (cases "ds = []") (auto simp: rooted_path_def join_slash_snoc)
  have hd: "dropWhile (\<lambda>c. c = CHR ''/'') (rev b @ t) = rev b @ t" for t
    using nb ne by (cases "rev b") (auto dest: arg_cong [where f = set])
  have tw: "takeWhile (\<lambda>c. c \<noteq> CHR ''/'') (rev b @ CHR ''/'' # t) = rev b" for t
    using nb by (simp add: takeWhile_until)
  show ?thesis
    unfolding path_base_def s using ne by (simp add: hd tw)
qed

text \<open>A clean rooted path other than the root is its directory joined with its last element.\<close>

lemma path_join_dir_base:
  assumes "path_is_abs p" and "path_clean p = p" and "p \<noteq> ''/''"
  shows "path_join [path_dir p, path_base p] = p"
proof -
  obtain xs where xs: "\<forall>x \<in> set xs. proper_elem x" and p: "p = rooted_path xs"
    using path_clean_rooted [OF assms(1)] assms(2) by auto
  with assms(3) have "xs \<noteq> []" by (auto simp: rooted_path_def)
  then obtain ds b where ds: "xs = ds @ [b]" by (metis append_butlast_last_id)
  have pr: "\<forall>x \<in> set ds. proper_elem x" "proper_elem b" using xs ds by auto
  have "path_join [path_dir p, path_base p] = path_clean (join_slash [rooted_path ds, b])"
    using pr(2) unfolding p ds path_dir_rooted [OF pr] path_base_rooted [OF pr(2)]
    by (simp add: path_join_def rooted_path_def proper_elem_def)
  also have "\<dots> = rooted_path (ds @ [b])"
  proof (cases "ds = []")
    case True
    then show ?thesis
      using pr clean_elems_id [of "[b]" True "[]"]
      by (simp add: rooted_path_def path_clean_def path_is_abs_def proper_elem_def)
  next
    case False
    then have "join_slash [rooted_path ds, b] = rooted_path (ds @ [b])"
      by (simp add: rooted_path_def join_slash_snoc)
    then show ?thesis using xs ds by simp
  qed
  finally show ?thesis by (simp add: p ds)
qed

end
