(* ===== verification/Go_Duration.thy ===== *)
theory Go_Duration
  imports Go_Strings
begin

text \<open>
  \<open>time.Duration.String\<close> of the Go standard library, for a duration in nanoseconds: hours, minutes
  and seconds with a fraction, or one smaller unit below a second.
\<close>

text \<open>The fraction of \<open>v / 10 ^ p\<close> without its trailing zeros (its dot included), and the quotient.\<close>

fun fmt_frac :: "nat \<Rightarrow> nat \<Rightarrow> string \<Rightarrow> string \<times> nat" where
  "fmt_frac 0 v acc = (if acc = [] then [] else CHR ''.'' # acc, v)"
| "fmt_frac (Suc p) v acc =
     fmt_frac p (v div 10)
       (if acc \<noteq> [] \<or> v mod 10 \<noteq> 0 then digit_char (v mod 10) # acc else acc)"

definition fmt_unit :: "nat \<Rightarrow> nat \<Rightarrow> string \<Rightarrow> string" where
  "fmt_unit p u unit_name = (case fmt_frac p u [] of (frac, q) \<Rightarrow> show_nat q @ frac @ unit_name)"

definition format_magnitude :: "nat \<Rightarrow> string" where
  "format_magnitude u =
     (if u = 0 then ''0s''
      else if u < 10 ^ 3 then fmt_unit 0 u ''ns''
      else if u < 10 ^ 6 then fmt_unit 3 u [CHR 0xC2, CHR 0xB5, CHR ''s'']
      else if u < 10 ^ 9 then fmt_unit 6 u ''ms''
      else case fmt_frac 9 u [] of (frac, q) \<Rightarrow>
        (let s = show_nat (q mod 60) @ frac @ ''s''; mins = q div 60
         in if mins = 0 then s
            else let t = show_nat (mins mod 60) @ CHR ''m'' # s; h = mins div 60
                 in if h = 0 then t else show_nat h @ CHR ''h'' # t))"

definition format_duration :: "int \<Rightarrow> string" where
  "format_duration d =
     (if d < 0 then CHR ''-'' # format_magnitude (nat (- d)) else format_magnitude (nat d))"

lemma fmt_frac_numeral [simp]:
  "fmt_frac (numeral k) v acc =
     fmt_frac (pred_numeral k) (v div 10)
       (if acc \<noteq> [] \<or> v mod 10 \<noteq> 0 then digit_char (v mod 10) # acc else acc)"
  by (subst numeral_eq_Suc) (rule fmt_frac.simps(2))

lemma format_duration_examples:
  "format_duration 300000000000 = ''5m0s''"
  "format_duration 5430500000000 = ''1h30m30.5s''"
  "format_duration (- 1500000) = ''-1.5ms''"
  by (simp_all add: format_duration_def format_magnitude_def fmt_unit_def show_nat.simps
      digit_char_def char_of_def bit_0 Let_def)

end
