(* ===== verification/Mount_Pod.thy ===== *)
theory Mount_Pod
  imports Mount_Spec Backoff Go_Path Go_Duration "HOL-Library.AList"
begin

text \<open>
  The mount pod of a volume (internal/mountpod/pod.go): its name and labels, the hash of its config,
  its resources, the command line of \<open>retyc fs mount\<close>, its Secret and the pod itself, field by field.
  SHA-256, the JSON codec, the comparison of quantities and the label check of the Kubernetes
  validation package are the fields of \<open>codec\<close>. A Go map built from a literal or by assignments is
  an association list.
\<close>

definition driver_name :: string where "driver_name = ''csi.retycfs.com''"
definition label_app :: string where "label_app = ''app.kubernetes.io/name''"
definition label_managed_by :: string where "label_managed_by = ''app.kubernetes.io/managed-by''"
definition label_volume :: string where "label_volume = ''csi.retycfs.com/volume''"
definition label_node :: string where "label_node = ''csi.retycfs.com/node''"
definition label_pvc :: string where "label_pvc = ''csi.retycfs.com/pvc''"
definition label_namespace :: string where "label_namespace = ''csi.retycfs.com/namespace''"
definition annotation_config_hash :: string where
  "annotation_config_hash = ''csi.retycfs.com/config-hash''"
definition annotation_cli_version :: string where
  "annotation_cli_version = ''csi.retycfs.com/cli-version''"
definition annotation_secret :: string where "annotation_secret = ''csi.retycfs.com/secret''"
definition annotation_staging_path :: string where
  "annotation_staging_path = ''csi.retycfs.com/staging-path''"
definition annotation_spec :: string where "annotation_spec = ''csi.retycfs.com/spec''"
definition annotation_safe_to_evict :: string where
  "annotation_safe_to_evict = ''cluster-autoscaler.kubernetes.io/safe-to-evict''"
definition annotation_do_not_disrupt :: string where
  "annotation_do_not_disrupt = ''karpenter.sh/do-not-disrupt''"

lemmas key_defs = label_app_def label_managed_by_def label_volume_def label_node_def label_pvc_def
  label_namespace_def annotation_config_hash_def annotation_cli_version_def annotation_secret_def
  annotation_staging_path_def annotation_spec_def annotation_safe_to_evict_def
  annotation_do_not_disrupt_def

definition app_name :: string where "app_name = ''retycfs-mount''"
definition managed_by :: string where "managed_by = ''retycfs-k8s-csi''"
definition name_prefix :: string where "name_prefix = ''retycfs-mount-''"
definition container_name :: string where "container_name = ''mount''"
definition metrics_port_name :: string where "metrics_port_name = ''metrics''"
definition pod_staging_dir :: string where "pod_staging_dir = ''/staging''"
definition pod_spool_dir :: string where "pod_spool_dir = ''/spool''"
definition pod_config_dir :: string where "pod_config_dir = ''/config''"
definition dev_fuse :: string where "dev_fuse = ''/dev/fuse''"
definition secret_redis_url :: string where "secret_redis_url = ''RETYC_CACHE_REDIS_URL''"
definition finalizer_in_use :: string where "finalizer_in_use = ''csi.retycfs.com/in-use''"
definition termination_margin :: int where "termination_margin = seconds 10"

subsection \<open>Names, labels and hashes\<close>

text \<open>What the hash covers, and what \<open>AnnotationSpec\<close> stores.\<close>

record 'q hashed_config =
  hc_token :: string
  hc_passphrase :: string
  hc_cache :: cache
  hc_uid :: uint32
  hc_gid :: uint32
  hc_options :: mount_options
  hc_resources :: "'q resource_requirements"
  hc_image :: string

record 'q stored_spec =
  stored_uid :: uint32
  stored_gid :: uint32
  stored_options :: mount_options
  stored_resources :: "'q resource_requirements"

record 'q codec =
  sha256 :: "string \<Rightarrow> string"
  json_config :: "'q hashed_config \<Rightarrow> string"
  json_stored :: "'q stored_spec \<Rightarrow> string"
  parse_stored :: "string \<Rightarrow> 'q stored_spec option"
  quantity_cmp :: "'q \<Rightarrow> 'q \<Rightarrow> int"
  valid_label_value :: "string \<Rightarrow> bool"

definition hex_digit :: "nat \<Rightarrow> char" where
  "hex_digit d = (if d < 10 then digit_char d else char_of (87 + d))"

definition hex_encode :: "string \<Rightarrow> string" where
  "hex_encode s = concat (map (\<lambda>c. [hex_digit (of_char c div 16), hex_digit (of_char c mod 16)]) s)"

datatype spec_error = EmptyNode | BadVolumeID | IncompleteCredentials | BadStagingPath

definition validate_spec :: "'q spec \<Rightarrow> spec_error + unit" where
  "validate_spec s =
     (if node_name s = [] then Inl EmptyNode
      else if volume_id s = [] \<or> volume_id s = ''.'' \<or> volume_id s = ''..'' \<or>
          CHR ''/'' \<in> set (volume_id s) \<or> CHR 0x00 \<in> set (volume_id s) then Inl BadVolumeID
      else if token (spec_credentials s) = [] \<or> passphrase (spec_credentials s) = []
        then Inl IncompleteCredentials
      else Inr ())"

definition mount_pod_name :: "'q codec \<Rightarrow> string \<Rightarrow> string \<Rightarrow> string" where
  "mount_pod_name C node volume =
     name_prefix @ hex_encode (take 8 (sha256 C (node @ CHR 0x00 # volume)))"

definition is_label_char :: "char \<Rightarrow> bool" where
  "is_label_char c \<longleftrightarrow>
     (let n = (of_char c :: nat)
      in 97 \<le> n \<and> n \<le> 122 \<or> 65 \<le> n \<and> n \<le> 90 \<or> 48 \<le> n \<and> n \<le> 57 \<or>
         c = CHR ''-'' \<or> c = CHR ''_'' \<or> c = CHR ''.'')"

definition label_value_max_length :: nat where "label_value_max_length = 63"

definition label_value :: "'q codec \<Rightarrow> string \<Rightarrow> string" where
  "label_value C v =
     (if valid_label_value C v then v
      else let sum = sha256 C v;
               pre = take (label_value_max_length - 17)
                 (map (\<lambda>c. if is_label_char c then c else CHR ''_'') v);
               head = trim_left pre ''-_.''
           in trim_left (head @ CHR ''-'' # hex_encode (take 8 sum)) ''-'')"

definition config_hash :: "'q codec \<Rightarrow> 'q spec \<Rightarrow> 'q resource_requirements \<Rightarrow> string \<Rightarrow> string" where
  "config_hash C s res img =
     hex_encode (take 16 (sha256 C (json_config C
       \<lparr>hc_token = token (spec_credentials s), hc_passphrase = passphrase (spec_credentials s),
        hc_cache = spec_cache s, hc_uid = spec_uid s, hc_gid = spec_gid s,
        hc_options = spec_options s, hc_resources = res, hc_image = img\<rparr>)))"

subsection \<open>The configuration\<close>

datatype env_value = Literal string | FromSecret string string

record env_var =
  env_name :: string
  env_value :: env_value

record 'q config = restart_config +
  cfg_namespace :: string
  cfg_image :: string
  cfg_cli_version :: string
  cfg_pull_policy :: string
  cfg_pull_secrets :: "string list"
  cfg_extra_env :: "env_var list"
  cfg_host_aliases :: "(string \<times> string list) list"
  cfg_host_pid :: bool
  cfg_resources :: "'q resource_requirements"
  cfg_priority_class :: string
  cfg_kubelet_dir :: string
  cfg_spool_root :: string
  cfg_drain_timeout :: int
  cfg_metrics_port :: int

subsection \<open>Resources\<close>

definition assign_all :: "'q gomap \<Rightarrow> 'q gomap \<Rightarrow> 'q gomap" where
  "assign_all out l = foldl (\<lambda>m (name, q). AList.update name q m) out l"

text \<open>The last loop, over the merged limits.\<close>

definition lower_request ::
  "'q codec \<Rightarrow> 'q gomap \<Rightarrow> 'q gomap \<Rightarrow> string \<times> 'q \<Rightarrow> 'q gomap" where
  "lower_request C explicit reqs nl =
     (case nl of (name, limit) \<Rightarrow>
       (case map_of reqs name of
          None \<Rightarrow> reqs
        | Some req \<Rightarrow>
            if map_of explicit name = None \<and> 0 < quantity_cmp C req limit
            then AList.update name limit reqs else reqs))"

definition merged_resources ::
  "'q codec \<Rightarrow> 'q config \<Rightarrow> 'q spec \<Rightarrow> 'q resource_requirements" where
  "merged_resources C cfg s =
     (let reqs = assign_all (assign_all [] (requests (cfg_resources cfg))) (requests (spec_resources s));
          lims = assign_all (assign_all [] (limits (cfg_resources cfg))) (limits (spec_resources s))
      in \<lparr>requests = foldl (lower_request C (requests (spec_resources s))) reqs lims,
          limits = lims\<rparr>)"

definition spec_config_hash :: "'q codec \<Rightarrow> 'q config \<Rightarrow> 'q spec \<Rightarrow> string" where
  "spec_config_hash C cfg s = config_hash C s (merged_resources C cfg s) (cfg_image cfg)"

subsection \<open>The command line\<close>

definition mount_args :: "'q config \<Rightarrow> 'q spec \<Rightarrow> string list" where
  "mount_args cfg s =
     (let opt = spec_options s
      in [''fs'', ''mount'', ''retyc://'' @ volume_id s,
          path_join [pod_staging_dir, path_base (staging_path s)],
          ''--allow-other'',
          ''--uid='' @ show_nat (unat (spec_uid s)),
          ''--gid='' @ show_nat (unat (spec_gid s)),
          ''--spool-dir='' @ pod_spool_dir,
          ''--metrics-addr=0.0.0.0:'' @ show_int (cfg_metrics_port cfg),
          ''--drain-timeout='' @ format_duration (cfg_drain_timeout cfg)] @
         (if 0 < cache_ttl opt then [''--cache-ttl='' @ format_duration (cache_ttl opt)] else []) @
         (if background_delete opt then [''--background-delete''] else []) @
         (if unsafe_write opt then [''--unsafe-write''] else []) @
         (if opt_read_only opt then [''--read-only''] else []) @
         map (\<lambda>p. ''--local-file='' @ p)
           (case local_file opt of None \<Rightarrow> [] | Some ps \<Rightarrow> ps) @
         (if redis_url (spec_cache s) \<noteq> [] then
            ''--cache-store=redis'' #
            (if high_confidentiality (spec_cache s) then [''--cache-redis-high-confidentiality''] else [])
          else []))"

subsection \<open>Metadata, Secret and pod\<close>

record owner_reference =
  ow_api_version :: string
  ow_kind :: string
  ow_name :: string
  ow_uid :: string

record object_meta =
  om_name :: string
  om_namespace :: string
  om_uid :: string
  om_labels :: "string gomap"
  om_annotations :: "string gomap"
  om_finalizers :: "string list"
  om_owners :: "owner_reference list"
  om_deletion :: "int option"

definition spec_annotation :: "'q codec \<Rightarrow> 'q spec \<Rightarrow> string" where
  "spec_annotation C s =
     json_stored C \<lparr>stored_uid = spec_uid s, stored_gid = spec_gid s,
       stored_options = spec_options s, stored_resources = spec_resources s\<rparr>"

definition object_meta_of :: "'q codec \<Rightarrow> 'q config \<Rightarrow> 'q spec \<Rightarrow> string \<Rightarrow> object_meta" where
  "object_meta_of C cfg s hash =
     \<lparr>om_name = mount_pod_name C (node_name s) (volume_id s),
      om_namespace = cfg_namespace cfg, om_uid = [],
      om_labels =
        [(label_app, app_name), (label_managed_by, managed_by),
         (label_volume, label_value C (volume_id s)), (label_node, label_value C (node_name s)),
         (label_pvc, label_value C (pvc_name s)),
         (label_namespace, label_value C (pvc_namespace s))],
      om_annotations =
        [(label_volume, volume_id s), (label_node, node_name s), (label_pvc, pvc_name s),
         (label_namespace, pvc_namespace s), (annotation_config_hash, hash),
         (annotation_cli_version, cfg_cli_version cfg), (annotation_staging_path, staging_path s),
         (annotation_spec, spec_annotation C s)],
      om_finalizers = [], om_owners = [], om_deletion = None\<rparr>"

record secret =
  sec_meta :: object_meta
  sec_type :: string
  sec_data :: "string gomap"

definition suffix_chars :: string where
  "suffix_chars = ''abcdefghijklmnopqrstuvwxyz0123456789''"

text \<open>The draws of \<open>rand.IntN(len(chars))\<close>, one for each byte.\<close>

definition random_suffix :: "(nat \<Rightarrow> nat) \<Rightarrow> string" where
  "random_suffix draw = map (\<lambda>i. suffix_chars ! draw i) [0..<8]"

definition build_secret ::
  "'q codec \<Rightarrow> 'q config \<Rightarrow> (nat \<Rightarrow> nat) \<Rightarrow> 'q spec \<Rightarrow> string \<Rightarrow> secret" where
  "build_secret C cfg draw s hash =
     (let data = [(token_key, token (spec_credentials s)),
                  (passphrase_key, passphrase (spec_credentials s))] @
                 (if redis_url (spec_cache s) \<noteq> []
                  then [(secret_redis_url, redis_url (spec_cache s))] else []);
          meta = object_meta_of C cfg s hash
      in \<lparr>sec_meta = meta\<lparr>om_name := om_name meta @ CHR ''-'' # random_suffix draw\<rparr>,
          sec_type = ''Opaque'', sec_data = data\<rparr>)"

datatype host_path_type = DirectoryOrCreate | Directory | CharDevice

datatype volume_source = HostPath string host_path_type | EmptyDir

record pod_volume =
  pv_name :: string
  pv_source :: volume_source

record volume_mount =
  vm_name :: string
  vm_path :: string
  vm_bidirectional :: bool

record container_port =
  cp_name :: string
  cp_port :: int
  cp_protocol :: string

record http_probe =
  pr_path :: string
  pr_port :: string
  pr_period :: int
  pr_failures :: int

record 'q container =
  co_name :: string
  co_image :: string
  co_pull_policy :: string
  co_args :: "string list"
  co_env :: "env_var list"
  co_resources :: "'q resource_requirements"
  co_ports :: "container_port list"
  co_readiness :: http_probe
  co_message_policy :: string
  co_privileged :: bool
  co_user :: int
  co_group :: int
  co_mounts :: "volume_mount list"

record 'q pod_spec =
  ps_node :: string
  ps_tolerations :: "string list"
  ps_priority_class :: string
  ps_restart_policy :: string
  ps_grace :: int
  ps_host_pid :: bool
  ps_host_aliases :: "(string \<times> string list) list"
  ps_pull_secrets :: "string list"
  ps_automount_token :: bool
  ps_service_links :: bool
  ps_containers :: "'q container list"
  ps_volumes :: "pod_volume list"

text \<open>The status kubelet writes; a container state has at most one of the three in practice.\<close>

record terminated_state =
  te_exit_code :: int
  te_reason :: string
  te_message :: string
  te_started :: int
  te_finished :: int

record container_status =
  cs_name :: string
  cs_terminated :: "terminated_state option"
  cs_waiting :: "(string \<times> string) option"
  cs_running :: "int option"

record pod_condition =
  pc_type :: string
  pc_status :: string
  pc_transition :: int

record pod_status =
  pst_phase :: string
  pst_reason :: string
  pst_message :: string
  pst_ip :: string
  pst_conditions :: "pod_condition list"
  pst_containers :: "container_status list"

record 'q pod =
  pod_meta :: object_meta
  pod_spec_of :: "'q pod_spec"
  pod_status_of :: pod_status

definition no_status :: pod_status where
  "no_status = \<lparr>pst_phase = [], pst_reason = [], pst_message = [], pst_ip = [],
     pst_conditions = [], pst_containers = []\<rparr>"

definition spool_host_path :: "'q config \<Rightarrow> string \<Rightarrow> string" where
  "spool_host_path cfg volume = path_join [cfg_spool_root cfg, volume]"

definition secret_env :: "string \<Rightarrow> string \<Rightarrow> env_var" where
  "secret_env secret_name key = \<lparr>env_name = key, env_value = FromSecret secret_name key\<rparr>"

definition pod_env :: "'q config \<Rightarrow> 'q spec \<Rightarrow> string \<Rightarrow> env_var list" where
  "pod_env cfg s secret_name =
     [secret_env secret_name token_key, secret_env secret_name passphrase_key,
      \<lparr>env_name = config_dir_key, env_value = Literal pod_config_dir\<rparr>,
      \<lparr>env_name = keyring_enabled_key, env_value = Literal ''false''\<rparr>] @
     (if redis_url (spec_cache s) \<noteq> [] then [secret_env secret_name secret_redis_url] else []) @
     cfg_extra_env cfg"

text \<open>\<open>int32\<close> of an \<open>int\<close>.\<close>

definition wrap32 :: "int \<Rightarrow> int" where
  "wrap32 x = (x + 2 ^ 31) mod 2 ^ 32 - 2 ^ 31"

definition build_pod :: "'q codec \<Rightarrow> 'q config \<Rightarrow> 'q spec \<Rightarrow> string \<Rightarrow> string \<Rightarrow> 'q pod" where
  "build_pod C cfg s hash secret_name =
     (let meta = object_meta_of C cfg s hash;
          annotations = AList.update annotation_do_not_disrupt ''true''
            (AList.update annotation_safe_to_evict ''false''
              (AList.update annotation_secret secret_name (om_annotations meta)))
      in \<lparr>pod_meta = meta\<lparr>om_finalizers := [finalizer_in_use], om_annotations := annotations\<rparr>,
          pod_spec_of =
           \<lparr>ps_node = node_name s, ps_tolerations = [''Exists''],
            ps_priority_class = cfg_priority_class cfg, ps_restart_policy = ''Never'',
            ps_grace = wrap64 (cfg_drain_timeout cfg + termination_margin) sdiv seconds 1,
            ps_host_pid = cfg_host_pid cfg, ps_host_aliases = cfg_host_aliases cfg,
            ps_pull_secrets = cfg_pull_secrets cfg,
            ps_automount_token = False, ps_service_links = False,
            ps_containers =
             [\<lparr>co_name = container_name, co_image = cfg_image cfg,
               co_pull_policy = cfg_pull_policy cfg, co_args = mount_args cfg s,
               co_env = pod_env cfg s secret_name, co_resources = merged_resources C cfg s,
               co_ports = [\<lparr>cp_name = metrics_port_name, cp_port = wrap32 (cfg_metrics_port cfg),
                            cp_protocol = ''TCP''\<rparr>],
               co_readiness = \<lparr>pr_path = ''/readyz'', pr_port = metrics_port_name,
                               pr_period = 5, pr_failures = 1\<rparr>,
               co_message_policy = ''FallbackToLogsOnError'',
               co_privileged = True, co_user = 0, co_group = 0,
               co_mounts =
                [\<lparr>vm_name = ''staging'', vm_path = pod_staging_dir, vm_bidirectional = True\<rparr>,
                 \<lparr>vm_name = ''spool'', vm_path = pod_spool_dir, vm_bidirectional = False\<rparr>,
                 \<lparr>vm_name = ''config'', vm_path = pod_config_dir, vm_bidirectional = False\<rparr>,
                 \<lparr>vm_name = ''fuse'', vm_path = dev_fuse, vm_bidirectional = False\<rparr>]\<rparr>],
            ps_volumes =
             [\<lparr>pv_name = ''staging'', pv_source = HostPath (path_dir (staging_path s)) DirectoryOrCreate\<rparr>,
              \<lparr>pv_name = ''spool'', pv_source = HostPath (spool_host_path cfg (volume_id s)) Directory\<rparr>,
              \<lparr>pv_name = ''config'', pv_source = EmptyDir\<rparr>,
              \<lparr>pv_name = ''fuse'', pv_source = HostPath dev_fuse CharDevice\<rparr>]\<rparr>,
          pod_status_of = no_status\<rparr>)"

subsection \<open>Names\<close>

lemma hex_digit_inj: "a < 16 \<Longrightarrow> b < 16 \<Longrightarrow> hex_digit a = hex_digit b \<longleftrightarrow> a = b"
proof -
  assume a: "a < 16" and b: "b < 16"
  have v: "(of_char (hex_digit d) :: nat) = (if d < 10 then 48 + d else 87 + d)" if "d < 16" for d
    using that by (simp add: hex_digit_def of_digit_char of_char_of)
  show ?thesis
  proof
    assume eq: "hex_digit a = hex_digit b"
    have "(if a < 10 then 48 + a else 87 + a) = (if b < 10 then 48 + b else 87 + b)"
      unfolding v [OF a, symmetric] v [OF b, symmetric] eq by (rule refl)
    then show "a = b" using a b by (auto split: if_splits)
  qed simp
qed

lemma hex_encode_inj: "hex_encode s = hex_encode t \<longleftrightarrow> s = t"
proof (induction s arbitrary: t)
  case Nil
  then show ?case by (cases t) (simp_all add: hex_encode_def)
next
  case (Cons c s)
  show ?case
  proof (cases t)
    case Nil
    then show ?thesis by (simp add: hex_encode_def)
  next
    case t: (Cons d u)
    have lt: "(of_char x :: nat) div 16 < 16" "(of_char x :: nat) mod 16 < 16" for x :: char
      using nat_of_char_less_256 [of x] by (simp_all add: less_mult_imp_div_less)
    have "(of_char c :: nat) div 16 = of_char d div 16 \<and> (of_char c :: nat) mod 16 = of_char d mod 16
        \<longleftrightarrow> (of_char c :: nat) = of_char d"
      by (metis div_mult_mod_eq)
    then show ?thesis
      using Cons.IH [of u] by (auto simp: t hex_encode_def hex_digit_inj lt of_char_eq_iff)
  qed
qed

lemma split_last_inj:
  assumes "c \<notin> set v" and "c \<notin> set v'" and "n @ c # v = n' @ c # v'"
  shows "n = n' \<and> v = v'"
proof -
  have "takeWhile (\<lambda>x. x \<noteq> c) (rev v @ c # rev n) = takeWhile (\<lambda>x. x \<noteq> c) (rev v' @ c # rev n')"
    using arg_cong [OF assms(3), where f = rev] by simp
  then have "v = v'" using assms(1,2) by (simp add: takeWhile_until)
  then show ?thesis using assms(3) by simp
qed

definition name_input :: "'q spec \<Rightarrow> string" where
  "name_input s = node_name s @ CHR 0x00 # volume_id s"

text \<open>
  The name of a mount pod identifies the node and the volume up to collisions of SHA-256: two
  valid specs get one name exactly when they are of the same volume on the same node, or when two
  different texts, the inputs of their hashes, have digests with the same first 64 bits.
\<close>

lemma mount_pod_name_identifies:
  assumes "is_ok (validate_spec s)" and "is_ok (validate_spec t)"
  shows "mount_pod_name C (node_name s) (volume_id s) = mount_pod_name C (node_name t) (volume_id t) \<longleftrightarrow>
    node_name s = node_name t \<and> volume_id s = volume_id t \<or>
    name_input s \<noteq> name_input t \<and>
      take 8 (sha256 C (name_input s)) = take 8 (sha256 C (name_input t))"
proof -
  have "CHR 0x00 \<notin> set (volume_id s)" "CHR 0x00 \<notin> set (volume_id t)"
    using assms by (auto simp: validate_spec_def split: if_splits)
  then have "name_input s = name_input t \<longleftrightarrow> node_name s = node_name t \<and> volume_id s = volume_id t"
    unfolding name_input_def using split_last_inj by metis
  then show ?thesis
    by (auto simp: mount_pod_name_def hex_encode_inj name_input_def)
qed

subsection \<open>Labels\<close>

text \<open>
  What the validation package documents of a label value: at most 63 characters, empty or
  alphanumeric at both ends, with \<open>-\<close>, \<open>_\<close> and \<open>.\<close> between.
\<close>

definition is_alnum :: "char \<Rightarrow> bool" where
  "is_alnum c \<longleftrightarrow> is_label_char c \<and> c \<noteq> CHR ''-'' \<and> c \<noteq> CHR ''_'' \<and> c \<noteq> CHR ''.''"

definition label_syntax :: "string \<Rightarrow> bool" where
  "label_syntax v \<longleftrightarrow> length v \<le> 63 \<and> list_all is_label_char v \<and>
     (v = [] \<or> is_alnum (hd v) \<and> is_alnum (last v))"

lemma is_alnum_hex_digit: "d < 16 \<Longrightarrow> is_alnum (hex_digit d)"
proof -
  assume d: "d < 16"
  have v: "(of_char (hex_digit d) :: nat) = (if d < 10 then 48 + d else 87 + d)"
    using d by (simp add: hex_digit_def of_digit_char of_char_of)
  then have "hex_digit d \<noteq> c" if "c \<in> {CHR ''-'', CHR ''_'', CHR ''.''}" for c
    using that d by (auto split: if_splits)
  then show ?thesis using v d by (simp add: is_alnum_def is_label_char_def Let_def split: if_splits)
qed

lemma hex_encode_alnum: "list_all is_alnum (hex_encode s)"
  using nat_of_char_less_256
  by (induction s) (simp_all add: hex_encode_def is_alnum_hex_digit less_mult_imp_div_less)

lemma length_hex_encode [simp]: "length (hex_encode s) = 2 * length s"
  by (induction s) (simp_all add: hex_encode_def)

lemma is_label_char_alnum: "is_alnum c \<Longrightarrow> is_label_char c"
  by (simp add: is_alnum_def)

lemma is_label_char_marks [simp]:
  "is_label_char (CHR ''-'')" "is_label_char (CHR ''_'')" "is_label_char (CHR ''.'')"
  by (simp_all add: is_label_char_def)

lemma trim_left_head: "trim_left s cut_set = c # t \<Longrightarrow> c \<notin> set cut_set"
  by (metis hd_dropWhile list.sel(1) list.simps(3) trim_left_def)

lemma set_trim_left: "set (trim_left s cut_set) \<subseteq> set s"
  by (auto simp: trim_left_def dest: set_dropWhileD)

lemma length_trim_left: "length (trim_left s cut_set) \<le> length s"
  by (simp add: trim_left_def length_dropWhile_le)

lemma label_syntax_made:
  assumes head: "list_all is_label_char h" "length h \<le> 46" "h \<noteq> [] \<Longrightarrow> is_alnum (hd h)"
    and hex: "list_all is_alnum x" "length x = 16"
  shows "label_syntax (trim_left (h @ CHR ''-'' # x) ''-'')"
proof (cases h)
  case Nil
  have x: "x \<noteq> []" using hex(2) by auto
  then have "is_alnum (hd x)" "is_alnum (last x)" using hex(1) by (simp_all add: list_all_iff)
  moreover have "hd x \<noteq> CHR ''-''" using \<open>is_alnum (hd x)\<close> by (auto simp: is_alnum_def)
  ultimately show ?thesis
    using Nil hex x
    by (cases x) (auto simp: label_syntax_def trim_left_def list_all_iff is_label_char_alnum)
next
  case (Cons c t)
  then have "is_alnum c" using head(3) by simp
  then have "trim_left (h @ CHR ''-'' # x) ''-'' = h @ CHR ''-'' # x"
    using Cons by (auto simp: trim_left_def is_alnum_def)
  moreover have "x \<noteq> []" using hex(2) by auto
  ultimately show ?thesis
    using Cons head hex \<open>is_alnum c\<close>
    by (auto simp: label_syntax_def list_all_iff is_label_char_alnum)
qed

text \<open>
  Every label the driver sets is accepted by the API server: for any value, even empty, too long
  or in any characters, \<open>labelValue\<close> returns a valid label value, the value itself when it is one.
\<close>

lemma label_value_valid:
  assumes "valid_label_value C = label_syntax" and "length (sha256 C v) = 32"
  shows "label_syntax (label_value C v) \<and> (label_syntax v \<longrightarrow> label_value C v = v)"
proof (cases "label_syntax v")
  case True
  then show ?thesis by (simp add: label_value_def assms)
next
  case False
  let ?h = "trim_left (take 46 (map (\<lambda>c. if is_label_char c then c else CHR ''_'') v)) ''-_.''"
  let ?m = "map (\<lambda>c. if is_label_char c then c else CHR ''_'') v"
  have "is_label_char c" if "c \<in> set ?m" for c
    using that by auto
  then have chars: "list_all is_label_char ?h"
    using set_trim_left [of "take 46 ?m" "''-_.''"] set_take_subset [of 46 ?m]
    unfolding list_all_iff by blast
  have "is_alnum (hd ?h)" if ne: "?h \<noteq> []"
  proof -
    obtain c t where ct: "?h = c # t" using ne by (cases ?h) auto
    then show ?thesis using trim_left_head [OF ct] chars by (simp add: is_alnum_def)
  qed
  moreover have "length ?h \<le> 46"
    by (rule order_trans [OF length_trim_left]) simp
  ultimately have "label_syntax (trim_left (?h @ CHR ''-'' # hex_encode (take 8 (sha256 C v))) ''-'')"
    using chars assms(2) by (intro label_syntax_made) (simp_all add: hex_encode_alnum)
  then show ?thesis using False
    by (simp add: label_value_def assms(1) label_value_max_length_def Let_def)
qed

subsection \<open>Resources\<close>

definition distinct_keys :: "'v gomap \<Rightarrow> bool" where
  "distinct_keys m \<longleftrightarrow> distinct (map fst m)"

lemma distinct_keys_update: "distinct_keys m \<Longrightarrow> distinct_keys (AList.update k v m)"
  by (simp add: distinct_keys_def distinct_update)

lemma assign_all_map:
  "distinct_keys l \<Longrightarrow> map_of (assign_all out l) = map_of out ++ map_of l"
proof (induction l arbitrary: out)
  case (Cons p l)
  obtain k v where p: "p = (k, v)" by (cases p)
  have "k \<notin> dom (map_of l)" using Cons.prems p by (simp add: distinct_keys_def dom_map_of_conv_image_fst)
  then show ?case
    using Cons p
    by (auto simp: assign_all_def distinct_keys_def update_conv' fun_eq_iff map_add_def domIff
        split: option.split)
qed (simp add: assign_all_def)

lemma assign_all_distinct: "distinct_keys out \<Longrightarrow> distinct_keys (assign_all out l)"
  by (induction l arbitrary: out) (auto simp: assign_all_def distinct_keys_update)

definition lowered :: "'q codec \<Rightarrow> 'q gomap \<Rightarrow> 'q gomap \<Rightarrow> string \<Rightarrow> 'q \<Rightarrow> 'q" where
  "lowered C explicit lims n r =
     (case map_of lims n of
        Some l \<Rightarrow> if map_of explicit n = None \<and> 0 < quantity_cmp C r l then l else r
      | None \<Rightarrow> r)"

lemma lower_request_step:
  "map_of (lower_request C explicit reqs (k, l)) n =
     (if n = k then map_option (\<lambda>r. if map_of explicit k = None \<and> 0 < quantity_cmp C r l then l else r)
        (map_of reqs k)
      else map_of reqs n)"
  by (auto simp: lower_request_def update_conv' split: option.split)

lemma lower_requests_map:
  "distinct_keys lims \<Longrightarrow>
   map_of (foldl (lower_request C explicit) reqs lims) n
     = map_option (lowered C explicit lims n) (map_of reqs n)"
proof (induction lims arbitrary: reqs)
  case Nil
  then show ?case by (simp add: lowered_def option.map_ident)
next
  case (Cons p lims)
  obtain k v where p: "p = (k, v)" by (cases p)
  have k: "map_of lims k = None" using Cons.prems p by (simp add: distinct_keys_def map_of_eq_None_iff)
  have d: "distinct_keys lims" using Cons.prems p by (simp add: distinct_keys_def)
  have "map_of (foldl (lower_request C explicit) reqs (p # lims)) n
      = map_option (lowered C explicit lims n) (map_of (lower_request C explicit reqs (k, v)) n)"
    using Cons.IH [OF d] p by simp
  also have "\<dots> = map_option (lowered C explicit (p # lims) n) (map_of reqs n)"
    using k p by (cases "map_of reqs n") (auto simp: lower_request_step lowered_def)
  finally show ?case .
qed

definition default_request :: "'q codec \<Rightarrow> 'q option \<Rightarrow> 'q \<Rightarrow> 'q" where
  "default_request C limit d =
     (case limit of None \<Rightarrow> d | Some l \<Rightarrow> if 0 < quantity_cmp C d l then l else d)"

text \<open>
  The resources of a mount container, whatever order Go ranges over the four maps in: a limit is
  the claim's, else the configured one; a request is the claim's as it is, else the configured
  one, lowered to the limit when it is above it.
\<close>

lemma merged_resources_exact:
  assumes "distinct_keys (requests (cfg_resources cfg))" "distinct_keys (requests (spec_resources s))"
    and "distinct_keys (limits (cfg_resources cfg))" "distinct_keys (limits (spec_resources s))"
  shows "map_of (limits (merged_resources C cfg s)) n =
      (case map_of (limits (spec_resources s)) n of
         Some q \<Rightarrow> Some q | None \<Rightarrow> map_of (limits (cfg_resources cfg)) n) \<and>
    map_of (requests (merged_resources C cfg s)) n =
      (case map_of (requests (spec_resources s)) n of
         Some q \<Rightarrow> Some q
       | None \<Rightarrow> map_option (default_request C (map_of (limits (merged_resources C cfg s)) n))
                   (map_of (requests (cfg_resources cfg)) n))"
proof -
  have e: "distinct_keys []" by (simp add: distinct_keys_def)
  note d = assign_all_distinct [OF assign_all_distinct [OF e]]
  show ?thesis
    by (auto simp: merged_resources_def Let_def lower_requests_map d assign_all_map assms
        lowered_def default_request_def map_add_def option.map_comp intro!: option.map_cong
        split: option.split)
qed

subsection \<open>The command line\<close>

definition patterns :: "mount_options \<Rightarrow> string list" where
  "patterns opt = (case local_file opt of None \<Rightarrow> [] | Some ps \<Rightarrow> ps)"

lemma path_base_nonempty: "path_base p \<noteq> []"
  by (simp add: path_base_def Let_def dot_def)

lemma mount_point_abs: "\<exists>t. path_join [pod_staging_dir, path_base p] = CHR ''/'' # t"
proof -
  have "path_join [pod_staging_dir, path_base p] = path_clean (pod_staging_dir @ CHR ''/'' # path_base p)"
    by (simp add: path_join_def path_base_nonempty pod_staging_dir_def)
  moreover have "path_is_abs (pod_staging_dir @ CHR ''/'' # path_base p)"
    by (simp add: path_is_abs_def pod_staging_dir_def)
  ultimately show ?thesis using path_clean_rooted by (metis rooted_path_def)
qed

text \<open>
  The command line says the mount options and nothing else: after the volume and the mount point
  every argument is a flag, so that no pattern of a claim is taken for another flag or a mount
  point; each boolean flag is there exactly when its option is set, and the patterns are passed
  as they are, in order.
\<close>

lemma mount_args_flags:
  "list_all (\<lambda>a. has_prefix a ''--'') (drop 4 (mount_args cfg s)) \<and>
   filter (\<lambda>a. has_prefix a ''--local-file='') (mount_args cfg s)
     = map (\<lambda>p. ''--local-file='' @ p) (patterns (spec_options s)) \<and>
   (''--read-only'' \<in> set (mount_args cfg s) \<longleftrightarrow> opt_read_only (spec_options s)) \<and>
   (''--unsafe-write'' \<in> set (mount_args cfg s) \<longleftrightarrow> unsafe_write (spec_options s)) \<and>
   (''--background-delete'' \<in> set (mount_args cfg s) \<longleftrightarrow> background_delete (spec_options s))"
proof -
  obtain t where "path_join [pod_staging_dir, path_base (staging_path s)] = CHR ''/'' # t"
    using mount_point_abs by blast
  then show ?thesis
    by (auto simp: mount_args_def Let_def has_prefix_def patterns_def comp_def list_all_iff
        split: option.split)
qed

subsection \<open>A concrete volume\<close>

text \<open>
  The witnesses: quantities are integers, and a digest is the first bytes of the text, padded.
\<close>

definition demo_stored :: "int stored_spec" where
  "demo_stored = \<lparr>stored_uid = 7, stored_gid = 8, stored_options = no_options\<lparr>opt_read_only := True\<rparr>,
     stored_resources = \<lparr>requests = [], limits = [(''memory'', 100)]\<rparr>\<rparr>"

definition demo_codec :: "int codec" where
  "demo_codec =
     \<lparr>sha256 = \<lambda>s. take 32 (s @ replicate 32 (CHR ''x'')), json_config = \<lambda>c. hc_token c @ hc_image c,
      json_stored = \<lambda>s. if s = demo_stored then ''demo'' else [],
      parse_stored = \<lambda>t. if t = ''demo'' then Some demo_stored else None,
      quantity_cmp = \<lambda>a b. a - b, valid_label_value = label_syntax\<rparr>"

definition demo_config :: "int config" where
  "demo_config =
     \<lparr>restart_backoff = seconds 5, max_restart_backoff = seconds 300, stable_after = seconds 60,
      max_fatal_exits = 3, cfg_namespace = ''retyc'', cfg_image = ''cli:1.2'', cfg_cli_version = ''1.2'',
      cfg_pull_policy = [], cfg_pull_secrets = [], cfg_extra_env = [], cfg_host_aliases = [],
      cfg_host_pid = False,
      cfg_resources = \<lparr>requests = [(''cpu'', 50), (''memory'', 256)], limits = [(''memory'', 512)]\<rparr>,
      cfg_priority_class = ''system-node-critical'', cfg_kubelet_dir = ''/var/lib/kubelet'',
      cfg_spool_root = ''/spool'', cfg_drain_timeout = seconds 300, cfg_metrics_port = 9567\<rparr>"

definition demo_spec :: "int spec" where
  "demo_spec =
     \<lparr>volume_id = ''d1'', node_name = ''n1'', pvc_name = ''data'', pvc_namespace = ''default'',
      staging_path = ''/var/lib/kubelet/plugins/csi/globalmount'',
      spec_credentials = \<lparr>token = ''t'', passphrase = ''p''\<rparr>,
      spec_cache = \<lparr>redis_url = [], high_confidentiality = False\<rparr>,
      spec_uid = 7, spec_gid = 8, spec_options = no_options\<lparr>opt_read_only := True\<rparr>,
      spec_resources = \<lparr>requests = [], limits = [(''memory'', 100)]\<rparr>\<rparr>"

lemma demo_spec_valid: "is_ok (validate_spec demo_spec)"
  by (simp add: validate_spec_def demo_spec_def)

theorem mount_pod_name_identifies_witness:
  "mount_pod_name demo_codec ''n1'' ''d1'' \<noteq> mount_pod_name demo_codec ''n1'' ''d2''"
proof -
  have "is_ok (validate_spec (demo_spec\<lparr>volume_id := ''d2''\<rparr>))"
    by (simp add: validate_spec_def demo_spec_def)
  from mount_pod_name_identifies [OF demo_spec_valid this, of demo_codec] show ?thesis
    by (simp add: demo_spec_def name_input_def demo_codec_def)
qed

theorem label_value_valid_witness:
  "label_syntax (label_value demo_codec (replicate 70 (CHR '' '')))"
  using label_value_valid [of demo_codec "replicate 70 (CHR '' '')"]
  by (simp add: demo_codec_def)

theorem merged_resources_exact_witness:
  "map_of (requests (merged_resources demo_codec demo_config demo_spec)) ''memory'' = Some 100"
proof -
  have d: "distinct_keys (requests (cfg_resources demo_config))"
    "distinct_keys (requests (spec_resources demo_spec))"
    "distinct_keys (limits (cfg_resources demo_config))"
    "distinct_keys (limits (spec_resources demo_spec))"
    by (simp_all add: distinct_keys_def demo_config_def demo_spec_def)
  from merged_resources_exact [OF d, of demo_codec "''memory''"] show ?thesis
    by (simp add: demo_config_def demo_spec_def default_request_def demo_codec_def)
qed

end
