(* ===== verification/Manager.thy ===== *)
theory Manager
  imports Mount_Pod Csi_Types
begin

text \<open>
  The \<open>Manager\<close> of the mount pods (internal/mountpod/manager.go): the state of a pod as read from its
  object, and \<open>Ensure\<close>, \<open>Delete\<close>, \<open>SpecOf\<close>, \<open>Ready\<close> and \<open>List\<close> as programs in the state monad over the
  restart states (Backoff) and a world. The Kubernetes API, the \<open>Prepare\<close> hook, the clock, the random
  source and the HTTP client are the fields of \<open>cluster\<close>, operations of that world. As in the code
  a call returns a state and an error, both.
\<close>

record ('w, 'q) cluster =
  k_get_pod :: "string \<Rightarrow> string \<Rightarrow> ('w, api_failure + 'q pod) state"
  k_list_pods :: "string \<Rightarrow> string gomap \<Rightarrow> ('w, api_failure + 'q pod list) state"
  k_create_pod :: "string \<Rightarrow> 'q pod \<Rightarrow> ('w, api_failure + 'q pod) state"
  k_delete_pod :: "string \<Rightarrow> string \<Rightarrow> string \<Rightarrow> int option \<Rightarrow> ('w, api_failure + unit) state"
  k_patch_finalizers ::
    "string \<Rightarrow> string \<Rightarrow> string list \<Rightarrow> string list \<Rightarrow> ('w, api_failure + unit) state"
  k_get_secret :: "string \<Rightarrow> string \<Rightarrow> ('w, api_failure + secret) state"
  k_list_secrets :: "string \<Rightarrow> string gomap \<Rightarrow> ('w, api_failure + secret list) state"
  k_create_secret :: "string \<Rightarrow> secret \<Rightarrow> ('w, api_failure + secret) state"
  k_delete_secret :: "string \<Rightarrow> string \<Rightarrow> ('w, api_failure + unit) state"
  k_patch_owner :: "string \<Rightarrow> string \<Rightarrow> owner_reference \<Rightarrow> ('w, api_failure + unit) state"
  k_prepare :: "('q spec \<Rightarrow> ('w, string + unit) state) option"
  k_clock :: "('w, int) state"
  k_rand :: "('w, int \<Rightarrow> int) state"
  k_suffix :: "('w, nat \<Rightarrow> nat) state"
  k_http_status :: "string \<Rightarrow> ('w, string + int) state"

text \<open>What the Manager keeps, and the world around it.\<close>

record 'w node =
  node_backoffs :: backoffs
  node_world :: 'w

definition on_world :: "('w, 'a) state \<Rightarrow> ('w node, 'a) state" where
  "on_world m = State (\<lambda>s. case run_state m (node_world s) of (x, w) \<Rightarrow> (x, s\<lparr>node_world := w\<rparr>))"

definition on_backoffs :: "(backoffs \<Rightarrow> 'a \<times> backoffs) \<Rightarrow> ('w node, 'a) state" where
  "on_backoffs f =
     State (\<lambda>s. case f (node_backoffs s) of (x, b) \<Rightarrow> (x, s\<lparr>node_backoffs := b\<rparr>))"

definition update_backoffs :: "(backoffs \<Rightarrow> backoffs) \<Rightarrow> ('w node, unit) state" where
  "update_backoffs f = on_backoffs (\<lambda>b. ((), f b))"

definition stuck_after :: int where "stuck_after = seconds 60"

subsection \<open>Configuration\<close>

text \<open>\<open>setDefault\<close>, \<open>imageTag\<close> and the defaults of \<open>New\<close>, with \<open>DefaultResources\<close> as an argument.\<close>

definition set_default :: "'a \<Rightarrow> 'a \<Rightarrow> 'a \<Rightarrow> 'a" where
  "set_default zero v d = (if v = zero then d else v)"

definition last_index :: "string \<Rightarrow> char \<Rightarrow> int" where
  "last_index s c = int (length s) - 1 - int (length (takeWhile (\<lambda>x. x \<noteq> c) (rev s)))"

definition image_tag :: "string \<Rightarrow> string" where
  "image_tag img =
     (let name = fst (cut img (CHR ''@'')); i = last_index name (CHR '':'')
      in if last_index name (CHR ''/'') < i then drop (nat (i + 1)) name else [])"

definition default_metrics_port :: int where "default_metrics_port = 9567"

definition new_config :: "'q resource_requirements \<Rightarrow> 'q config \<Rightarrow> 'q config" where
  "new_config default_resources cfg = cfg\<lparr>
     cfg_cli_version := (if cfg_cli_version cfg = [] then image_tag (cfg_image cfg) else cfg_cli_version cfg),
     cfg_resources :=
       (if requests (cfg_resources cfg) = [] \<and> limits (cfg_resources cfg) = [] then default_resources
        else cfg_resources cfg),
     cfg_priority_class := set_default [] (cfg_priority_class cfg) ''system-node-critical'',
     cfg_kubelet_dir := set_default [] (cfg_kubelet_dir cfg) ''/var/lib/kubelet'',
     cfg_spool_root := set_default [] (cfg_spool_root cfg) ''/var/lib/retycfs-csi/spool'',
     cfg_drain_timeout := set_default 0 (cfg_drain_timeout cfg) (seconds 300),
     cfg_metrics_port := set_default 0 (cfg_metrics_port cfg) default_metrics_port,
     restart_backoff := set_default 0 (restart_backoff cfg) (seconds 5),
     max_restart_backoff := set_default 0 (max_restart_backoff cfg) (seconds 300),
     stable_after := set_default 0 (stable_after cfg) (seconds 60),
     max_fatal_exits := set_default 0 (max_fatal_exits cfg) 3\<rparr>"

definition check_staging_path :: "'q config \<Rightarrow> string \<Rightarrow> spec_error + unit" where
  "check_staging_path cfg p =
     (let plugins = path_join [cfg_kubelet_dir cfg, ''plugins'']
      in if \<not> path_is_abs p \<or> path_clean p \<noteq> p \<or> \<not> has_prefix (path_dir p) (plugins @ ''/'')
         then Inl BadStagingPath else Inr ())"

subsection \<open>The state of a pod\<close>

datatype phase =
  NoPhase | PhaseAbsent | PhasePending | PhaseRunning | PhaseTerminating | PhaseExited

record 'q pod_state = exit_state +
  st_name :: string
  st_phase :: phase
  st_pod :: "'q pod option"
  st_volume :: string
  st_node :: string
  st_pvc :: string
  st_pvc_namespace :: string
  st_hash :: string
  st_cli_version :: string
  st_staging :: string
  st_config_changed :: bool
  st_waiting_reason :: string
  st_waiting_message :: string
  st_backoff :: backoff

definition no_state :: "'q pod_state" where
  "no_state = \<lparr>exit_code = None, exit_reason = [], exit_message = [], st_was_ready = False,
     st_name = [], st_phase = NoPhase, st_pod = None, st_volume = [], st_node = [], st_pvc = [],
     st_pvc_namespace = [], st_hash = [], st_cli_version = [], st_staging = [],
     st_config_changed = False, st_waiting_reason = [], st_waiting_message = [],
     st_backoff = no_backoff\<rparr>"

definition pod_annotation :: "'q pod \<Rightarrow> string \<Rightarrow> string" where
  "pod_annotation p key = lookup0 (om_annotations (pod_meta p)) key"

definition statuses :: "'q pod \<Rightarrow> container_status list" where
  "statuses p = pst_containers (pod_status_of p)"

definition terminated :: "'q pod option \<Rightarrow> terminated_state option" where
  "terminated pod =
     (case pod of
        None \<Rightarrow> None
      | Some p \<Rightarrow>
          (case find (\<lambda>cs. cs_name cs = container_name) (statuses p) of
             None \<Rightarrow> None
           | Some cs \<Rightarrow> cs_terminated cs))"

text \<open>The first case of \<open>finished\<close>, which needs no clock.\<close>

definition process_gone :: "'q pod \<Rightarrow> bool" where
  "process_gone p \<longleftrightarrow> terminated (Some p) \<noteq> None \<or> pst_phase (pod_status_of p) = ''Failed'' \<or>
     pst_phase (pod_status_of p) = ''Succeeded'' \<or> pst_reason (pod_status_of p) = ''NodeLost''"

definition finished :: "('w, 'q) cluster \<Rightarrow> 'q pod \<Rightarrow> ('w node, bool) state" where
  "finished K p =
     (if process_gone p then State_Monad.return True
      else case om_deletion (pod_meta p) of
          Some t \<Rightarrow> do {
            now \<leftarrow> on_world (k_clock K);
            State_Monad.return (t + stuck_after < now)
          }
        | None \<Rightarrow> State_Monad.return False)"

definition started_step :: "int \<Rightarrow> container_status \<Rightarrow> int" where
  "started_step started cs =
     (if cs_name cs \<noteq> container_name then started
      else case cs_terminated cs of
          Some t \<Rightarrow> te_started t
        | None \<Rightarrow> (case cs_running cs of Some t \<Rightarrow> t | None \<Rightarrow> started))"

definition was_ready :: "'q pod \<Rightarrow> bool" where
  "was_ready p =
     (let started = foldl started_step zero_time (statuses p)
      in case find (\<lambda>c. pc_type c = ''Ready'') (pst_conditions (pod_status_of p)) of
           None \<Rightarrow> False
         | Some c \<Rightarrow> pc_status c = ''True'' \<or> started \<noteq> zero_time \<and> started < pc_transition c)"

text \<open>The body of the loop of \<open>stateOf\<close> over the container statuses, with the variable \<open>running\<close>.\<close>

definition status_step ::
  "'q pod_state \<times> bool \<Rightarrow> container_status \<Rightarrow> 'q pod_state \<times> bool" where
  "status_step acc cs =
     (case acc of (st, running) \<Rightarrow>
        if cs_name cs \<noteq> container_name then (st, running)
        else case cs_terminated cs of
            Some t \<Rightarrow>
              (let st = st\<lparr>exit_code := Some (te_exit_code t)\<rparr>
               in if te_reason t \<noteq> [] \<or> te_message t \<noteq> []
                  then (st\<lparr>exit_reason := te_reason t, exit_message := te_message t\<rparr>, running)
                  else (st, running))
          | None \<Rightarrow>
              (case cs_waiting cs of
                 Some (r, msg) \<Rightarrow> (st\<lparr>st_waiting_reason := r, st_waiting_message := msg\<rparr>, running)
               | None \<Rightarrow> (st, running \<or> cs_running cs \<noteq> None)))"

definition state_of :: "'q pod \<Rightarrow> 'q pod_state" where
  "state_of p =
     (let st0 = no_state\<lparr>
            st_name := om_name (pod_meta p), st_pod := Some p,
            st_volume := pod_annotation p label_volume, st_node := pod_annotation p label_node,
            st_pvc := pod_annotation p label_pvc,
            st_pvc_namespace := pod_annotation p label_namespace,
            st_hash := pod_annotation p annotation_config_hash,
            st_cli_version := pod_annotation p annotation_cli_version,
            st_staging := pod_annotation p annotation_staging_path,
            exit_reason := pst_reason (pod_status_of p),
            exit_message := pst_message (pod_status_of p)\<rparr>
      in case foldl status_step (st0, False) (statuses p) of (st, running) \<Rightarrow>
           st\<lparr>st_was_ready := was_ready p,
              st_phase :=
                (if om_deletion (pod_meta p) \<noteq> None then PhaseTerminating
                 else if process_gone p then PhaseExited
                 else if running then PhaseRunning else PhasePending)\<rparr>)"

subsection \<open>Operations\<close>

datatype manager_error =
    InvalidSpec spec_error
  | ApiFailed api_failure
  | PrepareFailed string
  | GaveUpError string backoff
  | NothingToRebuild
  | NotReady

type_synonym 'q answer = "'q pod_state \<times> manager_error option"

definition get_state ::
  "('w, 'q) cluster \<Rightarrow> 'q codec \<Rightarrow> 'q config \<Rightarrow> string \<Rightarrow> string \<Rightarrow> ('w node, 'q answer) state" where
  "get_state K C cfg node volume =
     (let name = mount_pod_name C node volume
      in do {
        r \<leftarrow> on_world (k_get_pod K (cfg_namespace cfg) name);
        State_Monad.return (case r of
            Inl ApiNotFound \<Rightarrow>
              (no_state\<lparr>st_name := name, st_phase := PhaseAbsent, st_volume := volume, st_node := node\<rparr>, None)
          | Inl e \<Rightarrow> (no_state, Some (ApiFailed e))
          | Inr p \<Rightarrow> (state_of p, None))
      })"

definition node_selector :: "'q codec \<Rightarrow> string \<Rightarrow> string gomap" where
  "node_selector C node = [(label_managed_by, managed_by), (label_node, label_value C node)]"

definition list_states ::
  "('w, 'q) cluster \<Rightarrow> 'q codec \<Rightarrow> 'q config \<Rightarrow> string \<Rightarrow>
   ('w node, manager_error + 'q pod_state list) state" where
  "list_states K C cfg node = do {
     r \<leftarrow> on_world (k_list_pods K (cfg_namespace cfg) (node_selector C node));
     State_Monad.return (case r of
         Inl e \<Rightarrow> Inl (ApiFailed e)
       | Inr ps \<Rightarrow> Inr (filter (\<lambda>st. st_node st = node) (map state_of ps)))
   }"

definition absent_state :: "'q codec \<Rightarrow> 'q spec \<Rightarrow> backoff \<Rightarrow> 'q pod_state" where
  "absent_state C s b = no_state\<lparr>
     st_name := mount_pod_name C (node_name s) (volume_id s), st_phase := PhaseAbsent,
     st_volume := volume_id s, st_node := node_name s, st_pvc := pvc_name s,
     st_pvc_namespace := pvc_namespace s, st_staging := staging_path s, st_backoff := b\<rparr>"

text \<open>\<open>time.Time.Sub\<close> saturates.\<close>

definition time_sub :: "int \<Rightarrow> int \<Rightarrow> int" where
  "time_sub a b = max (- (2 ^ 63)) (min (2 ^ 63 - 1) (a - b))"

definition count_exit ::
  "('w, 'q) cluster \<Rightarrow> 'q config \<Rightarrow> string \<Rightarrow> string \<Rightarrow> 'q pod_state \<Rightarrow> ('w node, unit) state" where
  "count_exit K cfg volume hash st =
     (if st_hash st \<noteq> hash then State_Monad.return ()
      else let code = (case exit_code st of None \<Rightarrow> - 1 | Some c \<Rightarrow> c);
               lasted = (case terminated (st_pod st) of
                   None \<Rightarrow> 0
                 | Some t \<Rightarrow> if te_started t \<noteq> zero_time then time_sub (te_finished t) (te_started t) else 0);
               uid = (case st_pod st of None \<Rightarrow> [] | Some p \<Rightarrow> om_uid (pod_meta p))
           in do {
             rnd \<leftarrow> on_world (k_rand K);
             now \<leftarrow> on_world (k_clock K);
             update_backoffs (\<lambda>m. snd (record_exit cfg rnd now volume hash (st_staging st) uid code
               (exit_message st) lasted m))
           })"

definition own_secret ::
  "('w, 'q) cluster \<Rightarrow> 'q config \<Rightarrow> 'q pod \<Rightarrow> ('w node, manager_error option) state" where
  "own_secret K cfg p =
     (let name = pod_annotation p annotation_secret; uid = om_uid (pod_meta p)
      in if name = [] then State_Monad.return None
         else do {
           r \<leftarrow> on_world (k_get_secret K (cfg_namespace cfg) name);
           (case r of
              Inl ApiNotFound \<Rightarrow> State_Monad.return None
            | Inl e \<Rightarrow> State_Monad.return (Some (ApiFailed e))
            | Inr sec \<Rightarrow>
                if list_ex (\<lambda>ow. ow_uid ow = uid) (om_owners (sec_meta sec))
                then State_Monad.return None
                else do {
                  q \<leftarrow> on_world (k_patch_owner K (cfg_namespace cfg) name
                    \<lparr>ow_api_version = ''v1'', ow_kind = ''Pod'', ow_name = om_name (pod_meta p),
                     ow_uid = uid\<rparr>);
                  State_Monad.return (case q of Inl e \<Rightarrow> Some (ApiFailed e) | Inr _ \<Rightarrow> None)
                })
         })"

text \<open>\<open>deleteSecret\<close> logs a failure; the loop of \<open>deleteSecrets\<close> over the listed Secrets.\<close>

definition delete_secret ::
  "('w, 'q) cluster \<Rightarrow> 'q config \<Rightarrow> string \<Rightarrow> ('w node, unit) state" where
  "delete_secret K cfg name = do {
     _ \<leftarrow> on_world (k_delete_secret K (cfg_namespace cfg) name);
     State_Monad.return ()
   }"

fun delete_loop ::
  "('w, 'q) cluster \<Rightarrow> 'q config \<Rightarrow> (secret \<Rightarrow> bool) \<Rightarrow> secret list \<Rightarrow> ('w node, unit) state" where
  "delete_loop K cfg skip [] = State_Monad.return ()"
| "delete_loop K cfg skip (s # ss) =
     (if skip s then delete_loop K cfg skip ss
      else do { _ \<leftarrow> delete_secret K cfg (om_name (sec_meta s)); delete_loop K cfg skip ss })"

definition delete_secrets ::
  "('w, 'q) cluster \<Rightarrow> 'q codec \<Rightarrow> 'q config \<Rightarrow> string \<Rightarrow> string \<Rightarrow> bool \<Rightarrow>
   ('w node, manager_error option) state" where
  "delete_secrets K C cfg node volume only_orphans = do {
     r \<leftarrow> on_world (k_list_secrets K (cfg_namespace cfg)
       [(label_managed_by, managed_by), (label_node, label_value C node),
        (label_volume, label_value C volume)]);
     (case r of
        Inl e \<Rightarrow> State_Monad.return (Some (ApiFailed e))
      | Inr ss \<Rightarrow> do {
          _ \<leftarrow> delete_loop K cfg
            (\<lambda>s. lookup0 (om_annotations (sec_meta s)) label_node \<noteq> node \<or>
                 lookup0 (om_annotations (sec_meta s)) label_volume \<noteq> volume \<or>
                 only_orphans \<and> om_owners (sec_meta s) \<noteq> []) ss;
          State_Monad.return None
        })
   }"

text \<open>\<open>RemoveFinalizer\<close>: the pod with its finalizers as the code leaves them in memory.\<close>

definition remove_finalizer ::
  "('w, 'q) cluster \<Rightarrow> 'q pod \<Rightarrow> ('w node, 'q pod \<times> manager_error option) state" where
  "remove_finalizer K p =
     (let fs = om_finalizers (pod_meta p); kept = filter (\<lambda>f. f \<noteq> finalizer_in_use) fs
      in if finalizer_in_use \<notin> set fs then State_Monad.return (p, None)
         else do {
           r \<leftarrow> on_world (k_patch_finalizers K (om_namespace (pod_meta p)) (om_name (pod_meta p)) fs kept);
           State_Monad.return (case r of
               Inl e \<Rightarrow> if e = ApiNotFound
                        then (p\<lparr>pod_meta := (pod_meta p)\<lparr>om_finalizers := kept\<rparr>\<rparr>, None)
                        else (p, Some (ApiFailed e))
             | Inr _ \<Rightarrow> (p\<lparr>pod_meta := (pod_meta p)\<lparr>om_finalizers := kept\<rparr>\<rparr>, None))
         })"

definition release ::
  "('w, 'q) cluster \<Rightarrow> 'q config \<Rightarrow> 'q pod \<Rightarrow> ('w node, 'q pod \<times> manager_error option) state" where
  "release K cfg p = do {
     r \<leftarrow> remove_finalizer K p;
     (case r of
        (p, Some e) \<Rightarrow> State_Monad.return (p, Some e)
      | (p, None) \<Rightarrow> do {
          d \<leftarrow> on_world (k_delete_pod K (cfg_namespace cfg) (om_name (pod_meta p)) (om_uid (pod_meta p)) (Some 0));
          State_Monad.return (case d of
              Inl e \<Rightarrow> if e = ApiNotFound then (p, None) else (p, Some (ApiFailed e))
            | Inr _ \<Rightarrow> (p, None))
        })
   }"

text \<open>\<open>create\<close>, from the call of \<open>Prepare\<close> on.\<close>

definition create_objects ::
  "('w, 'q) cluster \<Rightarrow> 'q codec \<Rightarrow> 'q config \<Rightarrow> 'q spec \<Rightarrow> string \<Rightarrow> ('w node, 'q answer) state" where
  "create_objects K C cfg s hash =
     (let ns = cfg_namespace cfg; name = mount_pod_name C (node_name s) (volume_id s)
      in do {
        prepared \<leftarrow> (case k_prepare K of None \<Rightarrow> State_Monad.return (Inr ()) | Some f \<Rightarrow> on_world (f s));
        (case prepared of
           Inl e \<Rightarrow> State_Monad.return (no_state, Some (PrepareFailed e))
         | Inr _ \<Rightarrow> do {
             swept \<leftarrow> delete_secrets K C cfg (node_name s) (volume_id s) True;
             (case swept of
                Some e \<Rightarrow> State_Monad.return (no_state, Some e)
              | None \<Rightarrow> do {
                  draw \<leftarrow> on_world (k_suffix K);
                  sec \<leftarrow> on_world (k_create_secret K ns (build_secret C cfg draw s hash));
                  (case sec of
                     Inl e \<Rightarrow> State_Monad.return (no_state, Some (ApiFailed e))
                   | Inr sec \<Rightarrow> do {
                       r \<leftarrow> on_world (k_create_pod K ns (build_pod C cfg s hash (om_name (sec_meta sec))));
                       (case r of
                          Inl e \<Rightarrow> do {
                            _ \<leftarrow> delete_secret K cfg (om_name (sec_meta sec));
                            State_Monad.return
                              (if e = ApiAlreadyExists
                               then (no_state\<lparr>st_name := name, st_phase := PhaseTerminating,
                                       st_volume := volume_id s, st_node := node_name s\<rparr>, None)
                               else (no_state, Some (ApiFailed e)))
                          }
                        | Inr p \<Rightarrow> do {
                            b \<leftarrow> on_backoffs (backoff_state (volume_id s) hash);
                            e \<leftarrow> own_secret K cfg p;
                            State_Monad.return ((state_of p)\<lparr>st_backoff := b\<rparr>, e)
                          })
                     })
                })
           })
      })"

definition create_pod ::
  "('w, 'q) cluster \<Rightarrow> 'q codec \<Rightarrow> 'q config \<Rightarrow> 'q spec \<Rightarrow> string \<Rightarrow> ('w node, 'q answer) state" where
  "create_pod K C cfg s hash = do {
     r \<leftarrow> on_world (k_get_pod K (cfg_namespace cfg) (mount_pod_name C (node_name s) (volume_id s)));
     (case r of
        Inr p \<Rightarrow>
          (let st = state_of p
           in State_Monad.return (st\<lparr>st_config_changed := (st_hash st \<noteq> hash)\<rparr>, None))
      | Inl e \<Rightarrow>
          if e \<noteq> ApiNotFound then State_Monad.return (no_state, Some (ApiFailed e))
          else create_objects K C cfg s hash)
   }"

text \<open>
  The switch at the end of \<open>ensureExisting\<close>, and its case of a pod that is finished: \<open>None\<close> when
  the pod was released and a new one is due.
\<close>

definition replace_finished ::
  "('w, 'q) cluster \<Rightarrow> 'q config \<Rightarrow> 'q pod_state \<Rightarrow> backoff \<Rightarrow> 'q pod \<Rightarrow> ('w node, 'q answer option) state" where
  "replace_finished K cfg st b p =
     (if gave_up b then State_Monad.return (Some (st, Some (GaveUpError (st_name st) b)))
      else do {
        now \<leftarrow> on_world (k_clock K);
        (if now < next_restart b then State_Monad.return (Some (st, None))
         else do {
           r \<leftarrow> release K cfg p;
           State_Monad.return (case r of
               (p, Some e) \<Rightarrow> Some (st\<lparr>st_pod := Some p\<rparr>, Some e)
             | (p, None) \<Rightarrow> None)
         })
      })"

definition ensure_switch ::
  "('w, 'q) cluster \<Rightarrow> 'q config \<Rightarrow> 'q pod_state \<Rightarrow> backoff \<Rightarrow> bool \<Rightarrow> 'q pod \<Rightarrow>
   ('w node, 'q answer option) state" where
  "ensure_switch K cfg st b draining p =
     (if draining then State_Monad.return (Some (st, None))
      else if st_phase st = PhaseTerminating \<or> st_phase st = PhaseExited
        then replace_finished K cfg st b p
      else do {
        e \<leftarrow> own_secret K cfg p;
        State_Monad.return (Some (st, e))
      })"

text \<open>\<open>ensureExisting\<close>.\<close>

definition ensure_existing ::
  "('w, 'q) cluster \<Rightarrow> 'q config \<Rightarrow> 'q spec \<Rightarrow> string \<Rightarrow> 'q pod \<Rightarrow> ('w node, 'q answer option) state" where
  "ensure_existing K cfg s hash p =
     (let st = state_of p; st = st\<lparr>st_config_changed := (st_hash st \<noteq> hash)\<rparr>
      in do {
        gone \<leftarrow> finished K p;
        _ \<leftarrow> (if gone then count_exit K cfg (volume_id s) hash st else State_Monad.return ());
        b \<leftarrow> on_backoffs (backoff_state (volume_id s) hash);
        by_hand \<leftarrow> (if gave_up b \<and> om_deletion (pod_meta p) \<noteq> None then finished K p
                   else State_Monad.return False);
        b \<leftarrow> (if by_hand then do {
                 _ \<leftarrow> update_backoffs (start_over (volume_id s) hash);
                 on_backoffs (backoff_state (volume_id s) hash)
               } else State_Monad.return b);
        let st = st\<lparr>st_backoff := b\<rparr>;
        draining \<leftarrow> (if st_phase st = PhaseTerminating then do {
                 f \<leftarrow> finished K p; State_Monad.return (\<not> f)
               } else State_Monad.return False);
        ensure_switch K cfg st b draining p
      })"

text \<open>\<open>Ensure\<close>, once no pod is left.\<close>

definition ensure_new ::
  "('w, 'q) cluster \<Rightarrow> 'q codec \<Rightarrow> 'q config \<Rightarrow> 'q spec \<Rightarrow> string \<Rightarrow> ('w node, 'q answer) state" where
  "ensure_new K C cfg s hash = do {
     b \<leftarrow> on_backoffs (backoff_state (volume_id s) hash);
     (if gave_up b then State_Monad.return (absent_state C s b,
        Some (GaveUpError (mount_pod_name C (node_name s) (volume_id s)) b))
      else do {
        now \<leftarrow> on_world (k_clock K);
        (if now < next_restart b then State_Monad.return (absent_state C s b, None)
         else create_pod K C cfg s hash)
      })
   }"

definition ensure ::
  "('w, 'q) cluster \<Rightarrow> 'q codec \<Rightarrow> 'q config \<Rightarrow> 'q spec \<Rightarrow> ('w node, 'q answer) state" where
  "ensure K C cfg s =
     (case validate_spec s of
        Inl e \<Rightarrow> State_Monad.return (no_state, Some (InvalidSpec e))
      | Inr _ \<Rightarrow>
     (case check_staging_path cfg (staging_path s) of
        Inl e \<Rightarrow> State_Monad.return (no_state, Some (InvalidSpec e))
      | Inr _ \<Rightarrow>
        (let hash = spec_config_hash C cfg s
         in do {
           r \<leftarrow> on_world (k_get_pod K (cfg_namespace cfg) (mount_pod_name C (node_name s) (volume_id s)));
           (case r of
              Inl e \<Rightarrow>
                if e = ApiNotFound then ensure_new K C cfg s hash
                else State_Monad.return (no_state, Some (ApiFailed e))
            | Inr p \<Rightarrow> do {
                x \<leftarrow> ensure_existing K cfg s hash p;
                (case x of
                   Some answer \<Rightarrow> State_Monad.return answer
                 | None \<Rightarrow> ensure_new K C cfg s hash)
              })
         })))"

text \<open>\<open>Delete\<close>: the case of a finished pod, then the one of a pod that runs or drains.\<close>

definition delete_finished ::
  "('w, 'q) cluster \<Rightarrow> 'q codec \<Rightarrow> 'q config \<Rightarrow> string \<Rightarrow> string \<Rightarrow> 'q pod_state \<Rightarrow> 'q pod \<Rightarrow>
   ('w node, 'q answer) state" where
  "delete_finished K C cfg node volume st p = do {
     r \<leftarrow> release K cfg p;
     (case r of
        (p', Some e) \<Rightarrow> State_Monad.return (st\<lparr>st_pod := Some p'\<rparr>, Some e)
      | (p', None) \<Rightarrow> do {
          _ \<leftarrow> update_backoffs (if om_deletion (pod_meta p) \<noteq> None then forget_all volume
                             else forget volume);
          e \<leftarrow> delete_secrets K C cfg node volume False;
          State_Monad.return (st\<lparr>st_pod := Some p', st_phase := PhaseExited\<rparr>, e)
        })
   }"

definition delete_running ::
  "('w, 'q) cluster \<Rightarrow> 'q config \<Rightarrow> 'q pod_state \<Rightarrow> 'q pod \<Rightarrow> ('w node, 'q answer) state" where
  "delete_running K cfg st p =
     (if om_deletion (pod_meta p) = None then do {
        d \<leftarrow> on_world (k_delete_pod K (cfg_namespace cfg) (st_name st) (om_uid (pod_meta p)) None);
        State_Monad.return (case d of
            Inl e \<Rightarrow> if e = ApiNotFound then (st\<lparr>st_phase := PhaseTerminating\<rparr>, None)
                     else (st, Some (ApiFailed e))
          | Inr _ \<Rightarrow> (st\<lparr>st_phase := PhaseTerminating\<rparr>, None))
      }
      else State_Monad.return (st\<lparr>st_phase := PhaseTerminating\<rparr>, None))"

definition delete_pod ::
  "('w, 'q) cluster \<Rightarrow> 'q codec \<Rightarrow> 'q config \<Rightarrow> string \<Rightarrow> string \<Rightarrow> ('w node, 'q answer) state" where
  "delete_pod K C cfg node volume = do {
     answer \<leftarrow> get_state K C cfg node volume;
     (case answer of
        (st, Some e) \<Rightarrow> State_Monad.return (st, Some e)
      | (st, None) \<Rightarrow>
          if st_phase st = PhaseAbsent then do {
            _ \<leftarrow> update_backoffs (forget volume);
            e \<leftarrow> delete_secrets K C cfg node volume False;
            State_Monad.return (st, e)
          }
          else (case st_pod st of
             None \<Rightarrow> State_Monad.return (st\<lparr>st_phase := PhaseTerminating\<rparr>, None)
           | Some p \<Rightarrow> do {
               gone \<leftarrow> finished K p;
               (if gone then delete_finished K C cfg node volume st p else delete_running K cfg st p)
             }))
   }"

definition spec_of ::
  "('w, 'q) cluster \<Rightarrow> 'q codec \<Rightarrow> 'q config \<Rightarrow> 'q pod_state \<Rightarrow> cache \<Rightarrow>
   ('w node, manager_error + 'q spec) state" where
  "spec_of K C cfg st cache_settings =
     (case st_pod st of
        None \<Rightarrow> State_Monad.return (Inl NothingToRebuild)
      | Some p \<Rightarrow>
          if st_staging st = [] then State_Monad.return (Inl NothingToRebuild)
          else case parse_stored C (pod_annotation p annotation_spec) of
              None \<Rightarrow> State_Monad.return (Inl NothingToRebuild)
            | Some stored \<Rightarrow> do {
                r \<leftarrow> on_world (k_get_secret K (cfg_namespace cfg) (pod_annotation p annotation_secret));
                State_Monad.return (case r of
                    Inl e \<Rightarrow> Inl (ApiFailed e)
                  | Inr sec \<Rightarrow> Inr
                      \<lparr>volume_id = st_volume st, node_name = st_node st, pvc_name = st_pvc st,
                       pvc_namespace = st_pvc_namespace st, staging_path = st_staging st,
                       spec_credentials = \<lparr>token = lookup0 (sec_data sec) token_key,
                         passphrase = lookup0 (sec_data sec) passphrase_key\<rparr>,
                       spec_cache = cache_settings, spec_uid = stored_uid stored,
                       spec_gid = stored_gid stored, spec_options = stored_options stored,
                       spec_resources = stored_resources stored\<rparr>)
              })"

fun port_loop :: "container_port list \<Rightarrow> int option" where
  "port_loop [] = None"
| "port_loop (p # ps) = (if cp_name p = metrics_port_name then Some (cp_port p) else port_loop ps)"

fun metrics_loop :: "'q container list \<Rightarrow> int" where
  "metrics_loop [] = 0"
| "metrics_loop (c # cs) =
     (if co_name c \<noteq> container_name then metrics_loop cs
      else case port_loop (co_ports c) of Some n \<Rightarrow> n | None \<Rightarrow> metrics_loop cs)"

definition metrics_port :: "'q pod \<Rightarrow> int" where
  "metrics_port p = metrics_loop (ps_containers (pod_spec_of p))"

text \<open>\<open>net.JoinHostPort\<close> and the URL of the probe.\<close>

definition join_host_port :: "string \<Rightarrow> string \<Rightarrow> string" where
  "join_host_port host port =
     (if CHR '':'' \<in> set host then CHR ''['' # host @ '']:'' @ port else host @ CHR '':'' # port)"

definition ready_url :: "'q pod \<Rightarrow> string" where
  "ready_url p =
     ''http://'' @ join_host_port (pst_ip (pod_status_of p)) (show_int (metrics_port p)) @ ''/readyz''"

definition ready ::
  "('w, 'q) cluster \<Rightarrow> 'q pod option \<Rightarrow> ('w node, manager_error option) state" where
  "ready K pod =
     (case pod of
        None \<Rightarrow> State_Monad.return (Some NotReady)
      | Some p \<Rightarrow>
          if pst_ip (pod_status_of p) = [] then State_Monad.return (Some NotReady)
          else if metrics_port p = 0 then State_Monad.return (Some NotReady)
          else do {
            r \<leftarrow> on_world (k_http_status K (ready_url p));
            (case r of
               Inl e \<Rightarrow> State_Monad.return (Some NotReady)
             | Inr code \<Rightarrow>
                 if code \<noteq> 200 then State_Monad.return (Some NotReady)
                 else do {
                   _ \<leftarrow> (let v = pod_annotation p label_volume
                        in if v \<noteq> [] then update_backoffs (reset_backoff v) else State_Monad.return ());
                   State_Monad.return None
                 })
          })"

subsection \<open>Staging paths\<close>

lemma has_prefix_iff: "has_prefix s p \<longleftrightarrow> (\<exists>t. s = p @ t)"
  by (auto simp: has_prefix_def prefix_def)

text \<open>Where a path of the mount container is on the node, through its host-path volumes.\<close>

definition host_side :: "'q pod \<Rightarrow> string \<Rightarrow> string option" where
  "host_side p path =
     (case ps_containers (pod_spec_of p) of
        [] \<Rightarrow> None
      | c # _ \<Rightarrow>
         (case find (\<lambda>m. has_prefix path (vm_path m @ ''/'')) (co_mounts c) of
            None \<Rightarrow> None
          | Some m \<Rightarrow>
             (case find (\<lambda>v. pv_name v = vm_name m) (ps_volumes (pod_spec_of p)) of
                Some v \<Rightarrow>
                 (case pv_source v of
                    HostPath h _ \<Rightarrow> Some (path_join [h, drop (length (vm_path m) + 1) path])
                  | EmptyDir \<Rightarrow> None)
              | None \<Rightarrow> None)))"

text \<open>The mount point on the command line of a pod.\<close>

definition mount_point :: "'q pod \<Rightarrow> string" where
  "mount_point p = co_args (hd (ps_containers (pod_spec_of p))) ! 3"

lemma clean_abs_elems:
  assumes "path_is_abs p" and "path_clean p = p" and "p \<noteq> ''/''"
  obtains ds b where "p = rooted_path (ds @ [b])" and "\<forall>x \<in> set ds. proper_elem x" and "proper_elem b"
proof -
  obtain xs where xs: "\<forall>x \<in> set xs. proper_elem x" "p = rooted_path xs"
    using path_clean_rooted [OF assms(1)] assms(2) by auto
  with assms(3) have "xs \<noteq> []" by (auto simp: rooted_path_def)
  then have "xs = butlast xs @ [last xs]" by simp
  then show thesis using xs that by (metis in_set_butlastD last_in_set \<open>xs \<noteq> []\<close>)
qed

lemma pod_staging_join:
  assumes "proper_elem b"
  shows "path_join [pod_staging_dir, b] = pod_staging_dir @ CHR ''/'' # b"
proof -
  have s: "proper_elem ''staging''" by (simp add: proper_elem_def dot_def dotdot_def)
  have "path_join [pod_staging_dir, b] = path_clean (rooted_path [''staging'', b])"
    using assms by (simp add: path_join_def pod_staging_dir_def rooted_path_def proper_elem_def)
  also have "\<dots> = rooted_path [''staging'', b]" using s assms by simp
  finally show ?thesis by (simp add: rooted_path_def pod_staging_dir_def)
qed

lemma path_clean_nonempty: "path_clean p \<noteq> []"
  by (simp add: path_clean_def dot_def Let_def)

lemma checked_not_root: "is_ok (check_staging_path cfg p) \<Longrightarrow> p \<noteq> ''/''"
proof
  assume ok: "is_ok (check_staging_path cfg p)" and p: "p = ''/''"
  have "path_join [cfg_kubelet_dir cfg, ''plugins''] \<noteq> []"
    by (simp add: path_join_def path_clean_nonempty)
  moreover have "path_dir ''/'' = ''/''"
    by (simp add: path_dir_def path_clean_def path_is_abs_def)
  ultimately show False
    using ok p by (auto simp: check_staging_path_def Let_def has_prefix_iff Cons_eq_append_conv
        split: if_splits)
qed

text \<open>
  C32. The mount lands on kubelet's staging path: for every staging path \<open>checkStagingPath\<close> accepts, the
  mount point on the pod's command line, seen through the pod's volumes, is that path on the node,
  and the directory the pod gets from the host is a directory under kubelet's plugin directory,
  neither that directory itself nor anything outside.
\<close>

theorem mounts_on_staging_path:
  assumes "is_ok (check_staging_path cfg (staging_path s))"
  shows "host_side (build_pod C cfg s hash sec) (mount_point (build_pod C cfg s hash sec))
      = Some (staging_path s) \<and>
    (\<exists>d. path_dir (staging_path s) = path_join [cfg_kubelet_dir cfg, ''plugins''] @ CHR ''/'' # d \<and>
       path_clean (path_dir (staging_path s)) = path_dir (staging_path s))"
proof -
  let ?p = "staging_path s"
  note root = checked_not_root [OF assms]
  have ok: "path_is_abs ?p" "path_clean ?p = ?p"
    "has_prefix (path_dir ?p) (path_join [cfg_kubelet_dir cfg, ''plugins''] @ ''/'')"
    using assms by (auto simp: check_staging_path_def Let_def split: if_splits)
  obtain ds b where p: "?p = rooted_path (ds @ [b])" and ds: "\<forall>x \<in> set ds. proper_elem x"
    and b: "proper_elem b"
    using ok(1,2) root by (rule clean_abs_elems)
  have base: "path_base ?p = b" and dir: "path_dir ?p = rooted_path ds"
    unfolding p by (simp_all add: path_base_rooted [OF b] path_dir_rooted [OF ds b])
  have "mount_point (build_pod C cfg s hash sec) = pod_staging_dir @ CHR ''/'' # b"
    by (simp add: mount_point_def build_pod_def mount_args_def Let_def base pod_staging_join [OF b])
  then have "host_side (build_pod C cfg s hash sec) (mount_point (build_pod C cfg s hash sec))
      = Some (path_join [path_dir ?p, b])"
    by (simp add: host_side_def build_pod_def Let_def has_prefix_iff)
  moreover have "path_join [path_dir ?p, b] = ?p"
    using path_join_dir_base [OF ok(1,2) root] base by simp
  moreover have "path_clean (path_dir ?p) = path_dir ?p" using ds dir by simp
  ultimately show ?thesis using ok(3) by (auto simp: has_prefix_iff)
qed

theorem mounts_on_staging_path_witness:
  "host_side (build_pod demo_codec demo_config demo_spec ''h'' ''sec'')
     (mount_point (build_pod demo_codec demo_config demo_spec ''h'' ''sec''))
   = Some ''/var/lib/kubelet/plugins/csi/globalmount''"
proof -
  have "is_ok (check_staging_path demo_config (staging_path demo_spec))"
    by (simp add: check_staging_path_def demo_config_def demo_spec_def Let_def path_is_abs_def
        path_join_def path_clean_def path_dir_def dot_def dotdot_def has_prefix_def)
  from mounts_on_staging_path [OF this, THEN conjunct1] show ?thesis
    by (simp add: demo_spec_def)
qed

subsection \<open>Rebuilding a spec\<close>

text \<open>Reading the container statuses leaves what was read from the annotations.\<close>

lemma status_loop_keeps:
  "fst (foldl status_step (st, b) l) = st' \<Longrightarrow>
   st_name st' = st_name st \<and> st_pod st' = st_pod st \<and> st_volume st' = st_volume st \<and>
   st_node st' = st_node st \<and> st_pvc st' = st_pvc st \<and>
   st_pvc_namespace st' = st_pvc_namespace st \<and> st_hash st' = st_hash st \<and>
   st_cli_version st' = st_cli_version st \<and> st_staging st' = st_staging st"
proof (induction l arbitrary: st b st')
  case (Cons cs l)
  obtain st1 b1 where 1: "status_step (st, b) cs = (st1, b1)" by fastforce
  then have "fst (foldl status_step (st1, b1) l) = st'" using Cons.prems by simp
  from Cons.IH [OF this] 1 show ?case
    by (auto simp: status_step_def Let_def split: if_splits option.splits prod.splits)
qed simp

lemma state_of_fields:
  "st_name (state_of p) = om_name (pod_meta p)" "st_pod (state_of p) = Some p"
  "st_volume (state_of p) = pod_annotation p label_volume"
  "st_node (state_of p) = pod_annotation p label_node"
  "st_pvc (state_of p) = pod_annotation p label_pvc"
  "st_pvc_namespace (state_of p) = pod_annotation p label_namespace"
  "st_hash (state_of p) = pod_annotation p annotation_config_hash"
  "st_staging (state_of p) = pod_annotation p annotation_staging_path"
  "st_phase (state_of p) = PhaseTerminating \<longleftrightarrow> om_deletion (pod_meta p) \<noteq> None"
  "st_phase (state_of p) = PhaseExited \<Longrightarrow> process_gone p"
  by (auto simp: state_of_def Let_def case_prod_beta status_loop_keeps [OF refl] split: if_splits)

lemma built_annotations:
  "pod_annotation (build_pod C cfg s hash sec) label_volume = volume_id s"
  "pod_annotation (build_pod C cfg s hash sec) label_node = node_name s"
  "pod_annotation (build_pod C cfg s hash sec) label_pvc = pvc_name s"
  "pod_annotation (build_pod C cfg s hash sec) label_namespace = pvc_namespace s"
  "pod_annotation (build_pod C cfg s hash sec) annotation_config_hash = hash"
  "pod_annotation (build_pod C cfg s hash sec) annotation_staging_path = staging_path s"
  "pod_annotation (build_pod C cfg s hash sec) annotation_spec = spec_annotation C s"
  "pod_annotation (build_pod C cfg s hash sec) annotation_secret = sec"
  by (simp_all add: pod_annotation_def lookup0_def build_pod_def Let_def object_meta_of_def
      update_conv' key_defs)

definition stored_of :: "'q spec \<Rightarrow> 'q stored_spec" where
  "stored_of s = \<lparr>stored_uid = spec_uid s, stored_gid = spec_gid s,
     stored_options = spec_options s, stored_resources = spec_resources s\<rparr>"

text \<open>
  C34. The recovery loses nothing: from a pod created for a spec, whatever has become of its status,
  uid or finalizers, and from the Secret created with it, \<open>SpecOf\<close> rebuilds exactly that spec (with
  the node's cache settings), provided the JSON of the stored settings is read back.
\<close>

theorem spec_of_rebuilds:
  assumes annotations: "om_annotations (pod_meta p)
      = om_annotations (pod_meta (build_pod C cfg s hash sec_name))"
    and path: "staging_path s \<noteq> []"
    and json: "parse_stored C (json_stored C (stored_of s)) = Some (stored_of s)"
    and secret: "run_state (k_get_secret K (cfg_namespace cfg) sec_name) (node_world n) = (Inr sec, w)"
    and data: "sec_data sec = sec_data (build_secret C cfg draw s hash)"
  shows "run_state (spec_of K C cfg (state_of p) cache_settings) n
    = (Inr (s\<lparr>spec_cache := cache_settings\<rparr>), n\<lparr>node_world := w\<rparr>)"
proof -
  have a: "pod_annotation p key = pod_annotation (build_pod C cfg s hash sec_name) key" for key
    by (simp add: pod_annotation_def annotations)
  have t: "lookup0 (sec_data sec) token_key = token (spec_credentials s)"
    "lookup0 (sec_data sec) passphrase_key = passphrase (spec_credentials s)"
    by (simp_all add: data build_secret_def Let_def lookup0_def token_key_def passphrase_key_def)
  have "parse_stored C (spec_annotation C s) = Some (stored_of s)"
    using json by (simp add: spec_annotation_def stored_of_def)
  then show ?thesis
    using secret path
    by (simp add: spec_of_def state_of_fields a built_annotations on_world_def t)
      (simp add: stored_of_def)
qed

text \<open>An empty cluster that accepts everything, with the Secret of the concrete volume.\<close>

definition demo_cluster :: "(unit, int) cluster" where
  "demo_cluster =
     \<lparr>k_get_pod = \<lambda>_ _. State_Monad.return (Inl ApiNotFound),
      k_list_pods = \<lambda>_ _. State_Monad.return (Inr []),
      k_create_pod = \<lambda>_ p. State_Monad.return (Inr p),
      k_delete_pod = \<lambda>_ _ _ _. State_Monad.return (Inr ()),
      k_patch_finalizers = \<lambda>_ _ _ _. State_Monad.return (Inr ()),
      k_get_secret = \<lambda>_ _. State_Monad.return
        (Inr (build_secret demo_codec demo_config (\<lambda>_. 0) demo_spec ''h'')),
      k_list_secrets = \<lambda>_ _. State_Monad.return (Inr []),
      k_create_secret = \<lambda>_ x. State_Monad.return (Inr x),
      k_delete_secret = \<lambda>_ _. State_Monad.return (Inr ()),
      k_patch_owner = \<lambda>_ _ _. State_Monad.return (Inr ()),
      k_prepare = None, k_clock = State_Monad.return 0, k_rand = State_Monad.return (\<lambda>_. 0),
      k_suffix = State_Monad.return (\<lambda>_. 0), k_http_status = \<lambda>_. State_Monad.return (Inl [])\<rparr>"

definition demo_node :: "unit node" where
  "demo_node = \<lparr>node_backoffs = [''d1'' \<mapsto> demo_entry], node_world = ()\<rparr>"

theorem spec_of_rebuilds_witness:
  "fst (run_state (spec_of demo_cluster demo_codec demo_config
     (state_of ((build_pod demo_codec demo_config demo_spec ''h'' ''sec'')\<lparr>pod_status_of := no_status\<lparr>pst_phase := ''Failed''\<rparr>\<rparr>))
     (spec_cache demo_spec)) demo_node) = Inr demo_spec"
proof -
  let ?p = "(build_pod demo_codec demo_config demo_spec ''h'' ''sec'')\<lparr>pod_status_of := no_status\<lparr>pst_phase := ''Failed''\<rparr>\<rparr>"
  have json: "parse_stored demo_codec (json_stored demo_codec (stored_of demo_spec))
      = Some (stored_of demo_spec)"
    by (simp add: demo_codec_def demo_stored_def stored_of_def demo_spec_def)
  have secret: "run_state (k_get_secret demo_cluster (cfg_namespace demo_config) ''sec'') (node_world demo_node)
      = (Inr (build_secret demo_codec demo_config (\<lambda>_. 0) demo_spec ''h''), ())"
    by (simp add: demo_cluster_def)
  have "staging_path demo_spec \<noteq> []" by (simp add: demo_spec_def)
  from spec_of_rebuilds [where p = ?p, OF _ this json secret refl, where cache_settings = "spec_cache demo_spec"]
  show ?thesis by simp
qed

end
