(* ===== verification/Mount_Table.thy ===== *)
theory Mount_Table
  imports Prelude Go_Strings "HOL-Library.Word"
begin

text \<open>
  The mounts of the host (package \<open>internal/mount\<close>: bind.go, recover_linux.go), and the reading of the
  mount table that recovery.go does. The system calls, the \<open>mount-utils\<close> library and the file
  system are the fields of \<open>host\<close>, operations of a world. \<open>mount_point\<close> is the interface of the
  loops that unmount a path layer by layer: what State, Unmount and Detach do to the number of
  layers stacked on it.
\<close>

subsection \<open>The host\<close>

text \<open>The errors of \<open>IsMountPoint\<close> as \<open>mountState\<close> tells them apart, and those of the system calls.\<close>

datatype check_error = PathMissing | CorruptedMount | CheckFailed string

datatype sys_error = Einval | Enoent | Eof | Errno string

record mount_info =
  mi_source :: string
  mi_point :: string
  mi_root :: string
  mi_device :: "int \<times> int"
  mi_options :: "string list"

text \<open>The counters of \<open>Statfs_t\<close>, 64 bits each; \<open>fs_bsize\<close> is the block size read as a \<open>uint64\<close>.\<close>

record statfs =
  fs_bsize :: "64 word"
  fs_blocks :: "64 word"
  fs_bfree :: "64 word"
  fs_bavail :: "64 word"
  fs_files :: "64 word"
  fs_ffree :: "64 word"

record 'w host =
  h_is_mount_point :: "string \<Rightarrow> ('w, check_error + bool) state"
  h_umount :: "string \<Rightarrow> ('w, string + unit) state"
  h_mount :: "string \<Rightarrow> string \<Rightarrow> string list \<Rightarrow> ('w, string + unit) state"
  h_detach :: "string \<Rightarrow> ('w, sys_error + unit) state"
  h_bind :: "string \<Rightarrow> string \<Rightarrow> ('w, sys_error + unit) state"
  h_remount_ro :: "string \<Rightarrow> ('w, sys_error + unit) state"
  h_mount_info :: "('w, string + mount_info list) state"
  h_mkdir_all :: "string \<Rightarrow> nat \<Rightarrow> ('w, sys_error + unit) state"
  h_mkdir :: "string \<Rightarrow> nat \<Rightarrow> ('w, sys_error + unit) state"
  h_chmod :: "string \<Rightarrow> nat \<Rightarrow> ('w, sys_error + unit) state"
  h_remove :: "string \<Rightarrow> ('w, sys_error + unit) state"
  h_remove_all :: "string \<Rightarrow> ('w, sys_error + unit) state"
  h_stat :: "string \<Rightarrow> ('w, sys_error + unit) state"
  h_read_dir :: "string \<Rightarrow> ('w, sys_error + unit) state"
  h_statfs :: "string \<Rightarrow> ('w, sys_error + statfs) state"

datatype mount_error =
    StateError string
  | UmountError string
  | SysError sys_error
  | MountFailed string
  | StillMounted
  | NotMountedHere

subsection \<open>The Mounter\<close>

definition mount_state :: "'w host \<Rightarrow> string \<Rightarrow> ('w, mount_error + bool \<times> bool) state" where
  "mount_state H target = do {
     r \<leftarrow> h_is_mount_point H target;
     State_Monad.return (case r of
         Inr is_mnt \<Rightarrow> Inr (is_mnt, False)
       | Inl PathMissing \<Rightarrow> Inr (False, False)
       | Inl CorruptedMount \<Rightarrow> Inr (True, True)
       | Inl (CheckFailed e) \<Rightarrow> Inl (StateError e))
   }"

definition mounter_unmount :: "'w host \<Rightarrow> string \<Rightarrow> ('w, mount_error + unit) state" where
  "mounter_unmount H target = attempt (h_umount H target) UmountError (\<lambda>_. State_Monad.return (Inr ()))"

text \<open>\<open>EINVAL\<close>, not a mount point, counts as done.\<close>

definition mounter_detach :: "'w host \<Rightarrow> string \<Rightarrow> ('w, mount_error + unit) state" where
  "mounter_detach H target = do {
     r \<leftarrow> h_detach H target;
     State_Monad.return (case r of
         Inr _ \<Rightarrow> Inr ()
       | Inl e \<Rightarrow> if e = Einval then Inr () else Inl (SysError e))
   }"

definition bind_mount :: "'w host \<Rightarrow> string \<Rightarrow> string \<Rightarrow> bool \<Rightarrow> ('w, mount_error + unit) state" where
  "bind_mount H source target read_only =
     attempt (mount_state H target) id (\<lambda>(mounted, corrupted).
     attempt (if corrupted then mounter_unmount H target else State_Monad.return (Inr ())) id (\<lambda>_.
     if mounted \<and> \<not> corrupted then State_Monad.return (Inr ())
     else attempt (h_mkdir_all H target 488) SysError (\<lambda>_.
          attempt (h_mount H source target (if read_only then [''bind'', ''ro''] else [''bind'']))
            MountFailed (\<lambda>_. State_Monad.return (Inr ())))))"

definition rebind_mount :: "'w host \<Rightarrow> string \<Rightarrow> string \<Rightarrow> bool \<Rightarrow> ('w, mount_error + unit) state" where
  "rebind_mount H source target read_only =
     attempt (h_bind H source target) SysError (\<lambda>_.
     if \<not> read_only then State_Monad.return (Inr ())
     else attempt (h_remount_ro H target) SysError (\<lambda>_. State_Monad.return (Inr ())))"

text \<open>
  The switch in the body of the loop of \<open>unmount\<close>: one layer is unmounted, or detached when umount
  refuses it, or when it says \<open>not mounted\<close> of a path that still is.
\<close>

definition unmount_layer :: "'w host \<Rightarrow> string \<Rightarrow> ('w, mount_error + unit) state" where
  "unmount_layer H target = do {
     r \<leftarrow> h_umount H target;
     (case r of
        Inr _ \<Rightarrow> State_Monad.return (Inr ())
      | Inl e \<Rightarrow>
          if contains e ''not mounted'' then do {
            s \<leftarrow> mount_state H target;
            (case s of
               Inr (True, _) \<Rightarrow> mounter_detach H target
             | _ \<Rightarrow> State_Monad.return (Inr ()))
          }
          else mounter_detach H target)
   }"

definition max_stacked_mounts :: nat where "max_stacked_mounts = 32"

text \<open>The loop of \<open>unmount\<close>, with the number of rounds left; \<open>first\<close> is \<open>i == 0\<close>.\<close>

primrec unmount_loop :: "'w host \<Rightarrow> string \<Rightarrow> nat \<Rightarrow> bool \<Rightarrow> ('w, mount_error + unit) state" where
  "unmount_loop H target 0 first = State_Monad.return (Inl StillMounted)"
| "unmount_loop H target (Suc n) first =
     attempt (mount_state H target) id (\<lambda>(mounted, _).
     if \<not> mounted then
       (if first then State_Monad.return (Inr ())
        else do {
          r \<leftarrow> h_remove H target;
          State_Monad.return (case r of
              Inr _ \<Rightarrow> Inr ()
            | Inl e \<Rightarrow> if e = Enoent then Inr () else Inl (SysError e))
        })
     else attempt (unmount_layer H target) id (\<lambda>_. unmount_loop H target n False))"

definition unpublish :: "'w host \<Rightarrow> string \<Rightarrow> ('w, mount_error + unit) state" where
  "unpublish H target = unmount_loop H target max_stacked_mounts True"

subsection \<open>The mount table\<close>

definition mount_source :: "string \<Rightarrow> string" where
  "mount_source volume = ''retyc://'' @ volume"

text \<open>\<open>topMount\<close>: the last entry for a mount point is its top layer.\<close>

definition top_step :: "string \<Rightarrow> mount_info option \<Rightarrow> mount_info \<Rightarrow> mount_info option" where
  "top_step p found info = (if mi_point info = p then Some info else found)"

definition top_mount :: "mount_info list \<Rightarrow> string \<Rightarrow> mount_info option" where
  "top_mount infos p = (if p = [] then None else foldl (top_step p) None infos)"

definition layers :: "mount_info list \<Rightarrow> string \<Rightarrow> nat" where
  "layers infos p = foldl (\<lambda>n info. if mi_point info = p then n + 1 else n) 0 infos"

text \<open>\<open>binds\<close>, over the check \<open>isTarget\<close>.\<close>

definition binds_step :: "(string \<Rightarrow> bool) \<Rightarrow> string \<Rightarrow> string list \<Rightarrow> mount_info \<Rightarrow> string list" where
  "binds_step is_target volume out info =
     (if mi_source info = mount_source volume \<and> is_target (mi_point info) \<and> mi_point info \<notin> set out
      then out @ [mi_point info] else out)"

definition binds :: "(string \<Rightarrow> bool) \<Rightarrow> mount_info list \<Rightarrow> string \<Rightarrow> string list" where
  "binds is_target infos volume = foldl (binds_step is_target volume) [] infos"

text \<open>\<open>deadTargets\<close>: the first loop keeps the order of the mount points and their top layers.\<close>

definition tops_step ::
  "(string \<Rightarrow> bool) \<Rightarrow> string list \<times> (string \<Rightarrow> mount_info option) \<Rightarrow> mount_info \<Rightarrow>
   string list \<times> (string \<Rightarrow> mount_info option)" where
  "tops_step is_target acc info =
     (case acc of (order, tops) \<Rightarrow>
        if \<not> is_target (mi_point info) then (order, tops)
        else (if tops (mi_point info) = None then order @ [mi_point info] else order,
              tops(mi_point info \<mapsto> info)))"

definition is_dead :: "string \<Rightarrow> int \<times> int \<Rightarrow> mount_info \<Rightarrow> bool" where
  "is_dead volume alive info \<longleftrightarrow>
     mi_device info \<noteq> alive \<and> mi_root info = ''/'' \<and> mi_source info = mount_source volume"

definition dead_targets ::
  "mount_info list \<Rightarrow> string \<Rightarrow> int \<times> int \<Rightarrow> (string \<Rightarrow> bool) \<Rightarrow> mount_info list" where
  "dead_targets infos volume alive is_target =
     (case foldl (tops_step is_target) ([], Map.empty) infos of (order, tops) \<Rightarrow>
        filter (is_dead volume alive) (map (\<lambda>p. the (tops p)) order))"

text \<open>What the readings mean, entry by entry.\<close>

lemma top_mount_snoc:
  "top_mount (infos @ [info]) p =
     (if p \<noteq> [] \<and> mi_point info = p then Some info else top_mount infos p)"
  by (simp add: top_mount_def top_step_def)

lemma top_mount_Nil [simp]: "top_mount [] p = None" "top_mount infos [] = None"
  by (simp_all add: top_mount_def)

lemma top_mount_in: "top_mount infos p = Some i \<Longrightarrow> i \<in> set infos \<and> mi_point i = p"
  by (induction infos rule: rev_induct) (auto simp: top_mount_snoc split: if_splits)

lemma layers_eq: "layers infos p = length (filter (\<lambda>i. mi_point i = p) infos)"
  by (induction infos rule: rev_induct) (simp_all add: layers_def)

lemma set_binds:
  "set (binds is_target infos volume) =
     {p. is_target p \<and> (\<exists>i \<in> set infos. mi_point i = p \<and> mi_source i = mount_source volume)}"
  by (induction infos rule: rev_induct) (auto simp: binds_def binds_step_def)

lemma tops_order:
  "foldl (tops_step is_target) ([], Map.empty) infos = (order, tops) \<Longrightarrow>
   distinct order \<and> set order = {p. is_target p \<and> (\<exists>i \<in> set infos. mi_point i = p)} \<and>
   (\<forall>p. tops p = (if is_target p then find (\<lambda>i. mi_point i = p) (rev infos) else None))"
proof (induction infos arbitrary: order tops rule: rev_induct)
  case (snoc i infos)
  obtain order' tops' where l: "foldl (tops_step is_target) ([], Map.empty) infos = (order', tops')"
    by fastforce
  have IH: "distinct order'" "set order' = {p. is_target p \<and> (\<exists>i \<in> set infos. mi_point i = p)}"
    "\<And>p. tops' p = (if is_target p then find (\<lambda>i. mi_point i = p) (rev infos) else None)"
    using snoc.IH [OF l] by auto
  have seen: "tops' (mi_point i) = None \<longleftrightarrow> mi_point i \<notin> set order'" if "is_target (mi_point i)"
    using that by (auto simp: IH find_None_iff)
  have "tops_step is_target (order', tops') i = (order, tops)" using snoc.prems by (simp add: l)
  then show ?case
    using IH seen by (cases "is_target (mi_point i)") (auto simp: tops_step_def split: if_splits)
qed simp

lemma find_rev_top: "p \<noteq> [] \<Longrightarrow> find (\<lambda>i. mi_point i = p) (rev infos) = top_mount infos p"
  by (induction infos rule: rev_induct) (auto simp: top_mount_snoc)

lemma set_dead_targets:
  assumes "\<not> is_target []"
  shows "set (dead_targets infos volume alive is_target) =
    {i. is_target (mi_point i) \<and> top_mount infos (mi_point i) = Some i \<and> is_dead volume alive i}"
proof -
  obtain order tops where l: "foldl (tops_step is_target) ([], Map.empty) infos = (order, tops)"
    by fastforce
  have tops: "tops p = top_mount infos p" if "is_target p" for p
  proof -
    have "p \<noteq> []" using that assms by auto
    then show ?thesis using tops_order [OF l] that by (simp add: find_rev_top)
  qed
  have "top_mount infos p = None \<longleftrightarrow> (\<forall>i \<in> set infos. mi_point i \<noteq> p)" if "is_target p" for p
  proof -
    have "p \<noteq> []" using that assms by auto
    then show ?thesis by (auto simp: find_rev_top [symmetric] find_None_iff)
  qed
  then have order: "set order = {p. is_target p \<and> top_mount infos p \<noteq> None}"
    using tops_order [OF l] by (auto dest: top_mount_in)
  have "set (map (\<lambda>p. the (tops p)) order) =
      {i. is_target (mi_point i) \<and> top_mount infos (mi_point i) = Some i}" (is "?L = ?R")
  proof
    show "?L \<subseteq> ?R" using order tops top_mount_in by fastforce
    show "?R \<subseteq> ?L"
    proof
      fix i assume "i \<in> ?R"
      then have "mi_point i \<in> set order" "the (tops (mi_point i)) = i" using order tops by auto
      then show "i \<in> ?L" by force
    qed
  qed
  then show ?thesis by (auto simp: dead_targets_def l)
qed

subsection \<open>Unmounting layer by layer\<close>

text \<open>
  The interface the unmounting loops rest on: \<open>depth\<close> is the number of layers on the path,
  \<open>lawful\<close> that the host keeps it as documented, \<open>steady\<close> that the path can always be checked.
\<close>

locale mount_point =
  fixes state_op :: "'h \<Rightarrow> string \<Rightarrow> ('w, 'e + bool \<times> bool) state"
    and layer_op :: "'h \<Rightarrow> string \<Rightarrow> ('w, 'e + unit) state"
    and lawful :: "'h \<Rightarrow> string \<Rightarrow> ('w \<Rightarrow> nat) \<Rightarrow> bool" and steady :: "'h \<Rightarrow> string \<Rightarrow> bool"
  assumes state_law: "lawful h t depth \<Longrightarrow> run_state (state_op h t) w = (r, w') \<Longrightarrow>
      depth w' = depth w \<and> (\<forall>m c. r = Inr (m, c) \<longrightarrow> (m \<longleftrightarrow> 0 < depth w))"
    and layer_law: "lawful h t depth \<Longrightarrow> run_state (layer_op h t) w = (q, w') \<Longrightarrow>
      depth w' \<le> depth w \<and> (steady h t \<and> is_ok q \<and> 0 < depth w \<longrightarrow> depth w' < depth w)"
begin

text \<open>
  A check keeps the layers, one that finds nothing mounted found none, and a round, a check that
  finds a mount and an unmount that succeeds, leaves fewer.
\<close>

lemma checked: "lawful h t depth \<Longrightarrow> run_state (state_op h t) w = (r, u) \<Longrightarrow> depth u = depth w"
  by (blast dest: state_law)

lemma clear:
  "lawful h t depth \<Longrightarrow> run_state (state_op h t) w = (Inr (False, c), u) \<Longrightarrow>
   depth w = 0 \<and> depth u = 0"
  using state_law [of h t depth w "Inr (False, c)" u] by auto

lemma round:
  assumes "lawful h t depth" and "run_state (state_op h t) w = (Inr (True, c), u)"
    and "run_state (layer_op h t) u = (q, v)"
  shows "0 < depth w \<and> depth v \<le> depth w \<and> (steady h t \<and> is_ok q \<longrightarrow> depth v < depth w)"
  using state_law [OF assms(1,2)] layer_law [OF assms(1,3)] by auto

end

text \<open>
  What the host is documented to do about one path. A check changes nothing and tells whether
  something is mounted; umount and a lazy detach take the top layer off, or fail and take none;
  removing the directory leaves the mounts alone. \<open>steady_path\<close>: the check itself never fails.
\<close>

definition check_law :: "'w host \<Rightarrow> string \<Rightarrow> ('w \<Rightarrow> nat) \<Rightarrow> bool" where
  "check_law H t depth \<longleftrightarrow> (\<forall>w r w'. run_state (h_is_mount_point H t) w = (r, w') \<longrightarrow>
     depth w' = depth w \<and>
     (case r of Inr b \<Rightarrow> b \<longleftrightarrow> 0 < depth w
      | Inl PathMissing \<Rightarrow> depth w = 0 | Inl CorruptedMount \<Rightarrow> 0 < depth w | Inl (CheckFailed _) \<Rightarrow> True))"

definition umount_law :: "'w host \<Rightarrow> string \<Rightarrow> ('w \<Rightarrow> nat) \<Rightarrow> bool" where
  "umount_law H t depth \<longleftrightarrow> (\<forall>w r w'. run_state (h_umount H t) w = (r, w') \<longrightarrow>
     depth w' = (if is_ok r then depth w - 1 else depth w))"

definition detach_law :: "'w host \<Rightarrow> string \<Rightarrow> ('w \<Rightarrow> nat) \<Rightarrow> bool" where
  "detach_law H t depth \<longleftrightarrow> (\<forall>w r w'. run_state (h_detach H t) w = (r, w') \<longrightarrow>
     depth w' = (if is_ok r then depth w - 1 else depth w) \<and> (r = Inl Einval \<longrightarrow> depth w = 0))"

definition mount_law :: "'w host \<Rightarrow> string \<Rightarrow> ('w \<Rightarrow> nat) \<Rightarrow> bool" where
  "mount_law H t depth \<longleftrightarrow> check_law H t depth \<and> umount_law H t depth \<and> detach_law H t depth \<and>
     (\<forall>w r w'. run_state (h_remove H t) w = (r, w') \<longrightarrow> depth w' = depth w)"

definition steady_path :: "'w host \<Rightarrow> string \<Rightarrow> bool" where
  "steady_path H t \<longleftrightarrow> (\<forall>w e. fst (run_state (h_is_mount_point H t) w) \<noteq> Inl (CheckFailed e))"

lemma mount_state_law:
  assumes "mount_law H t depth" and run: "run_state (mount_state H t) w = (r, w')"
  shows "depth w' = depth w \<and> (\<forall>m c. r = Inr (m, c) \<longrightarrow> (m \<longleftrightarrow> 0 < depth w))"
proof -
  obtain q where q: "run_state (h_is_mount_point H t) w = (q, w')"
    using run by (auto simp: mount_state_def split: prod.splits)
  have "check_law H t depth" using assms(1) by (simp add: mount_law_def)
  then show ?thesis
    using q run by (auto simp: check_law_def mount_state_def split: sum.splits check_error.splits)
qed

lemma mount_state_steady:
  "steady_path H t \<Longrightarrow> run_state (mount_state H t) w \<noteq> (Inl e, w')"
  by (cases "run_state (h_is_mount_point H t) w")
    (auto simp: steady_path_def mount_state_def dest: spec [of _ w] split: sum.splits check_error.splits)

lemma mounter_detach_law:
  assumes "mount_law H t depth" and run: "run_state (mounter_detach H t) w = (r, w')"
  shows "depth w' = (if is_ok r then depth w - 1 else depth w)"
proof -
  obtain q where q: "run_state (h_detach H t) w = (q, w')"
    using run by (auto simp: mounter_detach_def split: prod.splits)
  then have "depth w' = (if is_ok q then depth w - 1 else depth w)" "q = Inl Einval \<longrightarrow> depth w = 0"
    using assms(1) by (auto simp: mount_law_def detach_law_def)
  then show ?thesis
    using q run by (cases q) (auto simp: mounter_detach_def split: if_splits)
qed

lemma mounter_unmount_law:
  assumes "mount_law H t depth" and run: "run_state (mounter_unmount H t) w = (r, w')"
  shows "depth w' = (if is_ok r then depth w - 1 else depth w)"
proof -
  obtain q where q: "run_state (h_umount H t) w = (q, w')"
    using run by (auto simp: mounter_unmount_def run_attempt split: prod.splits sum.splits)
  then have "depth w' = (if is_ok q then depth w - 1 else depth w)"
    using assms(1) by (auto simp: mount_law_def umount_law_def)
  then show ?thesis
    using q run by (cases q) (auto simp: mounter_unmount_def run_attempt)
qed

lemma unmount_layer_law:
  assumes law: "mount_law H t depth" and run: "run_state (unmount_layer H t) w = (r, w')"
  shows "depth w' \<le> depth w \<and> (steady_path H t \<and> is_ok r \<and> 0 < depth w \<longrightarrow> depth w' < depth w)"
proof -
  obtain q u where q: "run_state (h_umount H t) w = (q, u)" by fastforce
  then have u: "depth u = (if is_ok q then depth w - 1 else depth w)"
    using law by (auto simp: mount_law_def umount_law_def)
  show ?thesis
  proof (cases q)
    case (Inr x)
    then show ?thesis using q u run by (auto simp: unmount_layer_def)
  next
    case (Inl e)
    show ?thesis
    proof (cases "contains e ''not mounted''")
      case False
      then have "run_state (mounter_detach H t) u = (r, w')" using Inl q run by (simp add: unmount_layer_def)
      then show ?thesis using mounter_detach_law [OF law] u Inl by (auto split: if_splits)
    next
      case True
      obtain s v where s: "run_state (mount_state H t) u = (s, v)" by fastforce
      have v: "depth v = depth w" "\<And>m c. s = Inr (m, c) \<Longrightarrow> m \<longleftrightarrow> 0 < depth w"
        using mount_state_law [OF law s] u Inl by auto
      show ?thesis
      proof (cases "\<exists>c. s = Inr (True, c)")
        case yes: True
        then have "run_state (mounter_detach H t) v = (r, w')"
          using True Inl q s run by (auto simp: unmount_layer_def)
        then show ?thesis using mounter_detach_law [OF law] v(1) by (auto split: if_splits)
      next
        case no: False
        then have "w' = v" using True Inl q s run
          by (auto simp: unmount_layer_def split: sum.splits prod.splits bool.splits)
        moreover have "\<exists>c. s = Inr (False, c)" if "steady_path H t"
          using mount_state_steady [OF that] s no by (cases s) auto
        ultimately show ?thesis using v by auto
      qed
    qed
  qed
qed

interpretation un: mount_point mount_state unmount_layer mount_law steady_path
  by unfold_locales (blast dest: mount_state_law, blast dest: unmount_layer_law)

subsection \<open>Unpublishing a target path\<close>

definition rounds_ok :: "'w host \<Rightarrow> string \<Rightarrow> ('w \<Rightarrow> nat) \<Rightarrow> nat \<Rightarrow> nat \<Rightarrow> mount_error + unit \<Rightarrow> 'w \<Rightarrow> bool" where
  "rounds_ok H t depth d k r w \<longleftrightarrow> depth w \<le> d \<and> (is_ok r \<longrightarrow> depth w = 0) \<and>
     (steady_path H t \<and> d < k \<longrightarrow> r \<noteq> Inl StillMounted)"

lemma unmount_layer_not_still:
  "run_state (unmount_layer H t) w = (r, w') \<Longrightarrow> r \<noteq> Inl StillMounted"
  by (auto simp: unmount_layer_def mounter_detach_def split: prod.splits sum.splits if_splits bool.splits)

lemma mount_state_not_still:
  "run_state (mount_state H t) w = (r, w') \<Longrightarrow> r \<noteq> Inl StillMounted"
  by (auto simp: mount_state_def split: prod.splits sum.splits check_error.splits)

lemma unmount_loop_rounds:
  assumes law: "mount_law H t depth"
  shows "run_state (unmount_loop H t n first) w = (r, w') \<Longrightarrow> rounds_ok H t depth (depth w) n r w'"
proof (induction n arbitrary: first w)
  case 0
  then show ?case by (auto simp: rounds_ok_def)
next
  case (Suc n)
  obtain s u where s: "run_state (mount_state H t) w = (s, u)" by fastforce
  show ?case
  proof (cases s)
    case (Inl e)
    with Suc.prems s un.checked [OF law s] mount_state_not_still [OF s] show ?thesis
      by (auto simp: run_attempt rounds_ok_def)
  next
    case (Inr mc)
    obtain m c where m: "mc = (m, c)" by fastforce
    show ?thesis
    proof (cases m)
      case False
      have "depth u = 0" "depth u = depth w" using un.clear [OF law] s Inr m False by fastforce+
      moreover have "\<And>r' v. run_state (h_remove H t) u = (r', v) \<Longrightarrow> depth v = depth u"
        using law by (auto simp: mount_law_def)
      ultimately show ?thesis
        using Suc.prems s Inr m False
        by (auto simp: run_attempt rounds_ok_def split: if_splits prod.splits sum.splits)
    next
      case True
      obtain q v where q: "run_state (unmount_layer H t) u = (q, v)" by fastforce
      note qv = un.round [OF law _ q, of w c]
      show ?thesis
      proof (cases q)
        case (Inl e)
        with Suc.prems s m True q qv unmount_layer_not_still [OF q] \<open>s = Inr mc\<close>
        show ?thesis by (auto simp: run_attempt rounds_ok_def)
      next
        case (Inr x)
        then have "run_state (unmount_loop H t n False) v = (r, w')"
          using Suc.prems s m True q \<open>s = Inr mc\<close> by (simp add: run_attempt)
        from Suc.IH [OF this] show ?thesis
          using qv s m True Inr \<open>s = Inr mc\<close> by (auto simp: rounds_ok_def)
      qed
    qed
  qed
qed

lemma unpublish_layers:
  assumes "mount_law H t depth" and "run_state (unpublish H t) w = (r, w')"
  shows "depth w' \<le> depth w \<and> (is_ok r \<longrightarrow> depth w' = 0) \<and>
    (steady_path H t \<and> depth w < max_stacked_mounts \<longrightarrow> r \<noteq> Inl StillMounted)"
  using unmount_loop_rounds [OF assms(1), of max_stacked_mounts True w r w'] assms(2)
  by (simp add: unpublish_def rounds_ok_def)

text \<open>
  C37. Unpublishing (and the end of an unstage) leaves nothing mounted: when it succeeds no layer is left
  on the path, it never adds one, and with fewer than 32 layers, on a path whose state can be
  read, it never gives up for their number.
\<close>

theorem unpublish_unmounts:
  assumes "mount_law H t depth" and "run_state (unpublish H t) w = (r, w')"
  shows "depth w' \<le> depth w \<and> (is_ok r \<longrightarrow> depth w' = 0) \<and>
    (steady_path H t \<and> depth w < max_stacked_mounts \<longrightarrow> r \<noteq> Inl StillMounted)"
  using assms by (rule unpublish_layers)

text \<open>A path with a number of layers, whose umount always says \<open>not mounted\<close>.\<close>

definition demo_host :: "nat host" where
  "demo_host =
     \<lparr>h_is_mount_point = \<lambda>_. State (\<lambda>n. (if n = 0 then Inr False else Inl CorruptedMount, n)),
      h_umount = \<lambda>_. State_Monad.return (Inl ''umount: not mounted''),
      h_mount = \<lambda>_ _ _. State (\<lambda>n. (Inr (), n + 1)),
      h_detach = \<lambda>_. State (\<lambda>n. (if n = 0 then Inl Einval else Inr (), n - 1)),
      h_bind = \<lambda>_ _. State (\<lambda>n. (Inr (), n + 1)),
      h_remount_ro = \<lambda>_. State_Monad.return (Inr ()),
      h_mount_info = State_Monad.return (Inr []),
      h_mkdir_all = \<lambda>_ _. State_Monad.return (Inr ()), h_mkdir = \<lambda>_ _. State_Monad.return (Inr ()),
      h_chmod = \<lambda>_ _. State_Monad.return (Inr ()), h_remove = \<lambda>_. State_Monad.return (Inr ()),
      h_remove_all = \<lambda>_. State_Monad.return (Inr ()), h_stat = \<lambda>_. State_Monad.return (Inr ()),
      h_read_dir = \<lambda>_. State_Monad.return (Inr ()),
      h_statfs = \<lambda>_. State_Monad.return (Inl Enoent)\<rparr>"

lemma demo_host_law: "mount_law demo_host t id"
  by (auto simp: mount_law_def check_law_def umount_law_def detach_law_def demo_host_def)

lemma demo_host_steady: "steady_path demo_host t"
  by (auto simp: steady_path_def demo_host_def)

lemma demo_umount_says: "contains ''umount: not mounted'' ''not mounted''"
  unfolding contains_def sublist_def by (intro exI [of _ "''umount: ''"] exI [of _ "[]"]) simp

lemma demo_layer: "0 < n \<Longrightarrow> run_state (unmount_layer demo_host t) n = (Inr (), n - 1)"
  using demo_umount_says
  by (simp add: unmount_layer_def mount_state_def mounter_detach_def demo_host_def)

lemma demo_loop:
  "run_state (unmount_loop demo_host t k first) n = (if n < k then Inr () else Inl StillMounted, n - k)"
proof (induction k arbitrary: n first)
  case (Suc k)
  have "run_state (mount_state demo_host t) n = (if n = 0 then Inr (False, False) else Inr (True, True), n)"
    by (simp add: mount_state_def demo_host_def)
  then show ?case
    using Suc by (auto simp: run_attempt demo_layer) (simp_all add: demo_host_def)
qed simp

theorem unpublish_unmounts_witness:
  "run_state (unpublish demo_host ''/t'') 3 = (Inr (), 0)"
proof -
  have "run_state (unpublish demo_host ''/t'') 3 = (Inr (), 3 - max_stacked_mounts)"
    by (simp add: unpublish_def demo_loop max_stacked_mounts_def)
  with unpublish_unmounts [OF demo_host_law this] show ?thesis by simp
qed

text \<open>
  The bound is not the number of layers the loop can take off: 32 layers are all unmounted, and the
  loop still reports the path mounted and leaves its directory.
\<close>

lemma unpublish_boundary:
  "run_state (unpublish demo_host t) max_stacked_mounts = (Inl StillMounted, 0)"
  by (simp add: unpublish_def demo_loop)

end
