(* ===== verification/Manager_Trace.thy ===== *)
theory Manager_Trace
  imports Manager Mount_Table
begin

text \<open>
  What the \<open>Manager\<close> does to the cluster, seen from outside: the same programs run over a world that
  records every call with its answer, the readings of the host that the recovery decides on included.
  The theorems are about the traces of \<open>Ensure\<close> and \<open>Delete\<close>:
  when a pod may be created, and when one may be released, that is stripped of its finalizer and
  deleted without grace.
\<close>

datatype 'q event =
    GotPod string "api_failure + 'q pod"
  | CreatedPod "'q pod" "api_failure + 'q pod"
  | DeletedPod string string "int option" "api_failure + unit"
  | PatchedFinalizers string "string list" "string list"
  | CreatedSecret secret
  | DeletedSecret string
  | Prepared "'q spec"
  | Clock int
  | ReadTable "string + mount_info list"
  | ReadDir string "sys_error + unit"
  | Stat string "sys_error + unit"
  | Other

definition noting :: "('a \<Rightarrow> 'q event) \<Rightarrow> ('w, 'a) state \<Rightarrow> ('w \<times> 'q event list, 'a) state" where
  "noting f m = State (\<lambda>(w, l). case run_state m w of (x, w') \<Rightarrow> (x, (w', l @ [f x])))"

definition watched :: "('w, 'q) cluster \<Rightarrow> ('w \<times> 'q event list, 'q) cluster" where
  "watched K =
     \<lparr>k_get_pod = \<lambda>ns n. noting (GotPod n) (k_get_pod K ns n),
      k_list_pods = \<lambda>ns sel. noting (\<lambda>_. Other) (k_list_pods K ns sel),
      k_create_pod = \<lambda>ns p. noting (CreatedPod p) (k_create_pod K ns p),
      k_delete_pod = \<lambda>ns n uid g. noting (DeletedPod n uid g) (k_delete_pod K ns n uid g),
      k_patch_finalizers = \<lambda>ns n a b. noting (\<lambda>_. PatchedFinalizers n a b) (k_patch_finalizers K ns n a b),
      k_get_secret = \<lambda>ns n. noting (\<lambda>_. Other) (k_get_secret K ns n),
      k_list_secrets = \<lambda>ns sel. noting (\<lambda>_. Other) (k_list_secrets K ns sel),
      k_create_secret = \<lambda>ns x. noting (\<lambda>_. CreatedSecret x) (k_create_secret K ns x),
      k_delete_secret = \<lambda>ns n. noting (\<lambda>_. DeletedSecret n) (k_delete_secret K ns n),
      k_patch_owner = \<lambda>ns n ow. noting (\<lambda>_. Other) (k_patch_owner K ns n ow),
      k_prepare = map_option (\<lambda>f s. noting (\<lambda>_. Prepared s) (f s)) (k_prepare K),
      k_clock = noting Clock (k_clock K), k_rand = noting (\<lambda>_. Other) (k_rand K),
      k_suffix = noting (\<lambda>_. Other) (k_suffix K),
      k_http_status = \<lambda>u. noting (\<lambda>_. Other) (k_http_status K u)\<rparr>"

text \<open>The trace of a run from the restart states \<open>b\<close> and the world \<open>w\<close>, its answer and what it leaves.\<close>

definition start_in :: "backoffs \<Rightarrow> 'w \<Rightarrow> ('w \<times> 'q event list) node" where
  "start_in b w = \<lparr>node_backoffs = b, node_world = (w, [])\<rparr>"

definition trace_of :: "(('w \<times> 'q event list) node, 'a) state \<Rightarrow> backoffs \<Rightarrow> 'w \<Rightarrow> 'q event list" where
  "trace_of m b w = snd (node_world (snd (run_state m (start_in b w))))"

definition backoffs_after :: "(('w \<times> 'q event list) node, 'a) state \<Rightarrow> backoffs \<Rightarrow> 'w \<Rightarrow> backoffs" where
  "backoffs_after m b w = node_backoffs (snd (run_state m (start_in b w)))"

definition answer_of :: "(('w \<times> 'q event list) node, 'a) state \<Rightarrow> backoffs \<Rightarrow> 'w \<Rightarrow> 'a" where
  "answer_of m b w = fst (run_state m (start_in b w))"

subsection \<open>Rules\<close>

text \<open>Assertions are about the trace and the restart states.\<close>

definition holds ::
  "('q event list \<Rightarrow> backoffs \<Rightarrow> bool) \<Rightarrow> ('w \<times> 'q event list) node \<Rightarrow> bool" where
  "holds P s \<longleftrightarrow> P (snd (node_world s)) (node_backoffs s)"

definition spec_t ::
  "('q event list \<Rightarrow> backoffs \<Rightarrow> bool) \<Rightarrow> (('w \<times> 'q event list) node, 'a) state \<Rightarrow>
   ('a \<Rightarrow> 'q event list \<Rightarrow> backoffs \<Rightarrow> bool) \<Rightarrow> bool" where
  "spec_t P m Q \<longleftrightarrow> triple (holds P) m (\<lambda>x. holds (Q x))"

lemma spec_run:
  assumes "spec_t P m Q" and "P [] b"
  shows "Q (answer_of m b w) (trace_of m b w) (backoffs_after m b w)"
proof -
  have "holds P (start_in b w :: ('b \<times> 'a event list) node)"
    using assms(2) by (simp add: holds_def start_in_def)
  from tripleD [OF assms(1) [unfolded spec_t_def] this surjective_pairing]
  show ?thesis by (simp add: holds_def answer_of_def trace_of_def backoffs_after_def)
qed

lemma spec_bind:
  "spec_t P m R \<Longrightarrow> (\<And>x. spec_t (R x) (f x) Q) \<Longrightarrow> spec_t P (State_Monad.bind m f) Q"
  unfolding spec_t_def by (rule triple_bind)

lemma spec_return: "(\<And>l b. P l b \<Longrightarrow> Q x l b) \<Longrightarrow> spec_t P (State_Monad.return x) Q"
  unfolding spec_t_def by (rule triple_return) (simp add: holds_def)

lemma spec_weaken:
  "spec_t P m Q \<Longrightarrow> (\<And>l b. P' l b \<Longrightarrow> P l b) \<Longrightarrow> (\<And>x l b. Q x l b \<Longrightarrow> Q' x l b) \<Longrightarrow> spec_t P' m Q'"
  unfolding spec_t_def by (erule triple_weaken) (auto simp: holds_def)

lemma spec_step:
  "spec_t P m R \<Longrightarrow> (\<And>l b. P' l b \<Longrightarrow> P l b) \<Longrightarrow> (\<And>x. spec_t (R x) (f x) Q) \<Longrightarrow>
   spec_t P' (State_Monad.bind m f) Q"
  by (rule spec_bind [OF spec_weaken [where Q' = R]])

lemma spec_noting:
  "(\<And>x l b. P l b \<Longrightarrow> Q x (l @ [f x]) b) \<Longrightarrow> spec_t P (on_world (noting f m)) Q"
  by (auto simp: spec_t_def triple_def holds_def on_world_def noting_def split: prod.splits)

lemma spec_backoffs:
  "(\<And>l b. P l b \<Longrightarrow> Q (fst (f b)) l (snd (f b))) \<Longrightarrow> spec_t P (on_backoffs f) Q"
  by (fastforce simp: spec_t_def triple_def holds_def on_backoffs_def split: prod.splits)

lemma spec_conj:
  "spec_t P m Q \<Longrightarrow> spec_t P' m Q' \<Longrightarrow>
   spec_t (\<lambda>l b. P l b \<and> P' l b) m (\<lambda>x l b. Q x l b \<and> Q' x l b)"
  by (fastforce simp: spec_t_def triple_def holds_def)

lemma spec_pre: "(\<And>l b. P l b \<Longrightarrow> c) \<Longrightarrow> (c \<Longrightarrow> spec_t P m Q) \<Longrightarrow> spec_t P m Q"
  by (fastforce simp: spec_t_def triple_def holds_def)

text \<open>Calls that neither read a pod nor create or release anything.\<close>

fun benign :: "'q event \<Rightarrow> bool" where
  "benign (CreatedPod _ _) = False"
| "benign (DeletedPod _ _ _ _) = False"
| "benign (PatchedFinalizers _ _ _) = False"
| "benign (CreatedSecret _) = False"
| "benign (Prepared _) = False"
| "benign (GotPod _ _) = False"
| "benign _ = True"

text \<open>An assertion that further benign calls keep, and an operation that keeps it.\<close>

definition closed :: "('q event list \<Rightarrow> backoffs \<Rightarrow> bool) \<Rightarrow> bool" where
  "closed J \<longleftrightarrow> (\<forall>l b e. J l b \<longrightarrow> benign e \<longrightarrow> J (l @ [e]) b)"

lemma closedD: "closed J \<Longrightarrow> J l b \<Longrightarrow> benign e \<Longrightarrow> J (l @ [e]) b"
  by (simp add: closed_def)

lemma closed_conj: "closed J \<Longrightarrow> closed H \<Longrightarrow> closed (\<lambda>l b. J l b \<and> H l b)"
  by (simp add: closed_def)

definition kept ::
  "('q event list \<Rightarrow> backoffs \<Rightarrow> bool) \<Rightarrow> (('w \<times> 'q event list) node, 'a) state \<Rightarrow> bool" where
  "kept J m \<longleftrightarrow> spec_t J m (\<lambda>_. J)"

lemma kept_bind: "kept J m \<Longrightarrow> (\<And>x. kept J (f x)) \<Longrightarrow> kept J (State_Monad.bind m f)"
  unfolding kept_def by (rule spec_bind)

lemma kept_return: "kept J (State_Monad.return x)"
  unfolding kept_def by (rule spec_return)

lemma kept_noting: "closed J \<Longrightarrow> (\<And>x. benign (f x)) \<Longrightarrow> kept J (on_world (noting f m))"
  unfolding kept_def by (rule spec_noting) (rule closedD)

lemma kept_finished: "closed J \<Longrightarrow> kept J (finished (watched K) p)"
  by (auto simp: finished_def watched_def split: option.split
      intro!: kept_bind kept_return kept_noting)

lemma kept_own_secret: "closed J \<Longrightarrow> kept J (own_secret (watched K) cfg p)"
  by (auto simp: own_secret_def watched_def Let_def split: sum.split api_failure.split
      intro!: kept_bind kept_return kept_noting)

lemma kept_delete_secret: "closed J \<Longrightarrow> kept J (delete_secret (watched K) cfg n)"
  by (auto simp: delete_secret_def watched_def intro!: kept_bind kept_return kept_noting)

lemma kept_delete_loop: "closed J \<Longrightarrow> kept J (delete_loop (watched K) cfg skip ss)"
  by (induction ss) (auto intro!: kept_bind kept_return kept_delete_secret)

lemma kept_delete_secrets: "closed J \<Longrightarrow> kept J (delete_secrets (watched K) C cfg n v only)"
  unfolding delete_secrets_def
  by (intro kept_bind)
    (auto simp: watched_def split: sum.split
      intro!: kept_bind kept_return kept_noting kept_delete_loop [unfolded watched_def])

lemma kept_backoffs: "kept (\<lambda>l b. J l) (on_backoffs f)"
  unfolding kept_def by (rule spec_backoffs)

lemma kept_update: "kept (\<lambda>l b. J l) (update_backoffs f)"
  unfolding update_backoffs_def by (rule kept_backoffs)

lemma kept_count_exit:
  "closed (\<lambda>l b. J l) \<Longrightarrow> kept (\<lambda>l b. J l) (count_exit (watched K) cfg v h st)"
  by (auto simp: count_exit_def watched_def Let_def
      intro!: kept_bind kept_return kept_noting kept_update)

subsection \<open>When a pod is released\<close>

text \<open>
  What shows, in a trace, that the mount process of a pod is gone: its object was read, and it says
  so, or it was still terminating one minute past its deletion timestamp.
\<close>

definition got :: "'q pod \<Rightarrow> 'q event list \<Rightarrow> bool" where
  "got p l \<longleftrightarrow> (\<exists>n. GotPod n (Inr p) \<in> set l)"

definition dead :: "'q pod \<Rightarrow> 'q event list \<Rightarrow> bool" where
  "dead p l \<longleftrightarrow> got p l \<and>
     (process_gone p \<or>
      (\<exists>t now. om_deletion (pod_meta p) = Some t \<and> Clock now \<in> set l \<and> t + stuck_after < now))"

fun release_ok :: "'q event list \<Rightarrow> 'q event \<Rightarrow> bool" where
  "release_ok l (DeletedPod n uid (Some grace) r) \<longleftrightarrow>
     (\<exists>p. dead p l \<and> om_name (pod_meta p) = n \<and> om_uid (pod_meta p) = uid)"
| "release_ok l (PatchedFinalizers n tested left) \<longleftrightarrow>
     (\<exists>p. dead p l \<and> om_name (pod_meta p) = n \<and> om_finalizers (pod_meta p) = tested \<and>
        left = filter (\<lambda>f. f \<noteq> finalizer_in_use) tested)"
| "release_ok l e \<longleftrightarrow> True"

definition releases_ok :: "'q event list \<Rightarrow> bool" where
  "releases_ok l \<longleftrightarrow> list_all (\<lambda>i. release_ok (take i l) (l ! i)) [0..<length l]"

lemma dead_gone: "got p l \<Longrightarrow> process_gone p \<Longrightarrow> dead p l"
  by (simp add: dead_def)

lemma dead_append: "dead p l \<Longrightarrow> dead p (l @ k)"
  by (auto simp: dead_def got_def)

lemma releases_ok_snoc: "releases_ok l \<Longrightarrow> release_ok l e \<Longrightarrow> releases_ok (l @ [e])"
  by (auto simp: releases_ok_def list_all_iff nth_append)

lemma release_ok_benign: "benign e \<Longrightarrow> release_ok l e"
  by (cases e) auto

lemma closed_releases: "closed (\<lambda>l b. releases_ok l)"
  by (simp add: closed_def releases_ok_snoc release_ok_benign)

lemma closed_got: "closed (\<lambda>l b. got p l)"
  by (auto simp: closed_def got_def)

lemma closed_dead: "closed (\<lambda>l b. dead p l)"
  by (simp add: closed_def dead_append)

lemma finished_dead:
  assumes "closed J"
  shows "spec_t (\<lambda>l b. J l b \<and> got p l) (finished (watched K) p)
    (\<lambda>r l b. J l b \<and> got p l \<and> (r \<longrightarrow> dead p l))"
proof -
  have c: "closed (\<lambda>l b. J l b \<and> got p l)" using assms closed_got by (rule closed_conj)
  have clock: "spec_t (\<lambda>l b. J l b \<and> got p l)
      (State_Monad.bind (on_world (noting Clock m)) (\<lambda>now. State_Monad.return (t + stuck_after < now)))
      (\<lambda>r l b. J l b \<and> got p l \<and> (r \<longrightarrow> dead p l))" if "om_deletion (pod_meta p) = Some t" for t m
    by (rule spec_bind [OF spec_noting [where Q = "\<lambda>now l b. (J l b \<and> got p l) \<and> Clock now \<in> set l"]])
      (use that in \<open>auto simp: dead_def intro: closedD [OF assms] closedD [OF closed_got]
        intro!: spec_return\<close>)
  show ?thesis
    by (auto simp: finished_def watched_def dead_gone split: option.split
        intro!: spec_return clock)
qed

definition may_release :: "'q pod \<Rightarrow> 'q event list \<Rightarrow> bool" where
  "may_release p l \<longleftrightarrow> releases_ok l \<and> dead p l"

lemma may_release_ok: "may_release p l \<Longrightarrow> releases_ok l"
  by (simp add: may_release_def)

lemma may_release_snoc: "may_release p l \<Longrightarrow> release_ok l e \<Longrightarrow> may_release p (l @ [e])"
  by (simp add: may_release_def releases_ok_snoc dead_append)

lemma closed_may_release: "closed (\<lambda>l b. may_release p l)"
  unfolding may_release_def using closed_releases closed_dead by (rule closed_conj)

lemma may_release_patch:
  "may_release p l \<Longrightarrow>
   may_release p (l @ [PatchedFinalizers (om_name (pod_meta p)) (om_finalizers (pod_meta p))
     (filter (\<lambda>f. f \<noteq> finalizer_in_use) (om_finalizers (pod_meta p)))])"
  by (rule may_release_snoc) (auto simp: may_release_def intro!: exI [of _ p] dead_append)

lemma may_release_delete:
  "may_release p l \<Longrightarrow>
   may_release p (l @ [DeletedPod (om_name (pod_meta p)) (om_uid (pod_meta p)) (Some g) r])"
  by (rule may_release_snoc) (auto simp: may_release_def intro!: exI [of _ p] dead_append)

definition same_object :: "'q pod \<Rightarrow> 'q pod \<Rightarrow> bool" where
  "same_object p p' \<longleftrightarrow> om_name (pod_meta p') = om_name (pod_meta p) \<and>
     om_uid (pod_meta p') = om_uid (pod_meta p)"

lemma remove_finalizer_spec:
  "spec_t (\<lambda>l b. may_release p l) (remove_finalizer (watched K) p)
     (\<lambda>r l b. may_release p l \<and> same_object p (fst r))"
proof -
  let ?k = "filter (\<lambda>f. f \<noteq> finalizer_in_use) (om_finalizers (pod_meta p))"
  have "spec_t (\<lambda>l b. may_release p l)
      (on_world (k_patch_finalizers (watched K) ns (om_name (pod_meta p)) (om_finalizers (pod_meta p)) ?k))
      (\<lambda>_ l b. may_release p l)" for ns
    by (simp add: watched_def) (rule spec_noting, rule may_release_patch)
  then show ?thesis
    by (auto simp: remove_finalizer_def Let_def same_object_def
        intro!: spec_bind spec_return split: sum.split)
qed

lemma release_spec:
  "spec_t (\<lambda>l b. may_release p l) (release (watched K) cfg p)
     (\<lambda>r l b. may_release p l \<and> same_object p (fst r))"
proof -
  have del: "spec_t (\<lambda>l b. may_release p l)
      (on_world (k_delete_pod (watched K) ns (om_name (pod_meta p)) (om_uid (pod_meta p)) (Some 0)))
      (\<lambda>_ l b. may_release p l)" for ns
    by (simp add: watched_def) (rule spec_noting, rule may_release_delete)
  show ?thesis
    unfolding release_def
  proof (rule spec_bind [OF remove_finalizer_spec])
    fix r :: "'a pod \<times> manager_error option"
    obtain p' e where r: "r = (p', e)" by (cases r)
    show "spec_t (\<lambda>l b. may_release p l \<and> same_object p (fst r))
        (case r of (p, None) \<Rightarrow> do {
            d \<leftarrow> on_world (k_delete_pod (watched K) (cfg_namespace cfg) (om_name (pod_meta p))
              (om_uid (pod_meta p)) (Some 0));
            State_Monad.return (case d of
                Inl e \<Rightarrow> if e = ApiNotFound then (p, None) else (p, Some (ApiFailed e))
              | Inr _ \<Rightarrow> (p, None))
          }
        | (p, Some e) \<Rightarrow> State_Monad.return (p, Some e))
        (\<lambda>r l b. may_release p l \<and> same_object p (fst r))"
    proof (rule spec_pre [where c = "same_object p p'"])
      assume same: "same_object p p'"
      then have del: "spec_t (\<lambda>l b. may_release p l)
          (on_world (k_delete_pod (watched K) (cfg_namespace cfg) (om_name (pod_meta p'))
             (om_uid (pod_meta p')) (Some 0))) (\<lambda>_ l b. may_release p l)"
        using del by (simp add: same_object_def)
      show ?thesis
        using same by (cases e)
          (auto simp: r intro!: spec_return spec_step [OF del] split: sum.split)
    qed (simp add: r)
  qed
qed

lemma kept_then: "kept J m \<Longrightarrow> (\<And>x. spec_t J (f x) Q) \<Longrightarrow> spec_t J (State_Monad.bind m f) Q"
  unfolding kept_def by (rule spec_bind)

lemma kept_if: "(b \<Longrightarrow> kept J m) \<Longrightarrow> (\<not> b \<Longrightarrow> kept J n) \<Longrightarrow> kept J (if b then m else n)"
  by simp

lemmas kept_rules = kept_if kept_return kept_finished kept_count_exit kept_backoffs kept_update
  kept_own_secret

definition seen_ok :: "'q pod \<Rightarrow> 'q event list \<Rightarrow> bool" where
  "seen_ok p l \<longleftrightarrow> releases_ok l \<and> got p l"

lemma closed_seen: "closed (\<lambda>l b. seen_ok p l)"
  unfolding seen_ok_def using closed_releases closed_got by (rule closed_conj)

lemma finished_may_release:
  "spec_t (\<lambda>l b. seen_ok p l) (finished (watched K) p)
     (\<lambda>r l b. seen_ok p l \<and> (r \<longrightarrow> may_release p l))"
  by (rule spec_weaken [OF finished_dead [OF closed_releases]])
    (auto simp: seen_ok_def may_release_def)

text \<open>The rest of \<open>ensureExisting\<close> once the pod is known to be finished.\<close>

lemma replace_finished_releases:
  "spec_t (\<lambda>l b. may_release p l) (replace_finished (watched K) cfg st b' p) (\<lambda>_ l b. releases_ok l)"
proof -
  have clock: "kept (\<lambda>l b. may_release p l) (on_world (k_clock (watched K)))"
    by (simp add: watched_def kept_noting closed_may_release)
  show ?thesis
    unfolding replace_finished_def
    by (auto dest: may_release_ok intro!: spec_return kept_then [OF clock] spec_bind [OF release_spec])
qed

lemma draining_spec:
  "spec_t (\<lambda>l b. seen_ok p l)
     (if c then do { f \<leftarrow> finished (watched K) p; State_Monad.return (\<not> f) }
      else State_Monad.return False)
     (\<lambda>d l b. seen_ok p l \<and> (c \<and> \<not> d \<longrightarrow> may_release p l))"
  by (auto intro!: spec_return spec_bind [OF finished_may_release])

lemma seen_gone: "seen_ok p l \<Longrightarrow> process_gone p \<Longrightarrow> may_release p l"
  by (simp add: seen_ok_def may_release_def dead_gone)

lemma seen_releases: "seen_ok p l \<Longrightarrow> releases_ok l"
  by (simp add: seen_ok_def)

lemma phase_gone: "st_phase (state_of p) = PhaseExited \<Longrightarrow> process_gone p"
  by (rule state_of_fields(10))

lemma ensure_switch_releases:
  assumes "st_phase st = st_phase (state_of p)"
  shows "spec_t (\<lambda>l b. seen_ok p l \<and> (st_phase st = PhaseTerminating \<and> \<not> draining \<longrightarrow> may_release p l))
    (ensure_switch (watched K) cfg st b draining p) (\<lambda>_ l b. releases_ok l)" (is "spec_t ?P _ _")
proof -
  define P where "P = ?P"
  have seen: "releases_ok l" if "P l b" for l b
    using that seen_releases by (auto simp: P_def)
  have gone: "may_release p l" if "P l b" "\<not> draining"
      "st_phase st = PhaseTerminating \<or> st_phase st = PhaseExited" for l b
    using that assms phase_gone seen_gone by (auto simp: P_def)
  have own: "spec_t P (own_secret (watched K) cfg p) (\<lambda>_ l b. releases_ok l)"
    by (rule spec_weaken [OF kept_own_secret [OF closed_releases, unfolded kept_def]]) (auto dest: seen)
  show ?thesis
    unfolding P_def [symmetric] ensure_switch_def
    by (auto intro!: spec_return spec_bind [OF own] spec_weaken [OF replace_finished_releases]
        dest: seen gone)
qed

lemma ensure_existing_releases:
  "spec_t (\<lambda>l b. seen_ok p l) (ensure_existing (watched K) cfg s hash p) (\<lambda>_ l b. releases_ok l)"
  unfolding ensure_existing_def Let_def
  by (rule kept_then, rule kept_finished [OF closed_seen], rule kept_then,
      intro kept_rules closed_seen, rule kept_then, rule kept_backoffs, rule kept_then,
      intro kept_rules closed_seen, rule kept_then, intro kept_rules kept_bind, rule spec_bind,
      rule draining_spec, rule ensure_switch_releases, simp)

lemma delete_plain:
  "kept (\<lambda>l b. releases_ok l) (on_world (k_delete_pod (watched K) ns n uid None))"
  by (simp add: watched_def kept_def) (rule spec_noting, simp add: releases_ok_snoc)

lemma create_calls:
  "kept (\<lambda>l b. releases_ok l) (on_world (k_create_pod (watched K) ns p))"
  "kept (\<lambda>l b. releases_ok l) (on_world (k_create_secret (watched K) ns x))"
  "k_prepare (watched K) = Some f \<Longrightarrow> kept (\<lambda>l b. releases_ok l) (on_world (f s))"
  "kept (\<lambda>l b. releases_ok l) (on_world (k_suffix (watched K)))"
  "kept (\<lambda>l b. releases_ok l) (on_world (k_clock (watched K)))"
  "kept (\<lambda>l b. releases_ok l) (on_world (k_get_pod (watched K) ns n))"
  by (auto simp: watched_def kept_def intro!: spec_noting releases_ok_snoc)

lemma create_pod_releases:
  "kept (\<lambda>l b. releases_ok l) (create_pod (watched K) C cfg s hash)"
  unfolding create_pod_def create_objects_def Let_def
  by (auto split: sum.split option.split intro!: kept_bind kept_return create_calls kept_delete_secrets
      kept_delete_secret kept_backoffs kept_own_secret closed_releases)

lemma ensure_new_releases:
  "kept (\<lambda>l b. releases_ok l) (ensure_new (watched K) C cfg s hash)"
  unfolding ensure_new_def
  by (intro kept_bind kept_if kept_return create_calls create_pod_releases kept_backoffs)

lemma get_pod_seen:
  "spec_t (\<lambda>l b. releases_ok l) (on_world (k_get_pod (watched K) ns n))
     (\<lambda>r l b. case r of Inl _ \<Rightarrow> releases_ok l | Inr p \<Rightarrow> seen_ok p l)"
  by (auto simp: watched_def seen_ok_def got_def split: sum.split
      intro!: spec_noting releases_ok_snoc)

lemma ensure_releases:
  "spec_t (\<lambda>l b. releases_ok l) (ensure (watched K) C cfg s) (\<lambda>_ l b. releases_ok l)"
  unfolding ensure_def Let_def
  by (auto split: sum.split option.split
      intro!: spec_return spec_bind [OF get_pod_seen] spec_bind [OF ensure_existing_releases]
        ensure_new_releases [unfolded kept_def])

lemma get_state_seen:
  "spec_t (\<lambda>l b. releases_ok l) (get_state (watched K) C cfg node v)
     (\<lambda>a l b. releases_ok l \<and> (case st_pod (fst a) of None \<Rightarrow> True | Some p \<Rightarrow> seen_ok p l))"
  unfolding get_state_def Let_def
  by (rule spec_bind [OF get_pod_seen])
    (auto simp: state_of_fields(2) no_state_def dest: seen_releases
      split: sum.split api_failure.split intro!: spec_return)

lemma sweep_releases:
  "spec_t (\<lambda>l b. releases_ok l)
     (do { _ \<leftarrow> update_backoffs f;
           e \<leftarrow> delete_secrets (watched K) C cfg node v False;
           State_Monad.return (h e) }) (\<lambda>_ l b. releases_ok l)"
  using kept_bind [OF kept_update kept_bind [OF kept_delete_secrets [OF closed_releases] kept_return]]
  by (simp add: kept_def)

lemma delete_finished_releases:
  "spec_t (\<lambda>l b. may_release p l) (delete_finished (watched K) C cfg node v st p)
     (\<lambda>_ l b. releases_ok l)"
  unfolding delete_finished_def
  by (rule spec_bind [OF spec_weaken [OF release_spec, where Q' = "\<lambda>_ l b. releases_ok l"]])
    (auto dest: may_release_ok split: option.split intro!: spec_return sweep_releases)

lemma delete_running_releases:
  "spec_t (\<lambda>l b. releases_ok l) (delete_running (watched K) cfg st p) (\<lambda>_ l b. releases_ok l)"
  unfolding delete_running_def
  by (auto intro!: spec_return spec_bind [OF delete_plain [unfolded kept_def]])

lemma delete_existing_releases:
  "spec_t (\<lambda>l b. seen_ok p l)
     (do { gone \<leftarrow> finished (watched K) p;
           (if gone then delete_finished (watched K) C cfg node v st p
            else delete_running (watched K) cfg st p) }) (\<lambda>_ l b. releases_ok l)"
  by (rule spec_bind [OF finished_may_release])
    (auto dest: seen_releases intro: spec_weaken [OF delete_finished_releases]
      spec_weaken [OF delete_running_releases])

lemma delete_releases:
  "spec_t (\<lambda>l b. releases_ok l) (delete_pod (watched K) C cfg node v) (\<lambda>_ l b. releases_ok l)"
  unfolding delete_pod_def
  by (rule spec_bind [OF get_state_seen])
    (auto split: option.split intro!: spec_return spec_weaken [OF sweep_releases]
      spec_weaken [OF delete_existing_releases])

text \<open>
  C5. A running mount is never cut: \<open>Ensure\<close> and \<open>Delete\<close> strip a pod of its finalizer or delete it
  without grace only after having read that very object and found that its mount process is gone,
  or that it was still terminating a minute past its deletion timestamp by the clock just read;
  only the driver's own finalizer is removed.
\<close>

theorem released_only_when_dead:
  "releases_ok (trace_of (ensure (watched K) C cfg s) b w) \<and>
   releases_ok (trace_of (delete_pod (watched K) C cfg node v) b w)"
proof -
  have "releases_ok []" by (simp add: releases_ok_def)
  then show ?thesis
    by (intro conjI spec_run [OF ensure_releases] spec_run [OF delete_releases])
qed

subsection \<open>When a pod is created\<close>

fun creates :: "'q event \<Rightarrow> bool" where
  "creates (CreatedPod _ _) = True"
| "creates (CreatedSecret _) = True"
| "creates (Prepared _) = True"
| "creates _ = False"

fun reads_pod :: "'q event \<Rightarrow> bool" where
  "reads_pod (GotPod _ _) = True"
| "reads_pod _ = False"

fun asks_pod :: "'q event \<Rightarrow> bool" where
  "asks_pod (CreatedPod _ _) = True"
| "asks_pod _ = False"

definition calm :: "'q event list \<Rightarrow> bool" where
  "calm l \<longleftrightarrow> list_all (\<lambda>e. \<not> creates e) l"

text \<open>The restart policy allows a pod of this config at this time.\<close>

definition due :: "string \<Rightarrow> string \<Rightarrow> int \<Rightarrow> backoffs \<Rightarrow> bool" where
  "due v hash t b \<longleftrightarrow>
     (case b v of
        None \<Rightarrow> False
      | Some e \<Rightarrow> entry_hash e = hash \<and> \<not> gave_up (entry_backoff e) \<and>
          next_restart (entry_backoff e) \<le> t)"

text \<open>
  Up to \<open>pre\<close> nothing is created and the clock has said \<open>t\<close>; then the pod is found absent, and from
  there on it is not read again and its creation is asked for \<open>k\<close> times.
\<close>

definition began :: "string \<Rightarrow> int \<Rightarrow> nat \<Rightarrow> 'q event list \<Rightarrow> bool" where
  "began name t k l \<longleftrightarrow> (\<exists>pre rest. l = pre @ GotPod name (Inl ApiNotFound) # rest \<and> calm pre \<and>
     Clock t \<in> set pre \<and> list_all (\<lambda>e. \<not> reads_pod e) rest \<and> length (filter asks_pod rest) = k)"

definition creating ::
  "string \<Rightarrow> string \<Rightarrow> string \<Rightarrow> int \<Rightarrow> nat \<Rightarrow> 'q event list \<Rightarrow> backoffs \<Rightarrow> bool" where
  "creating name v h t k l b \<longleftrightarrow> began name t k l \<and> due v h t b"

definition may_create :: "string \<Rightarrow> string \<Rightarrow> string \<Rightarrow> 'q event list \<Rightarrow> backoffs \<Rightarrow> bool" where
  "may_create name v h l b \<longleftrightarrow> calm l \<or> (\<exists>t k. creating name v h t k l b \<and> k \<le> 1)"

lemma calm_snoc: "calm (l @ [e]) \<longleftrightarrow> calm l \<and> \<not> creates e"
  by (simp add: calm_def)

lemma benign_harmless: "benign e \<Longrightarrow> \<not> creates e \<and> \<not> reads_pod e \<and> \<not> asks_pod e"
  by (cases e) auto

lemma closed_calm: "closed (\<lambda>l b. calm l)"
  by (simp add: closed_def calm_snoc benign_harmless)

lemma creating_snoc:
  "creating name v h t k l b \<Longrightarrow> \<not> reads_pod e \<Longrightarrow> k' = (if asks_pod e then Suc k else k) \<Longrightarrow>
   creating name v h t k' (l @ [e]) b"
  unfolding began_def creating_def by (elim conjE exE) (force intro: exI [of _ "_ @ [e]"])

lemma closed_creating: "closed (creating name v h t k)"
  by (simp add: closed_def creating_snoc benign_harmless)

lemma due_entry: "due v h t b \<Longrightarrow> snd (backoff_state v h b) = b"
  by (auto simp: due_def backoff_state_def backoff_for_def split: option.splits)

lemma kept_creating: "kept (creating name v h t k) (on_backoffs (backoff_state v h))"
  unfolding kept_def creating_def by (rule spec_backoffs) (use due_entry in \<open>metis\<close>)

lemma creating_may: "creating name v h t k l b \<Longrightarrow> k \<le> 1 \<Longrightarrow> may_create name v h l b"
  by (auto simp: may_create_def)

lemma calm_may: "calm l \<Longrightarrow> may_create name v h l b"
  by (simp add: may_create_def)

lemma creating_calls:
  "kept (creating name v h t k) (on_world (k_create_secret (watched K) ns x))"
  "k_prepare (watched K) = Some f \<Longrightarrow> kept (creating name v h t k) (on_world (f s))"
  "kept (creating name v h t k) (on_world (k_suffix (watched K)))"
  by (auto simp: watched_def kept_def intro!: spec_noting creating_snoc)

lemma creating_create:
  "spec_t (creating name v h t 0) (on_world (k_create_pod (watched K) ns p))
     (\<lambda>_. creating name v h t 1)"
  by (auto simp: watched_def intro!: spec_noting creating_snoc)

lemma kept_prepare:
  "kept (creating name v h t k)
     (case k_prepare (watched K) of None \<Rightarrow> State_Monad.return (Inr ()) | Some f \<Rightarrow> on_world (f s))"
  by (auto split: option.split intro: kept_return creating_calls)

lemma create_objects_creates:
  "spec_t (creating name (volume_id s) h t 0) (create_objects (watched K) C cfg s h)
     (\<lambda>_. may_create name (volume_id s) h)"
  unfolding create_objects_def Let_def
  by (rule kept_then [OF kept_prepare])
    (auto split: sum.split option.split simp: creating_may
      intro!: spec_return kept_then [OF kept_delete_secrets [OF closed_creating]]
        kept_then [OF creating_calls(1)] kept_then [OF creating_calls(3)] spec_bind [OF creating_create]
        kept_then [OF kept_delete_secret [OF closed_creating]] kept_then [OF kept_creating]
        kept_then [OF kept_own_secret [OF closed_creating]])

lemma create_pod_creates:
  assumes "name = mount_pod_name C (node_name s) (volume_id s)"
  shows "spec_t (\<lambda>l b. calm l \<and> Clock t \<in> set l \<and> due (volume_id s) h t b)
    (create_pod (watched K) C cfg s h) (\<lambda>_. may_create name (volume_id s) h)"
proof -
  have got: "spec_t (\<lambda>l b. calm l \<and> Clock t \<in> set l \<and> due (volume_id s) h t b)
      (on_world (k_get_pod (watched K) ns name))
      (\<lambda>r l b. if r = Inl ApiNotFound then creating name (volume_id s) h t 0 l b else calm l)" for ns
  proof -
    have "began name t 0 (l @ [GotPod name (Inl ApiNotFound)])" if "calm l" "Clock t \<in> set l" for l
      unfolding began_def using that by (intro exI [of _ l] exI [of _ "[]"]) simp
    then show ?thesis
      by (auto simp: watched_def calm_snoc creating_def intro!: spec_noting)
  qed
  show ?thesis
    unfolding create_pod_def assms [symmetric] Let_def
    by (rule spec_bind [OF got])
      (auto split: sum.split intro: calm_may intro!: spec_return create_objects_creates)
qed

lemma calm_calls:
  "kept (\<lambda>l b. calm l) (on_world (k_get_pod (watched K) ns n))"
  "kept (\<lambda>l b. calm l) (on_world (k_delete_pod (watched K) ns n uid g))"
  "kept (\<lambda>l b. calm l) (on_world (k_patch_finalizers (watched K) ns n x y))"
  "kept (\<lambda>l b. calm l) (on_world (k_clock (watched K)))"
  by (auto simp: watched_def kept_def calm_snoc intro!: spec_noting)

lemma release_calm: "kept (\<lambda>l b. calm l) (release (watched K) cfg p)"
  unfolding release_def remove_finalizer_def Let_def
  by (auto split: prod.split option.split sum.split intro!: kept_bind kept_if kept_return calm_calls)

lemma ensure_existing_calm: "kept (\<lambda>l b. calm l) (ensure_existing (watched K) cfg s h p)"
  unfolding ensure_existing_def ensure_switch_def replace_finished_def Let_def
  by (intro kept_bind kept_rules closed_calm calm_calls release_calm)

lemma ensure_new_creates:
  assumes "name = mount_pod_name C (node_name s) (volume_id s)"
  shows "spec_t (\<lambda>l b. calm l) (ensure_new (watched K) C cfg s h) (\<lambda>_. may_create name (volume_id s) h)"
proof -
  let ?entry = "\<lambda>x b. \<exists>e. b (volume_id s) = Some e \<and> entry_hash e = h \<and> entry_backoff e = x"
  have state: "spec_t (\<lambda>l b. calm l) (on_backoffs (backoff_state (volume_id s) h))
      (\<lambda>x l b. calm l \<and> ?entry x b)"
    by (rule spec_backoffs)
      (auto simp: backoff_state_def backoff_for_def fresh_entry_def split: option.split)
  have clock: "spec_t (\<lambda>l b. calm l \<and> ?entry x b) (on_world (k_clock (watched K)))
      (\<lambda>t l b. (calm l \<and> Clock t \<in> set l) \<and> ?entry x b)" for x
    by (auto simp: watched_def calm_snoc intro!: spec_noting)
  show ?thesis
    unfolding ensure_new_def
    by (rule spec_bind [OF state])
      (auto simp: due_def intro: calm_may
        intro!: spec_return spec_bind [OF clock] spec_weaken [OF create_pod_creates [OF assms]])
qed

lemma ensure_creates:
  "spec_t (\<lambda>l b. calm l) (ensure (watched K) C cfg s)
     (\<lambda>_. may_create (mount_pod_name C (node_name s) (volume_id s)) (volume_id s)
       (spec_config_hash C cfg s))"
  unfolding ensure_def Let_def
  by (auto split: sum.split option.split simp: calm_may
      intro!: spec_return kept_then [OF calm_calls(1)] kept_then [OF ensure_existing_calm]
        ensure_new_creates)

text \<open>
  C6. Ensure creates a pod only when it may: it touches the host (\<open>Prepare\<close>, which clears the spool)
  and creates a Secret or a pod only right after it found the pod absent, never sees it again in
  that call, asks for one pod at most, and does so only when the restart state it leaves for this config
  has not given up and the clock it had read before is at or past the next restart. In every other
  case the call creates nothing.
\<close>

theorem ensure_creates_when_due:
  "let l = trace_of (ensure (watched K) C cfg s) b w;
       after = backoffs_after (ensure (watched K) C cfg s) b w
   in list_all (\<lambda>e. \<not> creates e) l \<or>
      (\<exists>pre rest t e. l = pre @ GotPod (mount_pod_name C (node_name s) (volume_id s)) (Inl ApiNotFound) # rest \<and>
         list_all (\<lambda>e. \<not> creates e) pre \<and> list_all (\<lambda>e. \<not> reads_pod e) rest \<and>
         length (filter asks_pod rest) \<le> 1 \<and>
         Clock t \<in> set pre \<and> after (volume_id s) = Some e \<and> entry_hash e = spec_config_hash C cfg s \<and>
         \<not> gave_up (entry_backoff e) \<and> next_restart (entry_backoff e) \<le> t)"
proof -
  have "may_create (mount_pod_name C (node_name s) (volume_id s)) (volume_id s)
      (spec_config_hash C cfg s) (trace_of (ensure (watched K) C cfg s) b w)
      (backoffs_after (ensure (watched K) C cfg s) b w)"
    by (rule spec_run [OF ensure_creates]) (simp add: calm_def)
  then show ?thesis
    unfolding may_create_def creating_def began_def calm_def due_def Let_def
    by (auto split: option.splits)
qed

subsection \<open>Delete and the give-up\<close>

definition backoffs_are :: "backoffs \<Rightarrow> 'w node \<Rightarrow> bool" where
  "backoffs_are b n \<longleftrightarrow> node_backoffs n = b"

lemma world_keeps [wp]: "keeps (backoffs_are b) (on_world m)"
  by (auto simp: keeps_def triple_def backoffs_are_def on_world_def split: prod.splits)

lemma delete_loop_keeps: "keeps (backoffs_are b) (delete_loop K cfg skip ss)"
  by (induction ss) (auto simp: delete_secret_def intro!: keeps_bind world_keeps)

lemma delete_secrets_keeps: "keeps (backoffs_are b) (delete_secrets K C cfg node v only)"
  unfolding delete_secrets_def
  by (intro keeps_bind world_keeps) (auto split: sum.split intro!: keeps_bind delete_loop_keeps)

lemma finished_keeps: "keeps (backoffs_are b) (finished K p)"
  by (auto simp: finished_def split: option.split intro!: keeps_bind world_keeps)

lemma world_triple:
  "triple (\<lambda>n. backoffs_are b n \<and> c) (on_world m) (\<lambda>_ n. backoffs_are b n \<and> c)"
  by (auto simp: triple_def backoffs_are_def on_world_def split: prod.splits)

lemma triple_pure: "(c \<Longrightarrow> triple P m Q) \<Longrightarrow> triple (\<lambda>n. P n \<and> c) m Q"
  by (auto simp: triple_def)

lemma release_keeps:
  "triple (backoffs_are b) (release K cfg p)
     (\<lambda>r n. backoffs_are b n \<and> om_deletion (pod_meta (fst r)) = om_deletion (pod_meta p))"
proof -
  have fin: "triple (backoffs_are b) (remove_finalizer K p)
      (\<lambda>r n. backoffs_are b n \<and> om_deletion (pod_meta (fst r)) = om_deletion (pod_meta p))"
    unfolding remove_finalizer_def Let_def
    by (auto intro!: triple_return triple_bind [OF world_triple [where c = True, simplified]]
        split: sum.split)
  show ?thesis
    unfolding release_def
    by (rule triple_bind [OF fin])
      (auto intro!: triple_return triple_bind [OF world_triple] split: prod.split option.split sum.split)
qed

text \<open>What \<open>Delete\<close> leaves of the restart states, when it ends with the state \<open>st\<close>.\<close>

definition delete_leaves :: "string \<Rightarrow> backoffs \<Rightarrow> 'q answer \<Rightarrow> backoffs \<Rightarrow> bool" where
  "delete_leaves v b a b' \<longleftrightarrow> b' = b \<or> b' = forget v b \<or>
     b' = forget_all v b \<and>
     (\<exists>p. st_pod (fst a) = Some p \<and> om_deletion (pod_meta p) \<noteq> None \<and> st_phase (fst a) = PhaseExited)"

lemma leaves_same:
  "triple (backoffs_are b) (State_Monad.return a) (\<lambda>a n. delete_leaves v b a (node_backoffs n))"
  by (rule triple_return) (simp add: delete_leaves_def backoffs_are_def)

lemma update_triple: "triple (backoffs_are b) (update_backoffs f) (\<lambda>_. backoffs_are (f b))"
  by (auto simp: triple_def backoffs_are_def update_backoffs_def on_backoffs_def)

lemmas kept_triples = delete_secrets_keeps [unfolded keeps_def] finished_keeps [unfolded keeps_def]

lemma delete_finished_leaves:
  "triple (backoffs_are b) (delete_finished K C cfg node v st p)
     (\<lambda>a n. delete_leaves v b a (node_backoffs n))"
proof -
  have exited: "triple (backoffs_are b)
      (do { _ \<leftarrow> update_backoffs (if om_deletion (pod_meta p) \<noteq> None then forget_all v else forget v);
            e \<leftarrow> delete_secrets K C cfg node v False;
            State_Monad.return (st\<lparr>st_pod := Some p', st_phase := PhaseExited\<rparr>, e) })
      (\<lambda>a n. delete_leaves v b a (node_backoffs n))"
    if "om_deletion (pod_meta p') = om_deletion (pod_meta p)" for p'
    by (rule triple_bind [OF update_triple], rule triple_bind [OF kept_triples(1)], rule triple_return)
      (use that in \<open>simp add: delete_leaves_def backoffs_are_def\<close>)
  show ?thesis
    unfolding delete_finished_def
  proof (rule triple_bind [OF release_keeps], goal_cases)
    case (1 r)
    obtain p' e where r: "r = (p', e)" by (cases r)
    show ?case
      unfolding r fst_conv prod.case
      by (rule triple_pure, cases e) (simp_all only: option.case leaves_same exited)
  qed
qed

lemma delete_running_leaves:
  "triple (backoffs_are b) (delete_running K cfg st p) (\<lambda>a n. delete_leaves v b a (node_backoffs n))"
  unfolding delete_running_def
  by (auto intro!: leaves_same triple_bind [OF world_triple [where c = True, simplified]])

lemma delete_leaves_triple:
  "triple (backoffs_are b) (delete_pod K C cfg node v) (\<lambda>a n. delete_leaves v b a (node_backoffs n))"
proof -
  have get: "triple (backoffs_are b) (get_state K C cfg node v) (\<lambda>_. backoffs_are b)"
    unfolding get_state_def Let_def
    by (auto intro!: triple_return triple_bind [OF world_triple [where c = True, simplified]])
  have absent: "triple (backoffs_are b)
      (do { _ \<leftarrow> update_backoffs (forget v);
            e \<leftarrow> delete_secrets K C cfg node v False;
            State_Monad.return (st, e) }) (\<lambda>a n. delete_leaves v b a (node_backoffs n))" for st
    by (rule triple_bind [OF update_triple], rule triple_bind [OF kept_triples(1)], rule triple_return)
      (simp add: delete_leaves_def backoffs_are_def)
  show ?thesis
    unfolding delete_pod_def
    by (rule triple_bind [OF get])
      (auto split: option.split intro!: leaves_same absent triple_bind [OF kept_triples(2)]
        delete_finished_leaves delete_running_leaves)
qed

text \<open>
  C28. A give-up survives the deletion of its pod (kubelet retrying a stage must not log in again with
  the same refused credentials), except when the finished pod was being deleted by somebody else;
  no other volume's restart state is touched.
\<close>

theorem delete_keeps_give_up:
  assumes "node_backoffs n v = Some e" and "gave_up (entry_backoff e)"
    and "run_state (delete_pod K C cfg node v) n = ((st, error), n')"
  shows "(node_backoffs n' v = Some e \<or>
      (\<exists>p. st_pod st = Some p \<and> om_deletion (pod_meta p) \<noteq> None \<and> st_phase st = PhaseExited)) \<and>
    (\<forall>u. u \<noteq> v \<longrightarrow> node_backoffs n' u = node_backoffs n u)"
proof -
  have "delete_leaves v (node_backoffs n) (st, error) (node_backoffs n')"
    by (rule tripleD [OF delete_leaves_triple _ assms(3)]) (simp add: backoffs_are_def)
  then show ?thesis
    using assms(1,2) by (auto simp: delete_leaves_def forget_def forget_all_def)
qed

theorem delete_keeps_give_up_witness:
  "node_backoffs (snd (run_state (delete_pod demo_cluster demo_codec demo_config ''n1'' ''d1'') demo_node)) ''d1''
   = Some demo_entry"
proof -
  obtain st error n' where r: "run_state (delete_pod demo_cluster demo_codec demo_config ''n1'' ''d1'') demo_node
      = ((st, error), n')"
    by (metis surj_pair)
  have "st_pod st = None"
    using r by (auto simp: delete_pod_def get_state_def on_world_def demo_cluster_def Let_def
        no_state_def update_backoffs_def on_backoffs_def delete_secrets_def)
  moreover have "node_backoffs demo_node ''d1'' = Some demo_entry" by (simp add: demo_node_def)
  moreover have "gave_up (entry_backoff demo_entry)" by (simp add: demo_entry_def)
  ultimately show ?thesis using delete_keeps_give_up [OF _ _ r] r by fastforce
qed

end
