(* ===== verification/Key_Lock.thy ===== *)
theory Key_Lock
  imports Main
begin

text \<open>
  The lock per volume (internal/driver/keylock.go): a map from keys to reference-counted mutexes. The
  code between \<open>l.mu.Lock()\<close> and \<open>l.mu.Unlock()\<close> is one step; the mutex of an entry is taken and
  freed in steps of their own. Threads are numbers, entries are addresses in a heap, so that two
  entries of one key, one of them deleted too early, can be told apart.

  The invariant says which threads an entry counts; mutual exclusion, the absence of leaks and
  progress follow from it by rule induction.
\<close>

record lock_entry =
  lk_holder :: "nat option"
  lk_refs :: int

text \<open>Where a thread is: outside, blocked in \<open>e.Lock()\<close>, inside, or between \<open>e.Unlock()\<close> and \<open>refs--\<close>.\<close>

datatype progress = Outside | Waiting string nat | Inside string nat | Leaving string nat

record key_lock =
  kl_locks :: "string \<Rightarrow> nat option"
  kl_heap :: "nat \<Rightarrow> lock_entry option"
  kl_next :: nat
  kl_threads :: "nat \<Rightarrow> progress"

definition new_lock :: key_lock where
  "new_lock = \<lparr>kl_locks = Map.empty, kl_heap = Map.empty, kl_next = 0, kl_threads = \<lambda>_. Outside\<rparr>"

subsection \<open>Lock and unlock\<close>

text \<open>\<open>Lock\<close> up to \<open>l.mu.Unlock()\<close>: find or make the entry of the key and count one more thread.\<close>

definition lock_enter :: "nat \<Rightarrow> string \<Rightarrow> key_lock \<Rightarrow> key_lock" where
  "lock_enter t key l =
     (let found = kl_locks l key;
          e = (case found of None \<Rightarrow> kl_next l | Some e \<Rightarrow> e);
          entry = (case found of
              None \<Rightarrow> \<lparr>lk_holder = None, lk_refs = 0\<rparr>
            | Some e \<Rightarrow> the (kl_heap l e))
      in \<lparr>kl_locks = (kl_locks l)(key \<mapsto> e),
          kl_heap = (kl_heap l)(e \<mapsto> entry\<lparr>lk_refs := lk_refs entry + 1\<rparr>),
          kl_next = (if found = None then kl_next l + 1 else kl_next l),
          kl_threads = (kl_threads l)(t := Waiting key e)\<rparr>)"

text \<open>\<open>e.Lock()\<close> returns: only when nobody holds the mutex.\<close>

definition lock_take :: "nat \<Rightarrow> key_lock \<Rightarrow> key_lock option" where
  "lock_take t l =
     (case kl_threads l t of
        Waiting key e \<Rightarrow>
          (case kl_heap l e of
             None \<Rightarrow> None
           | Some entry \<Rightarrow>
               if lk_holder entry = None
               then Some (l\<lparr>kl_heap := (kl_heap l)(e \<mapsto> entry\<lparr>lk_holder := Some t\<rparr>),
                            kl_threads := (kl_threads l)(t := Inside key e)\<rparr>)
               else None)
      | _ \<Rightarrow> None)"

text \<open>The unlock function: \<open>e.Unlock()\<close>, then the rest under \<open>l.mu\<close>.\<close>

definition lock_free :: "nat \<Rightarrow> key_lock \<Rightarrow> key_lock option" where
  "lock_free t l =
     (case kl_threads l t of
        Inside key e \<Rightarrow>
          map_option (\<lambda>entry.
            l\<lparr>kl_heap := (kl_heap l)(e \<mapsto> entry\<lparr>lk_holder := None\<rparr>),
              kl_threads := (kl_threads l)(t := Leaving key e)\<rparr>) (kl_heap l e)
      | _ \<Rightarrow> None)"

definition lock_leave :: "nat \<Rightarrow> key_lock \<Rightarrow> key_lock option" where
  "lock_leave t l =
     (case kl_threads l t of
        Leaving key e \<Rightarrow>
          map_option (\<lambda>entry.
            (let left = lk_refs entry - 1
             in l\<lparr>kl_heap := (kl_heap l)(e \<mapsto> entry\<lparr>lk_refs := left\<rparr>),
                  kl_locks := (if left = 0 then (kl_locks l)(key := None) else kl_locks l),
                  kl_threads := (kl_threads l)(t := Outside)\<rparr>)) (kl_heap l e)
      | _ \<Rightarrow> None)"

inductive lock_step :: "key_lock \<Rightarrow> key_lock \<Rightarrow> bool" where
  enter: "kl_threads l t = Outside \<Longrightarrow> lock_step l (lock_enter t key l)"
| take: "lock_take t l = Some l' \<Longrightarrow> lock_step l l'"
| free: "lock_free t l = Some l' \<Longrightarrow> lock_step l l'"
| leave: "lock_leave t l = Some l' \<Longrightarrow> lock_step l l'"

inductive lock_reachable :: "key_lock \<Rightarrow> bool" where
  start: "lock_reachable new_lock"
| step: "lock_reachable l \<Longrightarrow> lock_step l l' \<Longrightarrow> lock_reachable l'"

inductive_cases lock_stepE: "lock_step l l'"

subsection \<open>The invariant\<close>

text \<open>The key and the entry a thread is at, and the threads an entry counts.\<close>

definition at :: "progress \<Rightarrow> (string \<times> nat) option" where
  "at p = (case p of Outside \<Rightarrow> None | Waiting k e \<Rightarrow> Some (k, e) | Inside k e \<Rightarrow> Some (k, e)
     | Leaving k e \<Rightarrow> Some (k, e))"

lemma at_simps [simp]:
  "at Outside = None" "at (Waiting k e) = Some (k, e)" "at (Inside k e) = Some (k, e)"
  "at (Leaving k e) = Some (k, e)"
  by (simp_all add: at_def)

definition users :: "key_lock \<Rightarrow> string \<Rightarrow> nat set" where
  "users l key = {t. \<exists>e. at (kl_threads l t) = Some (key, e)}"

text \<open>
  One key: no entry and no thread, or one entry that counts its threads and whose mutex is held by
  the one thread inside.
\<close>

definition key_ok :: "key_lock \<Rightarrow> string \<Rightarrow> bool" where
  "key_ok l key \<longleftrightarrow>
     (case kl_locks l key of
        None \<Rightarrow> users l key = {}
      | Some e \<Rightarrow> e < kl_next l \<and> finite (users l key) \<and> users l key \<noteq> {} \<and>
          (\<forall>t e'. at (kl_threads l t) = Some (key, e') \<longrightarrow> e' = e) \<and>
          (\<exists>entry. kl_heap l e = Some entry \<and> lk_refs entry = int (card (users l key)) \<and>
             (\<forall>t. lk_holder entry = Some t \<longleftrightarrow> kl_threads l t = Inside key e)))"

definition lock_inv :: "key_lock \<Rightarrow> bool" where
  "lock_inv l \<longleftrightarrow> (\<forall>key. key_ok l key) \<and>
     (\<forall>k k' e. kl_locks l k = Some e \<and> kl_locks l k' = Some e \<longrightarrow> k = k')"

lemma lock_inv_new: "lock_inv new_lock"
  by (simp add: lock_inv_def key_ok_def new_lock_def users_def)

text \<open>A step on one key leaves the others alone.\<close>

lemma key_ok_frame:
  assumes "key_ok l k" and locks: "kl_locks l' k = kl_locks l k"
    and heap: "\<And>e. kl_locks l k = Some e \<Longrightarrow> kl_heap l' e = kl_heap l e"
    and "kl_next l \<le> kl_next l'"
    and threads: "\<And>t. kl_threads l' t = kl_threads l t \<or>
      (\<forall>e. at (kl_threads l t) \<noteq> Some (k, e) \<and> at (kl_threads l' t) \<noteq> Some (k, e))"
  shows "key_ok l' k"
proof -
  have a: "at (kl_threads l' t) = Some (k, e) \<longleftrightarrow> at (kl_threads l t) = Some (k, e)" for t e
    using threads [of t] by auto
  have u: "users l' k = users l k" by (simp add: users_def a)
  have i: "kl_threads l' t = Inside k e \<longleftrightarrow> kl_threads l t = Inside k e" for t e
    using threads [of t] by auto
  show ?thesis
  proof (cases "kl_locks l k")
    case None
    then show ?thesis using assms(1) by (simp add: key_ok_def locks u)
  next
    case (Some e)
    then show ?thesis using assms(1,4) heap [OF Some] by (simp add: key_ok_def locks u i a)
  qed
qed

lemma users_insert:
  assumes "kl_threads l' = (kl_threads l)(t := p)" and "at p = Some (k, e)"
  shows "users l' k = insert t (users l k)"
  using assms by (auto simp: users_def)

lemma users_remove:
  assumes "kl_threads l' = (kl_threads l)(t := p)" and "at p = None"
  shows "users l' k = users l k - {t}"
  using assms by (auto simp: users_def)

lemma key_okE:
  assumes "key_ok l k" and "at (kl_threads l t) = Some (k, e)"
  obtains entry where "kl_locks l k = Some e" "kl_heap l e = Some entry" "e < kl_next l"
    "finite (users l k)" "lk_refs entry = int (card (users l k))"
    "\<And>u. lk_holder entry = Some u \<longleftrightarrow> kl_threads l u = Inside k e"
    "\<And>u e'. at (kl_threads l u) = Some (k, e') \<Longrightarrow> e' = e"
proof (cases "kl_locks l k")
  case None
  then have "users l k = {}" using assms(1) by (simp add: key_ok_def)
  then show thesis using assms(2) by (auto simp: users_def)
next
  case (Some e0)
  obtain entry where k: "e0 < kl_next l" "finite (users l k)" "kl_heap l e0 = Some entry"
    "lk_refs entry = int (card (users l k))"
    and holder: "\<And>u. lk_holder entry = Some u \<longleftrightarrow> kl_threads l u = Inside k e0"
    and one: "\<And>u e'. at (kl_threads l u) = Some (k, e') \<Longrightarrow> e' = e0"
    using assms(1) Some by (auto simp: key_ok_def)
  have "e = e0" using assms(2) by (rule one)
  then show thesis using that [of entry] Some k holder one by blast
qed

lemma inv_entries_differ:
  "lock_inv l \<Longrightarrow> kl_locks l k = Some e \<Longrightarrow> kl_locks l k' = Some e' \<Longrightarrow> k \<noteq> k' \<Longrightarrow> e \<noteq> e'"
  by (auto simp: lock_inv_def)

lemma key_okI:
  assumes "kl_locks l k = Some e" "kl_heap l e = Some entry" "e < kl_next l"
    and "finite (users l k)" "users l k \<noteq> {}" "lk_refs entry = int (card (users l k))"
    and "\<And>u. lk_holder entry = Some u \<longleftrightarrow> kl_threads l u = Inside k e"
    and "\<And>u e'. at (kl_threads l u) = Some (k, e') \<Longrightarrow> e' = e"
  shows "key_ok l k"
  using assms by (auto simp: key_ok_def)

lemma lock_invI:
  assumes "key_ok l' key" and "\<And>k. k \<noteq> key \<Longrightarrow> key_ok l' k"
    and "\<And>k k' e. kl_locks l' k = Some e \<Longrightarrow> kl_locks l' k' = Some e \<Longrightarrow> k = k'"
  shows "lock_inv l'"
proof -
  have "key_ok l' k" for k using assms(1,2) by (cases "k = key") auto
  then show ?thesis using assms(3) by (auto simp: lock_inv_def)
qed

lemma lock_enter_inv:
  assumes inv: "lock_inv l" and t: "kl_threads l t = Outside"
  shows "lock_inv (lock_enter t key l)"
proof -
  define l' where "l' = lock_enter t key l"
  define e where "e = (case kl_locks l key of None \<Rightarrow> kl_next l | Some e \<Rightarrow> e)"
  define entry where "entry = (case kl_locks l key of None \<Rightarrow> \<lparr>lk_holder = None, lk_refs = 0\<rparr>
    | Some e \<Rightarrow> the (kl_heap l e))"
  have ok: "key_ok l k" for k using inv by (simp add: lock_inv_def)
  have below: "kl_locks l k = Some e \<Longrightarrow> e < kl_next l" for k e
    using ok [of k] by (auto simp: key_ok_def)
  have fields: "kl_threads l' = (kl_threads l)(t := Waiting key e)"
    "kl_locks l' = (kl_locks l)(key \<mapsto> e)"
    "kl_heap l' = (kl_heap l)(e \<mapsto> entry\<lparr>lk_refs := lk_refs entry + 1\<rparr>)"
    "kl_next l \<le> kl_next l'" "e < kl_next l'"
    using below [of key] by (auto simp: l'_def lock_enter_def Let_def e_def entry_def split: option.split)
  have new: "t \<notin> users l key" using t by (simp add: users_def)
  have u: "users l' key = insert t (users l key)" by (simp add: users_insert [OF fields(1)])
  have before: "finite (users l key) \<and> lk_refs entry = int (card (users l key)) \<and>
      (\<forall>u. lk_holder entry = Some u \<longleftrightarrow> kl_threads l u = Inside key e) \<and>
      (\<forall>u e'. at (kl_threads l u) = Some (key, e') \<longrightarrow> e' = e)"
  proof (cases "kl_locks l key")
    case None
    with ok [of key] have "users l key = {}" by (simp add: key_ok_def)
    then have a: "at (kl_threads l u) \<noteq> Some (key, e')" for u e' by (auto simp: users_def)
    then have "kl_threads l u \<noteq> Inside key e'" for u e' by (metis at_simps(3))
    with a None \<open>users l key = {}\<close> show ?thesis by (simp add: entry_def)
  next
    case Some
    with ok [of key] show ?thesis by (auto simp: key_ok_def e_def entry_def)
  qed
  have "key_ok l' key"
    using before fields new u t
    by (intro key_okI [where e = e and entry = "entry\<lparr>lk_refs := lk_refs entry + 1\<rparr>"])
      (auto split: if_splits)
  moreover have "key_ok l' k" if k: "k \<noteq> key" for k
  proof (rule key_ok_frame [OF ok])
    show "kl_heap l' e' = kl_heap l e'" if "kl_locks l k = Some e'" for e'
      using below [OF that] inv_entries_differ [OF inv that _ k]
      by (auto simp: fields(3)) (auto simp: e_def split: option.splits)
    show "kl_threads l' u = kl_threads l u \<or>
        (\<forall>e. at (kl_threads l u) \<noteq> Some (k, e) \<and> at (kl_threads l' u) \<noteq> Some (k, e))" for u
      using k t by (auto simp: fields(1))
  qed (use k fields in auto)
  moreover have "k = k'" if "kl_locks l' k = Some e'" "kl_locks l' k' = Some e'" for k k' e'
    using that inv below [of k e'] below [of k' e']
    by (auto simp: fields(2) e_def lock_inv_def split: if_splits option.splits)
  ultimately have "lock_inv l'" by (rule lock_invI)
  then show ?thesis by (simp add: l'_def)
qed

text \<open>
  A step of a thread that is at an entry already: it changes that entry, keeps the others and the
  addresses, and at most drops the key when no other thread is at the entry.
\<close>

lemma lock_at_inv:
  assumes inv: "lock_inv l" and t: "at (kl_threads l t) = Some (key, e)"
    and threads: "kl_threads l' = (kl_threads l)(t := p)" and p: "at p = Some (key, e) \<or> at p = None"
    and heap: "kl_heap l' = (kl_heap l)(e \<mapsto> entry)" and "kl_next l' = kl_next l"
    and refs: "lk_refs entry = int (card (users l' key))"
    and holder: "\<And>u. lk_holder entry = Some u \<longleftrightarrow> kl_threads l' u = Inside key e"
    and locks: "kl_locks l' = (if users l' key = {} then (kl_locks l)(key := None) else kl_locks l)"
  shows "lock_inv l'"
proof -
  have ok: "key_ok l k" for k using inv by (simp add: lock_inv_def)
  have e: "kl_locks l key = Some e" "e < kl_next l" "finite (users l key)"
    by (rule key_okE [OF ok t], assumption)+
  have one: "e' = e" if "at (kl_threads l u) = Some (key, e')" for u e'
    by (rule key_okE [OF ok t]) (use that in blast)
  have u: "users l' key = (if at p = None then users l key - {t} else insert t (users l key))"
    using p by (auto simp: users_insert [OF threads] users_remove [OF threads])
  have one': "e' = e" if "at (kl_threads l' u) = Some (key, e')" for u e'
    using that one [of u] p by (auto simp: threads split: if_splits)
  have "key_ok l' key"
  proof (cases "users l' key = {}")
    case True
    then show ?thesis by (simp add: key_ok_def locks)
  next
    case False
    then show ?thesis
      using e u heap refs holder one' assms(6)
      by (intro key_okI [where e = e and entry = entry]) (auto simp: locks)
  qed
  moreover have "key_ok l' k" if k: "k \<noteq> key" for k
  proof (rule key_ok_frame [OF ok])
    show "kl_heap l' e' = kl_heap l e'" if "kl_locks l k = Some e'" for e'
      using inv_entries_differ [OF inv that e(1) k] by (simp add: heap)
    show "kl_threads l' u = kl_threads l u \<or>
        (\<forall>e. at (kl_threads l u) \<noteq> Some (k, e) \<and> at (kl_threads l' u) \<noteq> Some (k, e))" for u
      using k t p by (auto simp: threads)
  qed (use k assms(6) in \<open>auto simp: locks\<close>)
  moreover have "k = k'" if "kl_locks l' k = Some e'" "kl_locks l' k' = Some e'" for k k' e'
    using that inv by (auto simp: locks lock_inv_def split: if_splits)
  ultimately show ?thesis by (rule lock_invI)
qed

lemma lock_take_inv:
  assumes inv: "lock_inv l" and take: "lock_take t l = Some l'"
  shows "lock_inv l'"
proof -
  obtain key e entry where t: "kl_threads l t = Waiting key e" and entry: "kl_heap l e = Some entry"
      "lk_holder entry = None"
    and l': "l' = l\<lparr>kl_heap := (kl_heap l)(e \<mapsto> entry\<lparr>lk_holder := Some t\<rparr>),
      kl_threads := (kl_threads l)(t := Inside key e)\<rparr>"
    using take by (auto simp: lock_take_def split: progress.splits option.splits if_splits)
  have at: "at (kl_threads l t) = Some (key, e)" by (simp add: t)
  have "key_ok l key" using inv by (simp add: lock_inv_def)
  then obtain entry' where e: "kl_locks l key = Some e" "kl_heap l e = Some entry'"
      "lk_refs entry' = int (card (users l key))"
    and holder: "\<And>u. lk_holder entry' = Some u \<longleftrightarrow> kl_threads l u = Inside key e"
    using at by (rule key_okE) auto
  have threads: "kl_threads l' = (kl_threads l)(t := Inside key e)"
    and fields: "kl_heap l' = (kl_heap l)(e \<mapsto> entry\<lparr>lk_holder := Some t\<rparr>)" "kl_next l' = kl_next l"
      "kl_locks l' = kl_locks l" by (simp_all add: l')
  have "t \<in> users l key" by (auto simp: users_def t)
  then have u: "users l' key = users l key"
    by (auto simp: users_insert [OF threads])
  have free: "kl_threads l u \<noteq> Inside key e" for u
    using holder [of u] entry e(2) by simp
  show ?thesis
    by (rule lock_at_inv [OF inv at threads, where entry = "entry\<lparr>lk_holder := Some t\<rparr>"])
      (use e entry free \<open>t \<in> users l key\<close> in \<open>auto simp: threads fields u\<close>)
qed

lemma lock_free_inv:
  assumes inv: "lock_inv l" and free: "lock_free t l = Some l'"
  shows "lock_inv l'"
proof -
  obtain key e entry where t: "kl_threads l t = Inside key e" and entry: "kl_heap l e = Some entry"
    and l': "l' = l\<lparr>kl_heap := (kl_heap l)(e \<mapsto> entry\<lparr>lk_holder := None\<rparr>),
      kl_threads := (kl_threads l)(t := Leaving key e)\<rparr>"
    using free by (auto simp: lock_free_def split: progress.splits)
  have at: "at (kl_threads l t) = Some (key, e)" by (simp add: t)
  have "key_ok l key" using inv by (simp add: lock_inv_def)
  then obtain entry' where e: "kl_locks l key = Some e" "kl_heap l e = Some entry'"
      "lk_refs entry' = int (card (users l key))"
    and holder: "\<And>u. lk_holder entry' = Some u \<longleftrightarrow> kl_threads l u = Inside key e"
    using at by (rule key_okE) auto
  have threads: "kl_threads l' = (kl_threads l)(t := Leaving key e)"
    and fields: "kl_heap l' = (kl_heap l)(e \<mapsto> entry\<lparr>lk_holder := None\<rparr>)" "kl_next l' = kl_next l"
      "kl_locks l' = kl_locks l" by (simp_all add: l')
  have "t \<in> users l key" by (auto simp: users_def t)
  then have u: "users l' key = users l key"
    by (auto simp: users_insert [OF threads])
  have other: "u = t" if "kl_threads l u = Inside key e" for u
    using holder [of u] holder [of t] that t by simp
  show ?thesis
    by (rule lock_at_inv [OF inv at threads, where entry = "entry\<lparr>lk_holder := None\<rparr>"])
      (use e entry other \<open>t \<in> users l key\<close> in \<open>auto simp: threads fields u\<close>)
qed

lemma lock_leave_inv:
  assumes inv: "lock_inv l" and leave: "lock_leave t l = Some l'"
  shows "lock_inv l'"
proof -
  obtain key e entry where t: "kl_threads l t = Leaving key e" and entry: "kl_heap l e = Some entry"
    and threads: "kl_threads l' = (kl_threads l)(t := Outside)"
    and fields: "kl_heap l' = (kl_heap l)(e \<mapsto> entry\<lparr>lk_refs := lk_refs entry - 1\<rparr>)"
      "kl_next l' = kl_next l"
      "kl_locks l' = (if lk_refs entry = 1 then (kl_locks l)(key := None) else kl_locks l)"
    using leave by (auto simp: lock_leave_def Let_def split: progress.splits)
  have at: "at (kl_threads l t) = Some (key, e)" by (simp add: t)
  have "key_ok l key" using inv by (simp add: lock_inv_def)
  then obtain entry' where e: "kl_locks l key = Some e" "kl_heap l e = Some entry'"
      "lk_refs entry' = int (card (users l key))" "finite (users l key)"
    and holder: "\<And>u. lk_holder entry' = Some u \<longleftrightarrow> kl_threads l u = Inside key e"
    using at by (rule key_okE) auto
  have "t \<in> users l key" by (auto simp: users_def t)
  moreover have u: "users l' key = users l key - {t}" by (simp add: users_remove [OF threads])
  ultimately have "card (users l key) = Suc (card (users l' key))"
    using card_Suc_Diff1 [OF e(4)] by simp
  then have card: "int (card (users l' key)) = lk_refs entry - 1" using e entry by simp
  have "finite (users l' key)" using e(4) u by simp
  then have "users l' key = {} \<longleftrightarrow> lk_refs entry = 1"
    using card card_eq_0_iff [of "users l' key"] by auto
  then show ?thesis
    by (intro lock_at_inv [OF inv at threads, where entry = "entry\<lparr>lk_refs := lk_refs entry - 1\<rparr>"])
      (use e entry holder t card in \<open>auto simp: threads fields\<close>)
qed

lemma lock_step_inv: "lock_step l l' \<Longrightarrow> lock_inv l \<Longrightarrow> lock_inv l'"
  by (auto elim!: lock_stepE intro: lock_enter_inv lock_take_inv lock_free_inv lock_leave_inv)

lemma lock_reachable_inv: "lock_reachable l \<Longrightarrow> lock_inv l"
  by (induction rule: lock_reachable.induct) (auto intro: lock_inv_new lock_step_inv)

lemma reachable_key_ok: "lock_reachable l \<Longrightarrow> key_ok l key"
  using lock_reachable_inv by (auto simp: lock_inv_def)

lemma key_at: "key_ok l k \<Longrightarrow> at (kl_threads l t) = Some (k, e) \<Longrightarrow> kl_locks l k = Some e"
  by (rule key_okE)

lemma reachable_one_thread:
  assumes "lock_reachable l" and "kl_threads l t = Inside key e" and "kl_threads l u = Inside key e'"
  shows "t = u"
proof -
  have ok: "key_ok l key" using assms(1) by (rule reachable_key_ok)
  have at: "at (kl_threads l t) = Some (key, e)" "at (kl_threads l u) = Some (key, e')"
    using assms(2,3) by simp_all
  have "e' = e" using key_at [OF ok at(1)] key_at [OF ok at(2)] by simp
  then have "kl_threads l u = Inside key e" using assms(3) by simp
  moreover obtain entry where "kl_heap l e = Some entry"
    and "\<And>v. lk_holder entry = Some v \<longleftrightarrow> kl_threads l v = Inside key e"
    using ok at(1) by (rule key_okE) (rule that)
  ultimately show ?thesis using assms(2) by (metis option.inject)
qed

lemma key_ok_counts:
  assumes "key_ok l key"
  shows "kl_locks l key = None \<and> users l key = {} \<or>
    (\<exists>e entry. kl_locks l key = Some e \<and> kl_heap l e = Some entry \<and> finite (users l key) \<and>
       lk_refs entry = int (card (users l key)) \<and> 0 < lk_refs entry)"
proof (cases "kl_locks l key")
  case None
  then show ?thesis using assms by (simp add: key_ok_def)
next
  case (Some e)
  then obtain entry where "kl_heap l e = Some entry" "lk_refs entry = int (card (users l key))"
      and "finite (users l key)" "users l key \<noteq> {}"
    using assms by (auto simp: key_ok_def)
  moreover from this have "0 < card (users l key)" by (simp add: card_gt_0_iff)
  ultimately show ?thesis using Some by (intro disjI2 exI [of _ e] exI [of _ entry]) simp
qed

text \<open>
  C21. The operations on a volume never interleave, and the map keeps exactly the entries in use. In
  every reachable state two threads past \<open>Lock\<close> on one key, wherever the entries of the map have come
  and gone in between, are one thread; and a key either has no entry, and no thread waits on it, is
  inside or still leaves, or has the one entry whose count is the number of those threads.
\<close>

theorem one_thread_per_key:
  assumes "lock_reachable l"
  shows "(\<forall>t u e e'. kl_threads l t = Inside key e \<longrightarrow> kl_threads l u = Inside key e' \<longrightarrow> t = u) \<and>
    (kl_locks l key = None \<and> users l key = {} \<or>
     (\<exists>e entry. kl_locks l key = Some e \<and> kl_heap l e = Some entry \<and> finite (users l key) \<and>
        lk_refs entry = int (card (users l key)) \<and> 0 < lk_refs entry))"
  using reachable_one_thread [OF assms] key_ok_counts [OF reachable_key_ok [OF assms]] by blast

text \<open>A run with one thread inside and another one waiting, and a third one on another key.\<close>

definition demo_locked :: key_lock where
  "demo_locked = lock_enter 2 ''w'' (lock_enter 1 ''v'' (the (lock_take 0 (lock_enter 0 ''v'' new_lock))))"

lemmas lock_defs = lock_enter_def lock_take_def lock_free_def lock_leave_def new_lock_def Let_def

lemma demo_locked_reachable: "lock_reachable demo_locked"
proof -
  let ?a = "lock_enter 0 ''v'' new_lock" and ?b = "the (lock_take 0 (lock_enter 0 ''v'' new_lock))"
  have "lock_reachable ?a"
    by (rule lock_reachable.step [OF lock_reachable.start], rule lock_step.enter) (simp add: new_lock_def)
  then have "lock_reachable ?b"
    by (rule lock_reachable.step) (rule lock_step.take [where t = 0], simp add: lock_defs)
  then have "lock_reachable (lock_enter 1 ''v'' ?b)"
    by (rule lock_reachable.step) (rule lock_step.enter, simp add: lock_defs)
  then show ?thesis
    unfolding demo_locked_def
    by (rule lock_reachable.step) (rule lock_step.enter, simp add: lock_defs)
qed

theorem one_thread_per_key_witness:
  "kl_threads demo_locked 0 = Inside ''v'' 0 \<and> kl_threads demo_locked 1 \<noteq> Inside ''v'' 0 \<and>
   (\<exists>e entry. kl_locks demo_locked ''v'' = Some e \<and> kl_heap demo_locked e = Some entry \<and>
      lk_refs entry = int (card (users demo_locked ''v'')))"
proof -
  have "kl_threads demo_locked 0 = Inside ''v'' 0" and "kl_locks demo_locked ''v'' \<noteq> None"
    by (simp_all add: demo_locked_def lock_defs)
  with one_thread_per_key [OF demo_locked_reachable, of "''v''"] show ?thesis by auto
qed

subsection \<open>Progress\<close>

text \<open>The steps of the threads that are at an entry: none of them is a new call of \<open>Lock\<close>.\<close>

definition advances :: "nat \<Rightarrow> key_lock \<Rightarrow> key_lock \<Rightarrow> bool" where
  "advances t l l' \<longleftrightarrow>
     lock_take t l = Some l' \<or> lock_free t l = Some l' \<or> lock_leave t l = Some l'"

lemma advancesI:
  "lock_take t l = Some l' \<Longrightarrow> advances t l l'"
  "lock_free t l = Some l' \<Longrightarrow> advances t l l'"
  "lock_leave t l = Some l' \<Longrightarrow> advances t l l'"
  by (simp_all add: advances_def)

inductive drains :: "key_lock \<Rightarrow> key_lock \<Rightarrow> bool" where
  stop: "drains l l"
| advance: "advances t l l' \<Longrightarrow> drains l' l'' \<Longrightarrow> drains l l''"

definition steps_left :: "progress \<Rightarrow> nat" where
  "steps_left p = (case p of Outside \<Rightarrow> 0 | Leaving _ _ \<Rightarrow> 1 | Inside _ _ \<Rightarrow> 2 | Waiting _ _ \<Rightarrow> 3)"

definition busy_threads :: "key_lock \<Rightarrow> nat set" where
  "busy_threads l = {t. kl_threads l t \<noteq> Outside}"

definition work_left :: "key_lock \<Rightarrow> nat" where
  "work_left l = (\<Sum>t \<in> busy_threads l. steps_left (kl_threads l t))"

lemma advances_progress:
  assumes "advances t l l'"
  shows "\<exists>p. kl_threads l' = (kl_threads l)(t := p) \<and> steps_left p < steps_left (kl_threads l t)"
  using assms
  by (auto simp: advances_def lock_take_def lock_free_def lock_leave_def Let_def steps_left_def
      split: progress.splits option.splits if_splits)

lemma advances_work:
  assumes "advances t l l'" and fin: "finite (busy_threads l)"
  shows "work_left l' < work_left l \<and> finite (busy_threads l')"
proof -
  obtain p where p: "kl_threads l' = (kl_threads l)(t := p)" "steps_left p < steps_left (kl_threads l t)"
    using advances_progress [OF assms(1)] by blast
  then have t: "t \<in> busy_threads l" by (auto simp: busy_threads_def steps_left_def)
  have sub: "busy_threads l' \<subseteq> busy_threads l" using p t by (auto simp: busy_threads_def)
  have "work_left l' = (\<Sum>u \<in> busy_threads l. steps_left (kl_threads l' u))"
    unfolding work_left_def using fin sub
    by (rule sum.mono_neutral_left) (auto simp: busy_threads_def steps_left_def)
  also have "\<dots> < work_left l"
    unfolding work_left_def using fin t p by (intro sum_strict_mono_ex1) (auto simp: less_imp_le)
  finally show ?thesis using sub fin by (auto intro: finite_subset)
qed

lemma lock_reachable_finite: "lock_reachable l \<Longrightarrow> finite (busy_threads l)"
proof (induction rule: lock_reachable.induct)
  case start
  show ?case by (simp add: busy_threads_def new_lock_def)
next
  case (step l l')
  from step(2) show ?case
  proof (cases rule: lock_step.cases)
    case (enter t key)
    then have "busy_threads l' \<subseteq> insert t (busy_threads l)"
      by (auto simp: busy_threads_def lock_enter_def Let_def)
    then show ?thesis using step.IH by (auto intro: finite_subset)
  qed (use step.IH in \<open>auto dest: advancesI advances_work\<close>)
qed

text \<open>No thread waits for nothing: some thread of the key can always take its next step.\<close>

lemma key_progress:
  assumes reach: "lock_reachable l" and busy: "kl_threads l t \<noteq> Outside"
  shows "\<exists>u l'. advances u l l'"
proof -
  obtain key e where t: "at (kl_threads l t) = Some (key, e)"
    using busy by (cases "kl_threads l t") auto
  obtain entry where e: "kl_heap l e = Some entry"
    and holder: "\<And>u. lk_holder entry = Some u \<longleftrightarrow> kl_threads l u = Inside key e"
    using reachable_key_ok [OF reach] t by (rule key_okE) (rule that)
  show ?thesis
  proof (cases "lk_holder entry")
    case None
    then have "kl_threads l t \<noteq> Inside key e" using holder [of t] by simp
    then have "kl_threads l t = Waiting key e \<or> kl_threads l t = Leaving key e"
      using t by (cases "kl_threads l t") auto
    then show ?thesis
    proof
      assume "kl_threads l t = Waiting key e"
      then show ?thesis using e None by (intro exI [where x = t] exI) (rule advancesI(1), simp add: lock_take_def)
    next
      assume "kl_threads l t = Leaving key e"
      then show ?thesis using e by (intro exI [where x = t] exI) (rule advancesI(3), simp add: lock_leave_def)
    qed
  next
    case (Some u)
    then have "kl_threads l u = Inside key e" using holder by simp
    then show ?thesis using e by (intro exI [where x = u] exI) (rule advancesI(2), simp add: lock_free_def)
  qed
qed

lemma advances_reachable: "lock_reachable l \<Longrightarrow> advances t l l' \<Longrightarrow> lock_reachable l'"
  by (auto simp: advances_def intro: lock_reachable.step lock_step.intros)

lemma nobody_no_entry:
  assumes "lock_reachable l" and "\<And>t. kl_threads l t = Outside"
  shows "kl_locks l key = None"
proof -
  have "users l key = {}" using assms(2) by (auto simp: users_def)
  then show ?thesis using reachable_key_ok [OF assms(1), of key] by (auto simp: key_ok_def split: option.splits)
qed

text \<open>
  No thread is locked out and nothing leaks: from every reachable state the threads that are there
  can all finish, and once they have, no entry is left in the map.
\<close>

lemma locks_drain:
  assumes "lock_reachable l"
  shows "\<exists>l'. drains l l' \<and> (\<forall>t. kl_threads l' t = Outside) \<and> (\<forall>key. kl_locks l' key = None)"
  using assms
proof (induction "work_left l" arbitrary: l rule: less_induct)
  case less
  show ?case
  proof (cases "\<exists>t. kl_threads l t \<noteq> Outside")
    case False
    then show ?thesis using nobody_no_entry [OF less.prems] by (auto intro: drains.stop)
  next
    case True
    then obtain u l' where step: "advances u l l'" using key_progress [OF less.prems] by blast
    have "work_left l' < work_left l"
      using advances_work [OF step lock_reachable_finite [OF less.prems]] by simp
    from less.hyps [OF this advances_reachable [OF less.prems step]]
    show ?thesis using step by (blast intro: drains.advance)
  qed
qed

text \<open>And whatever the schedule, they do: \<open>lock_run l n l'\<close> is any run of \<open>n\<close> such steps.\<close>

inductive lock_run :: "key_lock \<Rightarrow> nat \<Rightarrow> key_lock \<Rightarrow> bool" where
  stop: "lock_run l 0 l"
| advance: "advances t l l' \<Longrightarrow> lock_run l' n l'' \<Longrightarrow> lock_run l (Suc n) l''"

lemma lock_run_work:
  "lock_run l n l' \<Longrightarrow> lock_reachable l \<Longrightarrow> lock_reachable l' \<and> n + work_left l' \<le> work_left l"
proof (induction rule: lock_run.induct)
  case (advance t l l' n l'')
  have "work_left l' < work_left l"
    using advances_work [OF advance.hyps(1) lock_reachable_finite [OF advance.prems]] by simp
  then show ?case using advance.IH [OF advances_reachable [OF advance.prems advance.hyps(1)]] by simp
qed simp

text \<open>
  C22. Every schedule ends with nobody locked out and nothing leaked: from a reachable state, whatever order
  the goroutines that are in a Lock or hold one are scheduled in, they take at most three steps each, and
  when none of them can take another they are all out and no entry is left in the map.
\<close>

theorem locks_always_drain:
  assumes "lock_reachable l" and "lock_run l n l'"
  shows "n \<le> 3 * card (busy_threads l) \<and>
    ((\<nexists>t l''. advances t l' l'') \<longrightarrow> (\<forall>t. kl_threads l' t = Outside) \<and> (\<forall>key. kl_locks l' key = None))"
proof -
  have run: "lock_reachable l'" "n + work_left l' \<le> work_left l" using lock_run_work [OF assms(2,1)] by auto
  have "work_left l \<le> (\<Sum>t \<in> busy_threads l. 3)"
    unfolding work_left_def by (rule sum_mono) (simp add: steps_left_def split: progress.split)
  then have "n \<le> 3 * card (busy_threads l)" using run(2) by simp
  moreover have "kl_threads l' t = Outside" if "\<nexists>t l''. advances t l' l''" for t
    using key_progress [OF run(1), of t] that by blast
  ultimately show ?thesis using nobody_no_entry [OF run(1)] by blast
qed

text \<open>The concrete run goes on with the thread inside, which lets go.\<close>

theorem locks_always_drain_witness:
  "\<exists>l'. lock_run demo_locked 1 l' \<and> 1 \<le> 3 * card (busy_threads demo_locked)"
proof -
  obtain u l' where "advances u demo_locked l'"
    using key_progress [OF demo_locked_reachable, of 0] by (auto simp: demo_locked_def lock_defs)
  then have "lock_run demo_locked 1 l'" using lock_run.intros by (metis One_nat_def)
  with locks_always_drain [OF demo_locked_reachable this] show ?thesis by blast
qed

end
