(* ===== verification/Tenant.thy ===== *)
theory Tenant
  imports Prelude Csi_Types
begin

text \<open>
  When a volume may be mounted with the driver's own identity (internal/driver/tenant.go). The claims,
  volumes and classes of the Kubernetes API are read through the record \<open>kube\<close>; \<open>None\<close> in place of
  one is the nil client.
\<close>

record claim =
  cl_namespace :: string
  cl_name :: string
  cl_annotations :: "string gomap"
  cl_volume_name :: string

record csi_source =
  csi_driver :: string
  csi_handle :: string
  csi_stage_secret :: "(string \<times> string) option"

record persistent_volume =
  vol_name :: string
  vol_csi :: "csi_source option"
  vol_class :: string

record 'w kube =
  kb_get_claim :: "string \<Rightarrow> string \<Rightarrow> ('w, api_failure + claim) state"
  kb_list_volumes :: "('w, api_failure + persistent_volume list) state"
  kb_class_parameters :: "string \<Rightarrow> ('w, api_failure + string gomap) state"

definition plugin_name :: string where "plugin_name = ''csi.retycfs.com''"

definition node_stage_secret_param :: string where
  "node_stage_secret_param = ''csi.storage.k8s.io/node-stage-secret-name''"

text \<open>\<open>ours\<close> and the loop of \<open>findPVs\<close>: the claim's own volume is put first.\<close>

definition is_ours :: "string \<Rightarrow> persistent_volume \<Rightarrow> bool" where
  "is_ours volume pv =
     (case vol_csi pv of
        None \<Rightarrow> False
      | Some src \<Rightarrow> csi_driver src = plugin_name \<and> csi_handle src = volume)"

definition found_step ::
  "string \<Rightarrow> claim option \<Rightarrow> persistent_volume list \<Rightarrow> persistent_volume \<Rightarrow> persistent_volume list" where
  "found_step volume claim found pv =
     (if \<not> is_ours volume pv then found
      else case claim of
          None \<Rightarrow> found @ [pv]
        | Some c \<Rightarrow> if vol_name pv = cl_volume_name c then pv # found else found @ [pv])"

definition find_volumes ::
  "'w kube \<Rightarrow> string \<Rightarrow> claim option \<Rightarrow> ('w, api_failure + persistent_volume list) state" where
  "find_volumes K volume claim =
     attempt (kb_list_volumes K) id (\<lambda>items.
       State_Monad.return (Inr (foldl (found_step volume claim) [] items)))"

text \<open>The volumes checked are ours: \<open>pv.Spec.CSI\<close> is not nil.\<close>

definition check_volume_identity :: "'w kube \<Rightarrow> persistent_volume \<Rightarrow> ('w, status + unit) state" where
  "check_volume_identity K pv =
     guarded (csi_stage_secret (the (vol_csi pv)) \<noteq> None) (err FailedPrecondition) (
     if vol_class pv = [] then State_Monad.return (Inr ())
     else do {
       r \<leftarrow> kb_class_parameters K (vol_class pv);
       State_Monad.return (case r of
           Inl ApiNotFound \<Rightarrow> Inr ()
         | Inl _ \<Rightarrow> Inl (err Unavailable)
         | Inr params \<Rightarrow>
             if map_of params node_stage_secret_param \<noteq> None then Inl (err FailedPrecondition)
             else Inr ())
     })"

primrec check_volumes :: "'w kube \<Rightarrow> persistent_volume list \<Rightarrow> ('w, status + unit) state" where
  "check_volumes K [] = State_Monad.return (Inr ())"
| "check_volumes K (pv # pvs) = attempt (check_volume_identity K pv) id (\<lambda>_. check_volumes K pvs)"

definition check_default_identity ::
  "'w kube option \<Rightarrow> string \<Rightarrow> claim option \<Rightarrow> ('w, status + unit) state" where
  "check_default_identity kube volume claim =
     (case kube of
        None \<Rightarrow> State_Monad.return (Inl (err FailedPrecondition))
      | Some K \<Rightarrow>
          attempt (find_volumes K volume claim) (\<lambda>_. err Unavailable) (\<lambda>pvs.
          guarded (pvs = []) (err FailedPrecondition) (
          check_volumes K pvs)))"

subsection \<open>What the driver's identity is used for\<close>

text \<open>The API reads the state of the cluster and leaves it as it is.\<close>

definition api_reads ::
  "'w kube \<Rightarrow> ('w \<Rightarrow> api_failure + persistent_volume list) \<Rightarrow>
   ('w \<Rightarrow> string \<Rightarrow> api_failure + string gomap) \<Rightarrow> bool" where
  "api_reads K volumes_of class_of \<longleftrightarrow>
     (\<forall>w. run_state (kb_list_volumes K) w = (volumes_of w, w)) \<and>
     (\<forall>w c. run_state (kb_class_parameters K c) w = (class_of w c, w))"

definition takes_default_identity ::
  "(string \<Rightarrow> api_failure + string gomap) \<Rightarrow> persistent_volume \<Rightarrow> bool" where
  "takes_default_identity class_of pv \<longleftrightarrow> csi_stage_secret (the (vol_csi pv)) = None \<and>
     (vol_class pv = [] \<or> class_of (vol_class pv) = Inl ApiNotFound \<or>
      (\<exists>params. class_of (vol_class pv) = Inr params \<and> node_stage_secret_param \<notin> fst ` set params))"

lemma found_set: "set (foldl (found_step v c) found pvs) = set found \<union> {pv \<in> set pvs. is_ours v pv}"
  by (induction pvs arbitrary: found) (auto simp: found_step_def split: option.split)

lemma check_volume_identity_run:
  assumes "api_reads K volumes_of class_of"
  shows "\<exists>r. run_state (check_volume_identity K pv) w = (r, w) \<and>
    (is_ok r \<longleftrightarrow> takes_default_identity (class_of w) pv)"
proof (cases "csi_stage_secret (the (vol_csi pv))")
  case None
  have "run_state (kb_class_parameters K (vol_class pv)) w = (class_of w (vol_class pv), w)"
    using assms by (simp add: api_reads_def)
  then show ?thesis
    using None by (auto simp: check_volume_identity_def run_guarded takes_default_identity_def
        map_of_eq_None_iff split: sum.split api_failure.split)
qed (simp add: check_volume_identity_def run_guarded takes_default_identity_def)

lemma check_volumes_run:
  assumes "api_reads K volumes_of class_of"
  shows "\<exists>r. run_state (check_volumes K pvs) w = (r, w) \<and>
    (is_ok r \<longleftrightarrow> (\<forall>pv \<in> set pvs. takes_default_identity (class_of w) pv))"
proof (induction pvs)
  case (Cons pv pvs)
  obtain r where r: "run_state (check_volume_identity K pv) w = (r, w)"
      "is_ok r \<longleftrightarrow> takes_default_identity (class_of w) pv"
    using check_volume_identity_run [OF assms] by blast
  obtain q where "run_state (check_volumes K pvs) w = (q, w)"
      "is_ok q \<longleftrightarrow> (\<forall>pv \<in> set pvs. takes_default_identity (class_of w) pv)"
    using Cons.IH by blast
  with r show ?case by (cases r) (simp_all add: run_attempt)
qed simp

lemma check_default_identity_run:
  assumes "api_reads K volumes_of class_of"
    and "run_state (check_default_identity (Some K) volume claim) w = (r, w')"
  shows "w' = w \<and>
    (r = Inr () \<longleftrightarrow> (\<exists>pvs. volumes_of w = Inr pvs \<and> (\<exists>pv \<in> set pvs. is_ours volume pv) \<and>
       (\<forall>pv \<in> set pvs. is_ours volume pv \<longrightarrow> takes_default_identity (class_of w) pv)))"
proof -
  have list: "run_state (kb_list_volumes K) w = (volumes_of w, w)"
    using assms(1) by (simp add: api_reads_def)
  show ?thesis
  proof (cases "volumes_of w")
    case (Inl e)
    with assms(2) list show ?thesis
      by (auto simp: check_default_identity_def find_volumes_def run_attempt)
  next
    case (Inr pvs)
    define ours where "ours = foldl (found_step volume claim) [] pvs"
    have set_ours: "set ours = {pv \<in> set pvs. is_ours volume pv}" by (simp add: ours_def found_set)
    obtain q where q: "run_state (check_volumes K ours) w = (q, w)"
        "is_ok q \<longleftrightarrow> (\<forall>pv \<in> set ours. takes_default_identity (class_of w) pv)"
      using check_volumes_run [OF assms(1)] by blast
    have "ours = [] \<longleftrightarrow> \<not> (\<exists>pv \<in> set pvs. is_ours volume pv)"
      using set_ours by (metis (mono_tags, lifting) empty_iff mem_Collect_eq set_empty2 Collect_empty_eq)
    moreover have "is_ok q \<longleftrightarrow> q = Inr ()" by (cases q) simp_all
    moreover have "r = (if ours = [] then Inl (err FailedPrecondition) else q) \<and> w' = w"
      using assms(2) list Inr q(1)
      by (auto simp: check_default_identity_def find_volumes_def run_attempt run_guarded ours_def)
    ultimately show ?thesis using Inr q(2) set_ours by auto
  qed
qed

text \<open>
  C3. The driver's own identity never mounts a tenant's volume: it is accepted for a volume exactly when
  some volume of the driver has that handle and every one of them, in whatever order they are
  listed and whichever is the claim's, neither names a node-stage secret nor is of a class that
  gives its volumes one. The check itself changes nothing.
\<close>

theorem default_identity_iff:
  assumes "api_reads K volumes_of class_of"
    and "run_state (check_default_identity (Some K) volume claim) w = (r, w')"
  shows "w' = w \<and>
    (r = Inr () \<longleftrightarrow> (\<exists>pvs. volumes_of w = Inr pvs \<and> (\<exists>pv \<in> set pvs. is_ours volume pv) \<and>
       (\<forall>pv \<in> set pvs. is_ours volume pv \<longrightarrow> takes_default_identity (class_of w) pv)))"
  using assms by (rule check_default_identity_run)

text \<open>A volume of a class without secrets, and one of a tenant class on the same dataroom.\<close>

definition demo_volume :: "string \<Rightarrow> persistent_volume" where
  "demo_volume class = \<lparr>vol_name = ''pv'' @ class,
     vol_csi = Some \<lparr>csi_driver = plugin_name, csi_handle = ''d1'', csi_stage_secret = None\<rparr>,
     vol_class = class\<rparr>"

definition demo_kube :: "persistent_volume list kube" where
  "demo_kube = \<lparr>kb_get_claim = \<lambda>_ _. State_Monad.return (Inl ApiNotFound),
     kb_list_volumes = State (\<lambda>pvs. (Inr pvs, pvs)),
     kb_class_parameters = \<lambda>c. State_Monad.return
       (Inr (if c = ''tenant'' then [(node_stage_secret_param, ''s'')] else []))\<rparr>"

theorem default_identity_iff_witness:
  "fst (run_state (check_default_identity (Some demo_kube) ''d1'' None) [demo_volume ''shared'']) = Inr () \<and>
   fst (run_state (check_default_identity (Some demo_kube) ''d1'' None)
     [demo_volume ''shared'', demo_volume ''tenant'']) \<noteq> Inr ()"
proof -
  have reads: "api_reads demo_kube Inr
      (\<lambda>_ c. Inr (if c = ''tenant'' then [(node_stage_secret_param, ''s'')] else []))"
    by (simp add: api_reads_def demo_kube_def)
  note iff = default_identity_iff [OF reads surjective_pairing, THEN conjunct2]
  show ?thesis
    by (simp add: iff is_ours_def demo_volume_def takes_default_identity_def)
qed

end
