(* ===== verification/Node_Server.thy ===== *)
theory Node_Server
  imports Annotations Manager Mount_Table Tenant
begin

text \<open>
  What the node service and the recovery share (internal/driver/node.go): the \<open>NodeServer\<close> with its
  maps of marks, and the events it records on the claims. The exported fields are the record
  \<open>node_server\<close>; what the plugin keeps in memory, the restart states of the Manager included, is
  \<open>server\<close>, around the world. Every operation runs under the lock of its volume (Key_Lock).
\<close>

subsection \<open>Events\<close>

text \<open>The object of an event, and the events with the values their messages tell.\<close>

datatype event_object = ClaimObject claim | ClaimReference string string

datatype notice =
    WritesLost string string int string
  | MountNeverReady string string string
  | MountFailedLater string string string
  | OutOfMemory string string string
  | KilledUnasked string string string
  | StageGaveUp string string string
  | MountGaveUp string string string
  | ConfigChanged string string string

definition reason :: "notice \<Rightarrow> string" where
  "reason n =
     (case n of
        WritesLost _ _ _ _ \<Rightarrow> ''WritesLost''
      | MountNeverReady _ _ _ \<Rightarrow> ''MountFailed'' | MountFailedLater _ _ _ \<Rightarrow> ''MountFailed''
      | OutOfMemory _ _ _ \<Rightarrow> ''MountOOMKilled'' | KilledUnasked _ _ _ \<Rightarrow> ''MountOOMKilled''
      | StageGaveUp _ _ _ \<Rightarrow> ''MountGaveUp'' | MountGaveUp _ _ _ \<Rightarrow> ''MountGaveUp''
      | ConfigChanged _ _ _ \<Rightarrow> ''MountConfigChanged'')"

subsection \<open>The server\<close>

record ('w, 'q) node_server =
  ns_node :: string
  ns_host :: "'w host"
  ns_cluster :: "('w, 'q) cluster"
  ns_codec :: "'q codec"
  ns_config :: "'q config"
  ns_kube :: "'w kube option"
  ns_record :: "(event_object \<Rightarrow> notice \<Rightarrow> ('w, unit) state) option"
  ns_credentials :: "credentials option"
  ns_cache :: cache
  ns_now :: "('w, int) state"
  ns_parsers :: "'q parsers"
  ns_bool_order :: "string list"
  ns_quantity_text :: "'q \<Rightarrow> string"

record 'w server =
  sv_node :: "'w node"
  sv_busy :: "string \<rightharpoonup> int"
  sv_gave_up :: "string \<rightharpoonup> int"
  sv_exit_reported :: "string set"
  sv_dir_unreadable :: bool

definition on_node :: "('w node, 'a) state \<Rightarrow> ('w server, 'a) state" where
  "on_node m = State (\<lambda>s. case run_state m (sv_node s) of (x, n) \<Rightarrow> (x, s\<lparr>sv_node := n\<rparr>))"

definition on_host :: "('w, 'a) state \<Rightarrow> ('w server, 'a) state" where
  "on_host m = on_node (on_world m)"

text \<open>The maps: \<open>Load\<close> and the operations that write one.\<close>

definition read_server :: "('w server \<Rightarrow> 'a) \<Rightarrow> ('w server, 'a) state" where
  "read_server f = State (\<lambda>s. (f s, s))"

definition set_busy :: "((string \<rightharpoonup> int) \<Rightarrow> string \<rightharpoonup> int) \<Rightarrow> ('w server, unit) state" where
  "set_busy f = State (\<lambda>s. ((), s\<lparr>sv_busy := f (sv_busy s)\<rparr>))"

definition set_gave_up :: "((string \<rightharpoonup> int) \<Rightarrow> string \<rightharpoonup> int) \<Rightarrow> ('w server, unit) state" where
  "set_gave_up f = State (\<lambda>s. ((), s\<lparr>sv_gave_up := f (sv_gave_up s)\<rparr>))"

definition set_reported :: "(string set \<Rightarrow> string set) \<Rightarrow> ('w server, unit) state" where
  "set_reported f = State (\<lambda>s. ((), s\<lparr>sv_exit_reported := f (sv_exit_reported s)\<rparr>))"

lemma run_on_node: "run_state (on_node m) s = (case run_state m (sv_node s) of (x, n) \<Rightarrow> (x, s\<lparr>sv_node := n\<rparr>))"
  by (simp add: on_node_def)

lemma run_on_world:
  "run_state (on_world m) n = (case run_state m (node_world n) of (x, w) \<Rightarrow> (x, n\<lparr>node_world := w\<rparr>))"
  by (simp add: on_world_def)

lemma run_server_ops [simp]:
  "run_state (read_server g) s = (g s, s)"
  "run_state (set_busy f) s = ((), s\<lparr>sv_busy := f (sv_busy s)\<rparr>)"
  "run_state (set_gave_up f) s = ((), s\<lparr>sv_gave_up := f (sv_gave_up s)\<rparr>)"
  "run_state (set_reported h) s = ((), s\<lparr>sv_exit_reported := h (sv_exit_reported s)\<rparr>)"
  by (simp_all add: read_server_def set_busy_def set_gave_up_def set_reported_def)

subsection \<open>A stage or unstage under way\<close>

definition busy_for :: int where "busy_for = seconds 600"

definition mark_busy :: "('w, 'q) node_server \<Rightarrow> string \<Rightarrow> ('w server, unit) state" where
  "mark_busy S volume = do {
     now \<leftarrow> on_host (ns_now S);
     set_busy (\<lambda>m. m(volume \<mapsto> now))
   }"

definition clear_busy :: "string \<Rightarrow> status + 'a \<Rightarrow> ('w server, unit) state" where
  "clear_busy volume r =
     (case r of
        Inl e \<Rightarrow> if code_of e \<noteq> Aborted then set_busy (\<lambda>m. m(volume := None)) else State_Monad.return ()
      | Inr _ \<Rightarrow> set_busy (\<lambda>m. m(volume := None)))"

definition is_busy :: "('w, 'q) node_server \<Rightarrow> string \<Rightarrow> ('w server, bool) state" where
  "is_busy S volume = do {
     v \<leftarrow> read_server (\<lambda>s. sv_busy s volume);
     (case v of
        None \<Rightarrow> State_Monad.return False
      | Some t \<Rightarrow> do {
          now \<leftarrow> on_host (ns_now S);
          State_Monad.return (time_sub now t < busy_for)
        })
   }"

subsection \<open>Reporting the end of a mount pod\<close>

definition claim_ref ::
  "('w, 'q) node_server \<Rightarrow> string \<Rightarrow> string \<Rightarrow> ('w server, event_object option) state" where
  "claim_ref S namespace name =
     (if namespace = [] \<or> name = [] then State_Monad.return None
      else case ns_kube S of
          None \<Rightarrow> State_Monad.return (Some (ClaimReference namespace name))
        | Some K \<Rightarrow> do {
            r \<leftarrow> on_host (kb_get_claim K namespace name);
            State_Monad.return (Some (case r of
                Inr c \<Rightarrow> ClaimObject c
              | Inl _ \<Rightarrow> ClaimReference namespace name))
          })"

definition record_event ::
  "('w, 'q) node_server \<Rightarrow> event_object option \<Rightarrow> notice \<Rightarrow> ('w server, unit) state" where
  "record_event S obj n =
     (case ns_record S of
        None \<Rightarrow> State_Monad.return ()
      | Some f \<Rightarrow> (case obj of None \<Rightarrow> State_Monad.return () | Some ob \<Rightarrow> on_host (f ob n)))"

definition killed_unasked :: "'q pod_state \<Rightarrow> bool" where
  "killed_unasked st \<longleftrightarrow>
     (if exit_reason st = ''OOMKilled'' then True
      else exit_code st = Some 137 \<and>
        (case st_pod st of None \<Rightarrow> False | Some p \<Rightarrow> om_deletion (pod_meta p) = None))"

definition memory_limit :: "('q \<Rightarrow> string) \<Rightarrow> 'q pod option \<Rightarrow> string" where
  "memory_limit text pod =
     (case pod of
        None \<Rightarrow> ''no limit''
      | Some p \<Rightarrow>
          (case find (\<lambda>c. map_of (limits (co_resources c)) resource_memory \<noteq> None)
             (ps_containers (pod_spec_of p)) of
             None \<Rightarrow> ''no limit''
           | Some c \<Rightarrow> text (the (map_of (limits (co_resources c)) resource_memory))))"

text \<open>The switch of \<open>emitExit\<close>, for an exit with a code: the event the exit calls for.\<close>

definition exit_note :: "('q \<Rightarrow> string) \<Rightarrow> 'q pod_state \<Rightarrow> int \<Rightarrow> notice option" where
  "exit_note text st code =
     (let volume = st_volume st; node = st_node st; output = exit_message st
      in if code = 0 then None
         else if lost_writes st then Some (WritesLost volume node code output)
         else if code = exit_failed then
           Some (if st_was_ready st then MountFailedLater volume node output
                 else MountNeverReady volume node output)
         else if killed_unasked st then
           Some (if exit_reason st \<noteq> ''OOMKilled'' then KilledUnasked volume node (memory_limit text (st_pod st))
                 else OutOfMemory volume node (memory_limit text (st_pod st)))
         else None)"

definition emit_exit :: "('w, 'q) node_server \<Rightarrow> 'q pod_state \<Rightarrow> int \<Rightarrow> ('w server, unit) state" where
  "emit_exit S st code =
     (case exit_note (ns_quantity_text S) st code of
        None \<Rightarrow> State_Monad.return ()
      | Some n \<Rightarrow> do {
          obj \<leftarrow> claim_ref S (st_pvc_namespace st) (st_pvc st);
          record_event S obj n
        })"

definition report_exit :: "('w, 'q) node_server \<Rightarrow> 'q pod_state \<Rightarrow> ('w server, unit) state" where
  "report_exit S st =
     (if st_phase st \<noteq> PhaseExited then State_Monad.return ()
      else case exit_code st of
          None \<Rightarrow> State_Monad.return ()
        | Some code \<Rightarrow>
            (case st_pod st of
               None \<Rightarrow> emit_exit S st code
             | Some p \<Rightarrow> do {
                 reported \<leftarrow> read_server (\<lambda>s. om_uid (pod_meta p) \<in> sv_exit_reported s);
                 _ \<leftarrow> set_reported (\<lambda>m. m - {om_uid (pod_meta p)});
                 (if reported then State_Monad.return () else emit_exit S st code)
               }))"

definition report_exit_early :: "('w, 'q) node_server \<Rightarrow> 'q pod_state \<Rightarrow> ('w server, unit) state" where
  "report_exit_early S st =
     (if st_phase st \<noteq> PhaseExited \<and> st_phase st \<noteq> PhaseTerminating then State_Monad.return ()
      else case (exit_code st, st_pod st) of
          (Some code, Some p) \<Rightarrow> do {
            reported \<leftarrow> read_server (\<lambda>s. om_uid (pod_meta p) \<in> sv_exit_reported s);
            _ \<leftarrow> set_reported (insert (om_uid (pod_meta p)));
            (if reported then State_Monad.return () else emit_exit S st code)
          }
        | _ \<Rightarrow> State_Monad.return ())"

subsection \<open>Frames\<close>

text \<open>What runs on the node or the host leaves the marks of the server alone.\<close>

definition same_marks :: "'w server \<Rightarrow> 'w server \<Rightarrow> bool" where
  "same_marks s t \<longleftrightarrow> sv_busy t = sv_busy s \<and> sv_gave_up t = sv_gave_up s \<and>
     sv_exit_reported t = sv_exit_reported s"

lemma same_marks_refl [simp]: "same_marks s s"
  by (simp add: same_marks_def)

lemma same_marks_trans: "same_marks s t \<Longrightarrow> same_marks t u \<Longrightarrow> same_marks s u"
  by (simp add: same_marks_def)

lemma on_node_marks: "run_state (on_node m) s = (x, t) \<Longrightarrow> same_marks s t"
  by (auto simp: run_on_node same_marks_def split: prod.splits)

lemma on_host_marks: "run_state (on_host m) s = (x, t) \<Longrightarrow> same_marks s t"
  unfolding on_host_def by (rule on_node_marks)

lemma claim_ref_marks: "run_state (claim_ref S ns n) s = (x, t) \<Longrightarrow> same_marks s t"
  by (auto simp: claim_ref_def split: if_splits option.splits prod.splits dest: on_host_marks)

lemma record_event_marks: "run_state (record_event S ob n) s = (x, t) \<Longrightarrow> same_marks s t"
  by (auto simp: record_event_def split: option.splits dest: on_host_marks)

lemma emit_exit_marks: "run_state (emit_exit S st code) s = (x, t) \<Longrightarrow> same_marks s t"
  by (auto simp: emit_exit_def split: option.splits prod.splits
      dest: claim_ref_marks record_event_marks intro: same_marks_trans)

subsection \<open>Once per pod\<close>

definition of_pod :: "string \<Rightarrow> 'q pod_state \<Rightarrow> bool" where
  "of_pod uid st \<longleftrightarrow> (\<exists>p. st_pod st = Some p \<and> om_uid (pod_meta p) = uid)"

text \<open>A pod that a stage or the recovery finds dead again and again.\<close>

primrec seen_dead :: "('w, 'q) node_server \<Rightarrow> 'q pod_state list \<Rightarrow> ('w server, unit) state" where
  "seen_dead S [] = State_Monad.return ()"
| "seen_dead S (st # sts) = do { _ \<leftarrow> report_exit_early S st; seen_dead S sts }"

lemma reported_early_again:
  assumes "of_pod uid st" and "uid \<in> sv_exit_reported s"
  shows "run_state (report_exit_early S st) s = ((), s)"
proof -
  have "s\<lparr>sv_exit_reported := insert uid (sv_exit_reported s)\<rparr> = s"
    using assms(2) by (simp add: insert_absorb)
  then show ?thesis
    using assms by (auto simp: report_exit_early_def of_pod_def split: option.split)
qed

lemma seen_dead_again:
  "list_all (of_pod uid) sts \<Longrightarrow> uid \<in> sv_exit_reported s \<Longrightarrow> run_state (seen_dead S sts) s = ((), s)"
  by (induction sts) (simp_all add: reported_early_again [of uid])

lemma report_early_marks:
  assumes "of_pod uid st" and "exit_code st \<noteq> None"
    and "st_phase st = PhaseExited \<or> st_phase st = PhaseTerminating"
    and "run_state (report_exit_early S st) s = ((), t)"
  shows "sv_exit_reported t = insert uid (sv_exit_reported s)"
  using assms
  by (auto simp: report_exit_early_def of_pod_def insert_absorb same_marks_def split: option.splits if_splits
      dest!: emit_exit_marks)

text \<open>
  C30. The end of a mount pod is told once on the claim, however often it is found dead before it is
  released: after the first report every further one, and the one of the release, record nothing
  and do nothing else; the release then forgets the pod.
\<close>

theorem exit_reported_once:
  assumes first: "of_pod uid st" "exit_code st \<noteq> None"
      "st_phase st = PhaseExited \<or> st_phase st = PhaseTerminating"
      "run_state (report_exit_early S st) s = ((), t)"
    and again: "list_all (of_pod uid) sts"
    and released: "of_pod uid rel" "exit_code rel \<noteq> None" "st_phase rel = PhaseExited"
  shows "run_state (do { _ \<leftarrow> seen_dead S sts; report_exit S rel }) t =
    ((), t\<lparr>sv_exit_reported := sv_exit_reported s - {uid}\<rparr>)"
proof -
  have t: "sv_exit_reported t = insert uid (sv_exit_reported s)" using first by (rule report_early_marks)
  then have "run_state (seen_dead S sts) t = ((), t)" using again by (simp add: seen_dead_again)
  moreover have "run_state (report_exit S rel) t = ((), t\<lparr>sv_exit_reported := sv_exit_reported s - {uid}\<rparr>)"
    using released t by (auto simp: report_exit_def of_pod_def)
  ultimately show ?thesis by simp
qed

subsection \<open>A concrete server\<close>

text \<open>A cluster with one pod or none, a host with a fixed mount table, and a node whose world is the list of the events recorded.\<close>

definition logging_cluster :: "'q pod option \<Rightarrow> ('w, 'q) cluster" where
  "logging_cluster p =
     \<lparr>k_get_pod = \<lambda>_ _. State_Monad.return (case p of None \<Rightarrow> Inl ApiNotFound | Some x \<Rightarrow> Inr x),
      k_list_pods = \<lambda>_ _. State_Monad.return (Inr []),
      k_create_pod = \<lambda>_ x. State_Monad.return (Inr x),
      k_delete_pod = \<lambda>_ _ _ _. State_Monad.return (Inr ()),
      k_patch_finalizers = \<lambda>_ _ _ _. State_Monad.return (Inr ()),
      k_get_secret = \<lambda>_ _. State_Monad.return (Inl ApiNotFound),
      k_list_secrets = \<lambda>_ _. State_Monad.return (Inr []),
      k_create_secret = \<lambda>_ x. State_Monad.return (Inr x),
      k_delete_secret = \<lambda>_ _. State_Monad.return (Inr ()),
      k_patch_owner = \<lambda>_ _ _. State_Monad.return (Inr ()),
      k_prepare = None, k_clock = State_Monad.return 0, k_rand = State_Monad.return (\<lambda>_. 0),
      k_suffix = State_Monad.return (\<lambda>_. 0), k_http_status = \<lambda>_. State_Monad.return (Inr 200)\<rparr>"

definition still_host :: "mount_info list \<Rightarrow> 'w host" where
  "still_host infos =
     \<lparr>h_is_mount_point = \<lambda>_. State_Monad.return (Inr True),
      h_umount = \<lambda>_. State_Monad.return (Inr ()),
      h_mount = \<lambda>_ _ _. State_Monad.return (Inr ()), h_detach = \<lambda>_. State_Monad.return (Inr ()),
      h_bind = \<lambda>_ _. State_Monad.return (Inr ()), h_remount_ro = \<lambda>_. State_Monad.return (Inr ()),
      h_mount_info = State_Monad.return (Inr infos),
      h_mkdir_all = \<lambda>_ _. State_Monad.return (Inr ()), h_mkdir = \<lambda>_ _. State_Monad.return (Inr ()),
      h_chmod = \<lambda>_ _. State_Monad.return (Inr ()), h_remove = \<lambda>_. State_Monad.return (Inr ()),
      h_remove_all = \<lambda>_. State_Monad.return (Inr ()), h_stat = \<lambda>_. State_Monad.return (Inl Enoent),
      h_read_dir = \<lambda>_. State_Monad.return (Inr ()),
      h_statfs = \<lambda>_. State_Monad.return (Inl Enoent)\<rparr>"

definition demo_parsers :: "int parsers" where
  "demo_parsers = \<lparr>parse_duration = \<lambda>_. None, parse_quantity = \<lambda>_. None, quantity_sign = id\<rparr>"

definition demo_server :: "int pod option \<Rightarrow> mount_info list \<Rightarrow> (notice list, int) node_server" where
  "demo_server p infos =
     \<lparr>ns_node = ''n1'', ns_host = still_host infos, ns_cluster = logging_cluster p,
      ns_codec = demo_codec, ns_config = demo_config, ns_kube = None,
      ns_record = Some (\<lambda>_ n. State (\<lambda>l. ((), l @ [n]))), ns_credentials = Some \<lparr>token = ''t'', passphrase = ''p''\<rparr>,
      ns_cache = \<lparr>redis_url = [], high_confidentiality = False\<rparr>, ns_now = State_Monad.return 0,
      ns_parsers = demo_parsers, ns_bool_order = [], ns_quantity_text = \<lambda>_. []\<rparr>"

definition demo_memory :: "notice list server" where
  "demo_memory = \<lparr>sv_node = \<lparr>node_backoffs = Map.empty, node_world = []\<rparr>, sv_busy = Map.empty,
     sv_gave_up = Map.empty, sv_exit_reported = {}, sv_dir_unreadable = False\<rparr>"

definition demo_pod :: "int pod" where
  "demo_pod = build_pod demo_codec demo_config demo_spec ''h'' ''sec''"

definition demo_dead :: "int pod_state" where
  "demo_dead = no_state\<lparr>st_phase := PhaseExited, exit_code := Some 75, exit_message := ''m'', st_pod := Some demo_pod,
     st_volume := ''v'', st_node := ''n'', st_pvc := ''c'', st_pvc_namespace := ''ns''\<rparr>"

lemma demo_first_report:
  "run_state (report_exit_early (demo_server None []) demo_dead) demo_memory =
     ((), demo_memory\<lparr>sv_exit_reported := {om_uid (pod_meta demo_pod)},
       sv_node := \<lparr>node_backoffs = Map.empty, node_world = [WritesLost ''v'' ''n'' 75 ''m'']\<rparr>\<rparr>)"
  by (simp add: report_exit_early_def demo_dead_def no_state_def demo_memory_def emit_exit_def exit_note_def
      lost_writes_def exit_defs Let_def demo_server_def claim_ref_def record_event_def on_host_def
      run_on_node run_on_world)

theorem exit_reported_once_witness:
  "node_world (sv_node (snd (run_state
     (do { _ \<leftarrow> seen_dead (demo_server None []) [demo_dead, demo_dead]; report_exit (demo_server None []) demo_dead })
     (snd (run_state (report_exit_early (demo_server None []) demo_dead) demo_memory)))))
   = [WritesLost ''v'' ''n'' 75 ''m'']"
proof -
  have p: "of_pod (om_uid (pod_meta demo_pod)) demo_dead" "exit_code demo_dead \<noteq> None"
    "st_phase demo_dead = PhaseExited" by (simp_all add: of_pod_def demo_dead_def no_state_def)
  have sts: "list_all (of_pod (om_uid (pod_meta demo_pod))) [demo_dead, demo_dead]" using p(1) by simp
  show ?thesis
    using exit_reported_once [OF p(1,2) disjI1 [OF p(3)] demo_first_report sts p]
    by (simp add: demo_first_report)
qed

end
