(* ===== verification/Recovery.thy ===== *)
theory Recovery
  imports Node_Server
begin

text \<open>
  The recovery (internal/driver/recovery.go): readying the host for a pod, repairing one volume, the
  rounds of \<open>Recover\<close>, and what becomes of the volumes kubelet no longer holds. The goroutines of a
  round each run under the lock of their volume; a round is modelled as their sequence, in the
  order in which they take place.
\<close>

subsection \<open>Host side\<close>

definition orphan_grace :: int where "orphan_grace = seconds 1800"

definition vol_data_file :: string where "vol_data_file = ''vol_data.json''"

definition is_target :: "'q config \<Rightarrow> string \<Rightarrow> bool" where
  "is_target cfg p = has_prefix p (path_join [cfg_kubelet_dir cfg, ''pods''] @ ''/'')"

definition max_mount_layers :: nat where "max_mount_layers = 8"

definition max_target_layers :: nat where "max_target_layers = 4"

text \<open>\<open>Unmount\<close>, and \<open>Detach\<close> when it fails: the body of both unmounting loops.\<close>

definition unmount_or_detach :: "'w host \<Rightarrow> string \<Rightarrow> ('w, mount_error + unit) state" where
  "unmount_or_detach H mnt = do {
     r \<leftarrow> mounter_unmount H mnt;
     (case r of Inr _ \<Rightarrow> State_Monad.return (Inr ()) | Inl _ \<Rightarrow> mounter_detach H mnt)
   }"

text \<open>The loop of \<open>unmountAll\<close> with the number of rounds left, and the check after it.\<close>

primrec unmount_all_loop :: "'w host \<Rightarrow> string \<Rightarrow> nat \<Rightarrow> ('w, mount_error + unit) state" where
  "unmount_all_loop H mnt 0 = do {
     r \<leftarrow> mount_state H mnt;
     State_Monad.return (case r of
         Inl _ \<Rightarrow> Inl StillMounted
       | Inr (mounted, _) \<Rightarrow> if mounted then Inl StillMounted else Inr ())
   }"
| "unmount_all_loop H mnt (Suc n) =
     attempt (mount_state H mnt) id (\<lambda>(mounted, _).
     if \<not> mounted then State_Monad.return (Inr ())
     else attempt (unmount_or_detach H mnt) id (\<lambda>_. unmount_all_loop H mnt n))"

definition unmount_all :: "'w host \<Rightarrow> string \<Rightarrow> ('w, mount_error + unit) state" where
  "unmount_all H mnt = unmount_all_loop H mnt max_mount_layers"

text \<open>The loop of \<open>unstack\<close>.\<close>

primrec unstack_loop :: "'w host \<Rightarrow> string \<Rightarrow> nat \<Rightarrow> ('w, mount_error + unit) state" where
  "unstack_loop H mnt 0 = State_Monad.return (Inr ())"
| "unstack_loop H mnt (Suc n) =
     attempt (h_mount_info H) StateError (\<lambda>infos.
     attempt (mount_state H mnt) id (\<lambda>(mounted, corrupted).
     if \<not> mounted \<or> \<not> corrupted \<or> layers infos mnt \<le> 1 then State_Monad.return (Inr ())
     else attempt (unmount_or_detach H mnt) id (\<lambda>_. unstack_loop H mnt n)))"

definition unstack :: "'w host \<Rightarrow> string \<Rightarrow> ('w, mount_error + unit) state" where
  "unstack H mnt = unstack_loop H mnt max_mount_layers"

text \<open>\<open>Prepare\<close>: the staging path with nothing mounted on it, and an empty spool.\<close>

definition prepare :: "'w host \<Rightarrow> 'q config \<Rightarrow> 'q spec \<Rightarrow> ('w, mount_error + unit) state" where
  "prepare H cfg s =
     (let staging = staging_path s; spool = spool_host_path cfg (volume_id s)
      in attempt (unmount_all H staging) id (\<lambda>_.
         attempt (h_mkdir_all H staging 488) SysError (\<lambda>_.
         attempt (h_remove_all H spool) SysError (\<lambda>_.
         attempt (h_mkdir_all H (path_dir spool) 448) SysError (\<lambda>_.
         attempt (h_mkdir H spool 448) SysError (\<lambda>_.
         attempt (h_chmod H spool 448) SysError (\<lambda>_. State_Monad.return (Inr ()))))))))"

text \<open>The cluster the Manager works on, with the hook set to the server's own \<open>Prepare\<close>.\<close>

definition node_cluster :: "('w, 'q) node_server \<Rightarrow> ('w, 'q) cluster" where
  "node_cluster S = (ns_cluster S)\<lparr>k_prepare :=
     Some (\<lambda>s. attempt (prepare (ns_host S) (ns_config S) s) (\<lambda>_. []) (\<lambda>_. State_Monad.return (Inr ())))\<rparr>"

subsection \<open>Repairing the binds\<close>

text \<open>
  The loop of \<open>rebind\<close> over the dead targets; \<open>errs\<close> is whether \<open>errors.Join\<close> has a non-nil error.
\<close>

primrec rebind_loop ::
  "'w host \<Rightarrow> mount_info list \<Rightarrow> string \<Rightarrow> mount_info list \<Rightarrow> bool \<Rightarrow> ('w, bool) state" where
  "rebind_loop H infos staging [] errs = State_Monad.return errs"
| "rebind_loop H infos staging (t # ts) errs = do {
     cleared \<leftarrow> (if max_target_layers \<le> layers infos (mi_point t) then unstack H (mi_point t)
                else State_Monad.return (Inr ()));
     (case cleared of
        Inl _ \<Rightarrow> rebind_loop H infos staging ts True
      | Inr _ \<Rightarrow> do {
          r \<leftarrow> rebind_mount H staging (mi_point t) (''ro'' \<in> set (mi_options t));
          rebind_loop H infos staging ts (errs \<or> is_err r)
        })
   }"

datatype repair_error =
    ManagerFailed manager_error
  | TableUnreadable string
  | NotMountedOnNode string
  | RebindFailed
  | StagingDown string
  | NoMountPod
  | OtherStaging string
  | StateFailed mount_error

definition rebind ::
  "'w host \<Rightarrow> 'q config \<Rightarrow> mount_info list \<Rightarrow> string \<Rightarrow> string \<Rightarrow> ('w, repair_error + unit) state" where
  "rebind H cfg infos volume staging =
     (case top_mount infos staging of
        None \<Rightarrow> State_Monad.return (Inl (NotMountedOnNode staging))
      | Some fuse \<Rightarrow>
          if mi_source fuse \<noteq> mount_source volume then State_Monad.return (Inl (NotMountedOnNode staging))
          else do {
            errs \<leftarrow> rebind_loop H infos staging
              (dead_targets infos volume (mi_device fuse) (is_target cfg)) False;
            State_Monad.return (if errs then Inl RebindFailed else Inr ())
          })"

subsection \<open>What kubelet holds\<close>

definition driver_dir_readable :: "('w, 'q) node_server \<Rightarrow> string \<Rightarrow> ('w server, bool) state" where
  "driver_dir_readable S dir = do {
     r \<leftarrow> on_host (h_read_dir (ns_host S) dir);
     (let readable = is_ok r \<or> r = Inl Eof
      in do {
        _ \<leftarrow> State (\<lambda>s. ((), s\<lparr>sv_dir_unreadable := \<not> readable\<rparr>));
        State_Monad.return readable
      })
   }"

definition kubelet_staged :: "('w, 'q) node_server \<Rightarrow> string \<Rightarrow> ('w server, bool) state" where
  "kubelet_staged S staging =
     (if staging = [] then State_Monad.return False
      else do {
        readable \<leftarrow> driver_dir_readable S (path_dir (path_dir staging));
        (if \<not> readable then State_Monad.return True
         else do {
           r \<leftarrow> on_host (h_stat (ns_host S) (path_join [path_dir staging, vol_data_file]));
           State_Monad.return (r \<noteq> Inl Enoent)
         })
      })"

definition published_at :: "('w, 'q) node_server \<Rightarrow> string \<Rightarrow> ('w server, string + string list) state" where
  "published_at S volume =
     attempt (on_host (h_mount_info (ns_host S))) id (\<lambda>infos.
       State_Monad.return (Inr (binds (is_target (ns_config S)) infos volume)))"

subsection \<open>One volume\<close>

definition metric_state :: "phase \<Rightarrow> string" where
  "metric_state p =
     (case p of PhasePending \<Rightarrow> ''pending'' | PhaseRunning \<Rightarrow> ''running''
      | PhaseTerminating \<Rightarrow> ''terminating'' | PhaseExited \<Rightarrow> ''exited'' | _ \<Rightarrow> [])"

definition min_retry_delay :: int where "min_retry_delay = seconds 1"

definition ns_delete :: "('w, 'q) node_server \<Rightarrow> string \<Rightarrow> ('w server, 'q answer) state" where
  "ns_delete S volume = on_node (delete_pod (node_cluster S) (ns_codec S) (ns_config S) (ns_node S) volume)"

definition ns_get :: "('w, 'q) node_server \<Rightarrow> string \<Rightarrow> ('w server, 'q answer) state" where
  "ns_get S volume = on_node (get_state (node_cluster S) (ns_codec S) (ns_config S) (ns_node S) volume)"

definition ns_ensure :: "('w, 'q) node_server \<Rightarrow> 'q spec \<Rightarrow> ('w server, 'q answer) state" where
  "ns_ensure S s = on_node (ensure (node_cluster S) (ns_codec S) (ns_config S) s)"

definition ns_clock :: "('w, 'q) node_server \<Rightarrow> ('w server, int) state" where
  "ns_clock S = on_host (k_clock (ns_cluster S))"

definition report_gave_up ::
  "('w, 'q) node_server \<Rightarrow> 'q pod_state \<Rightarrow> 'q pod_state \<Rightarrow> manager_error \<Rightarrow>
   ('w server, repair_error option) state" where
  "report_gave_up S st nst e = do {
     now \<leftarrow> ns_clock S;
     reported \<leftarrow> read_server (\<lambda>s. sv_gave_up s (st_volume st) \<noteq> None);
     (if reported then State_Monad.return None
      else do {
        _ \<leftarrow> set_gave_up (\<lambda>m. m(st_volume st \<mapsto> now));
        obj \<leftarrow> claim_ref S (st_pvc_namespace st) (st_pvc st);
        _ \<leftarrow> record_event S obj (MountGaveUp (st_volume st) (ns_node S) (exit_message nst));
        State_Monad.return (Some (ManagerFailed e))
      })
   }"

definition delete_orphan ::
  "('w, 'q) node_server \<Rightarrow> 'q pod_state \<Rightarrow> ('w server, string \<times> repair_error option) state" where
  "delete_orphan S st = do {
     answer \<leftarrow> ns_delete S (st_volume st);
     (case answer of
        (_, Some e) \<Rightarrow> State_Monad.return (metric_state (st_phase st), Some (ManagerFailed e))
      | (dst, None) \<Rightarrow> do {
          _ \<leftarrow> report_exit S dst;
          State_Monad.return (if st_phase dst = PhaseTerminating then ''terminating'' else [], None)
        })
   }"

text \<open>
  The outcome of \<open>recoverVolume\<close>: the metric state of the pod, when to look again (the zero time: at
  the next event) and the error.
\<close>

type_synonym outcome = "string \<times> int \<times> repair_error option"

text \<open>Its cases of a pod that runs, and of one that ended or is being deleted.\<close>

definition recover_running ::
  "('w, 'q) node_server \<Rightarrow> mount_info list \<Rightarrow> string \<Rightarrow> 'q pod_state \<Rightarrow> ('w server, outcome) state" where
  "recover_running S infos volume st = do {
     e \<leftarrow> on_node (ready (node_cluster S) (st_pod st));
     (if e \<noteq> None then State_Monad.return (''running'', zero_time, None)
      else do {
        _ \<leftarrow> set_gave_up (\<lambda>m. m(volume := None));
        r \<leftarrow> on_host (rebind (ns_host S) (ns_config S) infos volume (st_staging st));
        State_Monad.return (''ready'', zero_time, case r of Inl e \<Rightarrow> Some e | Inr _ \<Rightarrow> None)
      })
   }"

definition recover_ended ::
  "('w, 'q) node_server \<Rightarrow> string \<Rightarrow> 'q pod_state \<Rightarrow> ('w server, outcome) state" where
  "recover_ended S volume st = do {
     _ \<leftarrow> report_exit_early S st;
     r \<leftarrow> on_node (spec_of (node_cluster S) (ns_codec S) (ns_config S) st (ns_cache S));
     (case r of
        Inl e \<Rightarrow> State_Monad.return (metric_state (st_phase st), zero_time, Some (ManagerFailed e))
      | Inr s \<Rightarrow> do {
          answer \<leftarrow> ns_ensure S s;
          (case answer of
             (nst, Some (GaveUpError n b)) \<Rightarrow> do {
               e \<leftarrow> report_gave_up S st nst (GaveUpError n b);
               State_Monad.return (metric_state (st_phase nst), zero_time, e)
             }
           | (nst, e) \<Rightarrow> do {
               _ \<leftarrow> (if e = None then set_gave_up (\<lambda>m. m(volume := None)) else State_Monad.return ());
               retry \<leftarrow> (if st_phase nst = PhaseExited \<or> st_phase nst = PhaseAbsent then do {
                   now \<leftarrow> ns_clock S;
                   State_Monad.return (max (next_restart (st_backoff nst)) (now + min_retry_delay))
                 } else State_Monad.return zero_time);
               State_Monad.return (metric_state (st_phase nst), retry, map_option ManagerFailed e)
             })
        })
   }"

text \<open>\<open>recoverVolume\<close> from its end: whether the pod is an orphan (\<open>held\<close>: the volume is staged), then the phases.\<close>

definition recover_choice ::
  "('w, 'q) node_server \<Rightarrow> string \<Rightarrow> 'q pod_state \<Rightarrow> mount_info list \<Rightarrow> bool \<Rightarrow> ('w server, outcome) state" where
  "recover_choice S volume st infos held =
     (if \<not> held \<and> binds (is_target (ns_config S)) infos volume = [] then do {
        r \<leftarrow> delete_orphan S st;
        State_Monad.return (fst r, zero_time, snd r)
      }
      else if st_phase st = PhaseRunning then recover_running S infos volume st
      else if st_phase st = PhaseExited \<or> st_phase st = PhaseTerminating then recover_ended S volume st
      else State_Monad.return (metric_state (st_phase st), zero_time, None))"

definition recover_idle ::
  "('w, 'q) node_server \<Rightarrow> string \<Rightarrow> bool \<Rightarrow> 'q pod_state \<Rightarrow> mount_info list \<Rightarrow> ('w server, outcome) state" where
  "recover_idle S volume staged st infos = do {
     busy \<leftarrow> (if staged then State_Monad.return False else is_busy S volume);
     (if busy then State_Monad.return (metric_state (st_phase st), zero_time, None)
      else do {
        held \<leftarrow> (if staged then State_Monad.return True else kubelet_staged S (st_staging st));
        recover_choice S volume st infos held
      })
   }"

definition recover_found ::
  "('w, 'q) node_server \<Rightarrow> string \<Rightarrow> bool \<Rightarrow> 'q pod_state \<Rightarrow> ('w server, outcome) state" where
  "recover_found S volume staged st = do {
     table \<leftarrow> on_host (h_mount_info (ns_host S));
     (case table of
        Inl e \<Rightarrow> State_Monad.return (metric_state (st_phase st), zero_time, Some (TableUnreadable e))
      | Inr infos \<Rightarrow> recover_idle S volume staged st infos)
   }"

definition recover_volume ::
  "('w, 'q) node_server \<Rightarrow> string \<Rightarrow> bool \<Rightarrow> ('w server, outcome) state" where
  "recover_volume S volume staged = do {
     answer \<leftarrow> ns_get S volume;
     (case answer of
        (_, Some e) \<Rightarrow> State_Monad.return ([], zero_time, Some (ManagerFailed e))
      | (st, None) \<Rightarrow>
          if st_phase st = PhaseAbsent then State_Monad.return ([], zero_time, None)
          else recover_found S volume staged st)
   }"

subsection \<open>Rounds\<close>

text \<open>The gauges of \<open>NodeMetrics.update\<close>: the pods in each state, the known states at least.\<close>

definition metric_states :: "string list" where
  "metric_states = [''pending'', ''running'', ''ready'', ''terminating'', ''exited'']"

fun count_state :: "string \<Rightarrow> (string \<times> nat) list \<Rightarrow> (string \<times> nat) list" where
  "count_state r [] = [(r, 1)]"
| "count_state r ((m, n) # counts) = (if m = r then (m, n + 1) # counts else (m, n) # count_state r counts)"

definition pod_counts :: "string list \<Rightarrow> (string \<times> nat) list" where
  "pod_counts results =
     foldl (\<lambda>counts r. if r \<noteq> [] then count_state r counts else counts) (map (\<lambda>m. (m, 0)) metric_states) results"

definition outdated :: "'q config \<Rightarrow> 'q pod_state list \<Rightarrow> nat" where
  "outdated cfg states = length (filter (\<lambda>st. st_cli_version st \<noteq> cfg_cli_version cfg) states)"

text \<open>\<open>warnPodless\<close>: the volumes mounted without a mount pod, each once.\<close>

fun podless_loop ::
  "('w, 'q) node_server \<Rightarrow> string set \<Rightarrow> mount_info list \<Rightarrow> (string \<times> string) list \<Rightarrow>
   ('w server, (string \<times> string) list) state" where
  "podless_loop S known [] warned = State_Monad.return warned"
| "podless_loop S known (i # infos) warned =
     (if \<not> has_prefix (mi_source i) ''retyc://'' then podless_loop S known infos warned
      else let v = drop 8 (mi_source i)
           in if v \<in> known \<or> v \<in> fst ` set warned then podless_loop S known infos warned
              else do {
                busy \<leftarrow> is_busy S v;
                podless_loop S known infos (if busy then warned else warned @ [(v, mi_point i)])
              })"

definition warn_podless ::
  "('w, 'q) node_server \<Rightarrow> 'q pod_state list \<Rightarrow> ('w server, (string \<times> string) list) state" where
  "warn_podless S states = do {
     table \<leftarrow> on_host (h_mount_info (ns_host S));
     (case table of
        Inl _ \<Rightarrow> State_Monad.return []
      | Inr infos \<Rightarrow> podless_loop S (st_volume ` set states) infos [])
   }"

text \<open>\<open>pruneBackoffs\<close>: the body of its loop, for a volume and its last staging path.\<close>

definition prune_volume ::
  "('w, 'q) node_server \<Rightarrow> string \<Rightarrow> string \<Rightarrow> ('w server, unit) state" where
  "prune_volume S volume staging = do {
     busy \<leftarrow> is_busy S volume;
     held \<leftarrow> (if busy then State_Monad.return True else kubelet_staged S staging);
     (if held then State_Monad.return ()
      else do {
        at \<leftarrow> read_server (\<lambda>s. sv_gave_up s volume);
        recent \<leftarrow> (case at of
            None \<Rightarrow> State_Monad.return False
          | Some t \<Rightarrow> do {
              now \<leftarrow> ns_clock S;
              State_Monad.return (time_sub now t < orphan_grace)
            });
        (if recent then State_Monad.return ()
         else do {
           answer \<leftarrow> ns_get S volume;
           (case answer of
              (_, Some _) \<Rightarrow> State_Monad.return ()
            | (st, None) \<Rightarrow>
                if st_phase st \<noteq> PhaseAbsent then State_Monad.return ()
                else do {
                  _ \<leftarrow> on_node (update_backoffs (forget_all volume));
                  set_gave_up (\<lambda>m. m(volume := None))
                })
         })
      })
   }"

text \<open>\<open>order\<close> is the order in which the volumes of the restart states are ranged over.\<close>

fun prune_loop ::
  "('w, 'q) node_server \<Rightarrow> string set \<Rightarrow> (string \<times> string) list \<Rightarrow> ('w server, unit) state" where
  "prune_loop S known [] = State_Monad.return ()"
| "prune_loop S known ((volume, staging) # vs) =
     (if volume \<in> known then prune_loop S known vs
      else do { _ \<leftarrow> prune_volume S volume staging; prune_loop S known vs })"

definition prune_backoffs ::
  "('w, 'q) node_server \<Rightarrow> ((string \<rightharpoonup> string) \<Rightarrow> (string \<times> string) list) \<Rightarrow> 'q pod_state list \<Rightarrow>
   ('w server, unit) state" where
  "prune_backoffs S order states = do {
     vs \<leftarrow> read_server (\<lambda>s. volumes (node_backoffs (sv_node s)));
     prune_loop S (st_volume ` set states) (order vs)
   }"

primrec recover_loop :: "('w, 'q) node_server \<Rightarrow> string list \<Rightarrow> ('w server, string list) state" where
  "recover_loop S [] = State_Monad.return []"
| "recover_loop S (v # vs) = do {
     r \<leftarrow> recover_volume S v False;
     results \<leftarrow> recover_loop S vs;
     State_Monad.return (fst r # results)
   }"

text \<open>A round: the gauges it sets, or nothing when the pods cannot be listed.\<close>

definition recover ::
  "('w, 'q) node_server \<Rightarrow> ('q pod_state list \<Rightarrow> string list) \<Rightarrow>
   ((string \<rightharpoonup> string) \<Rightarrow> (string \<times> string) list) \<Rightarrow> ('w server, ((string \<times> nat) list \<times> nat) option) state" where
  "recover S schedule_of order = do {
     r \<leftarrow> on_node (list_states (node_cluster S) (ns_codec S) (ns_config S) (ns_node S));
     (case r of
        Inl _ \<Rightarrow> State_Monad.return None
      | Inr states \<Rightarrow> do {
          results \<leftarrow> recover_loop S (schedule_of states);
          _ \<leftarrow> warn_podless S states;
          _ \<leftarrow> prune_backoffs S order states;
          State_Monad.return (Some (pod_counts results, outdated (ns_config S) states))
        })
   }"

subsection \<open>Before a publish\<close>

definition healthy :: "('w, 'q) node_server \<Rightarrow> string \<Rightarrow> ('w server, mount_error + bool) state" where
  "healthy S staging =
     attempt (on_host (mount_state (ns_host S) staging)) id (\<lambda>(mounted, corrupted).
       State_Monad.return (Inr (mounted \<and> \<not> corrupted)))"

definition repair_staging ::
  "('w, 'q) node_server \<Rightarrow> string \<Rightarrow> string \<Rightarrow> ('w server, repair_error + unit) state" where
  "repair_staging S volume staging =
     attempt (healthy S staging) StateFailed (\<lambda>ok.
     if ok then State_Monad.return (Inr ())
     else attempt (healthy S staging) StateFailed (\<lambda>ok.
     if ok then State_Monad.return (Inr ())
     else do {
       answer \<leftarrow> ns_get S volume;
       (case answer of
          (_, Some e) \<Rightarrow> State_Monad.return (Inl (ManagerFailed e))
        | (st, None) \<Rightarrow>
            if st_phase st = PhaseAbsent then State_Monad.return (Inl NoMountPod)
            else if st_staging st \<noteq> staging then State_Monad.return (Inl (OtherStaging (st_staging st)))
            else do {
              r \<leftarrow> recover_volume S volume True;
              (case r of
                 (_, _, Some e) \<Rightarrow> State_Monad.return (Inl e)
               | (_, _, None) \<Rightarrow> do {
                   h \<leftarrow> healthy S staging;
                   State_Monad.return (if h = Inr True then Inr () else Inl (StagingDown staging))
                 })
            })
     }))"

end
