(* ===== verification/Mount_Repair.thy ===== *)
theory Mount_Repair
  imports Recovery
begin

text \<open>
  What the recovery does to the host's mounts, under what umount, a bind and a remount are documented to
  do to the mount table: the staging path is bare when a pod is about to mount it, and a repair
  leaves no bind of the volume on a dead mount and touches no other mount point.
\<close>

subsection \<open>Clearing a path\<close>

lemma unmount_or_detach_law:
  assumes law: "mount_law H t depth" and run: "run_state (unmount_or_detach H t) w = (r, w')"
  shows "depth w' \<le> depth w \<and> (steady_path H t \<and> is_ok r \<and> 0 < depth w \<longrightarrow> depth w' < depth w)"
proof -
  obtain q u where q: "run_state (mounter_unmount H t) w = (q, u)" by fastforce
  note u = mounter_unmount_law [OF law q]
  show ?thesis
  proof (cases q)
    case (Inr x)
    then show ?thesis using u q run by (auto simp: unmount_or_detach_def)
  next
    case (Inl e)
    then have "run_state (mounter_detach H t) u = (r, w')" using q run by (simp add: unmount_or_detach_def)
    then show ?thesis using mounter_detach_law [OF law] u Inl by (auto split: if_splits)
  qed
qed

interpretation ud: mount_point mount_state unmount_or_detach mount_law steady_path
  by unfold_locales (blast dest: mount_state_law, blast dest: unmount_or_detach_law)

lemma unmount_or_detach_not_still:
  "run_state (unmount_or_detach H t) w = (r, w') \<Longrightarrow> r \<noteq> Inl StillMounted"
  by (auto simp: unmount_or_detach_def mounter_detach_def split: prod.splits sum.splits if_splits)

definition cleared :: "'w host \<Rightarrow> string \<Rightarrow> ('w \<Rightarrow> nat) \<Rightarrow> nat \<Rightarrow> nat \<Rightarrow> mount_error + unit \<Rightarrow> 'w \<Rightarrow> bool" where
  "cleared H t depth d k r w \<longleftrightarrow> depth w \<le> d \<and> (is_ok r \<longrightarrow> depth w = 0) \<and>
     (steady_path H t \<and> d \<le> k \<longrightarrow> r \<noteq> Inl StillMounted)"

lemma unmount_all_loop_cleared:
  assumes law: "mount_law H t depth"
  shows "run_state (unmount_all_loop H t n) w = (r, w') \<Longrightarrow> cleared H t depth (depth w) n r w'"
proof (induction n arbitrary: w)
  case 0
  obtain s u where s: "run_state (mount_state H t) w = (s, u)" by fastforce
  show ?case
  proof (cases s)
    case (Inl e)
    then have "\<not> steady_path H t" using mount_state_steady [of H t w e u] s by auto
    then show ?thesis
      using 0 s Inl ud.checked [OF law s] by (auto simp: cleared_def)
  next
    case (Inr mc)
    obtain m c where m: "mc = (m, c)" by fastforce
    then have "depth u = depth w" "m \<longleftrightarrow> 0 < depth w" using mount_state_law [OF law s] Inr by auto
    then show ?thesis using 0 s Inr m by (cases m) (auto simp: cleared_def)
  qed
next
  case (Suc n)
  obtain s u where s: "run_state (mount_state H t) w = (s, u)" by fastforce
  show ?case
  proof (cases s)
    case (Inl e)
    with Suc.prems s ud.checked [OF law s] mount_state_not_still [OF s] show ?thesis
      by (auto simp: run_attempt cleared_def)
  next
    case (Inr mc)
    obtain m c where m: "mc = (m, c)" by fastforce
    show ?thesis
    proof (cases m)
      case False
      have "depth u = 0 \<and> depth w = 0" using ud.clear [OF law] s Inr m False by fastforce
      then show ?thesis using Suc.prems s Inr m False by (auto simp: run_attempt cleared_def)
    next
      case True
      obtain q v where q: "run_state (unmount_or_detach H t) u = (q, v)" by fastforce
      note qv = ud.round [OF law _ q, of w c]
      show ?thesis
      proof (cases q)
        case (Inl e)
        with Suc.prems s m True q qv unmount_or_detach_not_still [OF q] \<open>s = Inr mc\<close>
        show ?thesis by (auto simp: run_attempt cleared_def)
      next
        case (Inr x)
        then have "run_state (unmount_all_loop H t n) v = (r, w')"
          using Suc.prems s m True q \<open>s = Inr mc\<close> by (simp add: run_attempt)
        from Suc.IH [OF this] show ?thesis
          using qv s m True Inr \<open>s = Inr mc\<close> by (auto simp: cleared_def)
      qed
    qed
  qed
qed

text \<open>The other calls of \<open>Prepare\<close> leave the mounts alone.\<close>

definition files_law :: "'w host \<Rightarrow> ('w \<Rightarrow> nat) \<Rightarrow> bool" where
  "files_law H depth \<longleftrightarrow> (\<forall>p m w.
     depth (snd (run_state (h_mkdir_all H p m) w)) = depth w \<and>
     depth (snd (run_state (h_mkdir H p m) w)) = depth w \<and>
     depth (snd (run_state (h_chmod H p m) w)) = depth w \<and>
     depth (snd (run_state (h_remove_all H p) w)) = depth w)"

lemma files_keep:
  assumes "files_law H depth"
  shows "keeps (\<lambda>w. depth w = d) (h_mkdir_all H p m)" "keeps (\<lambda>w. depth w = d) (h_mkdir H p m)"
    "keeps (\<lambda>w. depth w = d) (h_chmod H p m)" "keeps (\<lambda>w. depth w = d) (h_remove_all H p)"
  using assms by (auto simp: files_law_def intro!: keepsI)

text \<open>
  C20. A mount pod mounts on a bare staging path: when \<open>Prepare\<close> succeeds no layer of a former mount is
  left on it, and up to eight layers, on a path whose state can be read, it never gives up for
  their number.
\<close>

theorem prepare_clears_staging:
  assumes "mount_law H (staging_path s) depth" and "files_law H depth"
    and "run_state (prepare H cfg s) w = (r, w')"
  shows "(is_ok r \<longrightarrow> depth w' = 0) \<and>
    (steady_path H (staging_path s) \<and> depth w \<le> max_mount_layers \<longrightarrow> r \<noteq> Inl StillMounted)"
proof -
  obtain q u where q: "run_state (unmount_all H (staging_path s)) w = (q, u)" by fastforce
  have c: "cleared H (staging_path s) depth (depth w) max_mount_layers q u"
    using unmount_all_loop_cleared [OF assms(1)] q by (simp add: unmount_all_def)
  define rest where "rest = attempt (h_mkdir_all H (staging_path s) 488) SysError (\<lambda>_.
    attempt (h_remove_all H (spool_host_path cfg (volume_id s))) SysError (\<lambda>_.
    attempt (h_mkdir_all H (path_dir (spool_host_path cfg (volume_id s))) 448) SysError (\<lambda>_.
    attempt (h_mkdir H (spool_host_path cfg (volume_id s)) 448) SysError (\<lambda>_.
    attempt (h_chmod H (spool_host_path cfg (volume_id s)) 448) SysError (\<lambda>_. State_Monad.return (Inr ()))))))"
  have prep: "prepare H cfg s = attempt (unmount_all H (staging_path s)) id (\<lambda>_. rest)"
    by (simp add: prepare_def Let_def rest_def)
  have run: "(r, w') = (case q of Inl e \<Rightarrow> (Inl e, u) | Inr _ \<Rightarrow> run_state rest u)"
    using assms(3) q by (cases q) (auto simp: prep run_attempt)
  have "keeps (\<lambda>x. depth x = 0) rest"
    unfolding rest_def by (intro keeps_attempt keeps_return files_keep [OF assms(2)])
  then have keep: "depth (snd (run_state rest u)) = 0" if "depth u = 0" using that by (rule keepsD)
  have "fst (run_state rest u) \<noteq> Inl StillMounted"
    unfolding rest_def by (auto simp: run_attempt split: prod.splits sum.splits)
  then show ?thesis
    using c run keep by (cases q) (auto simp: cleared_def dest: sym)
qed

lemma demo_clear:
  "n \<le> k \<Longrightarrow> run_state (unmount_all_loop demo_host t k) n = (Inr (), 0)"
proof (induction k arbitrary: n)
  case 0
  then show ?case by (simp add: mount_state_def demo_host_def)
next
  case (Suc k)
  have "run_state (mount_state demo_host t) n = (if n = 0 then Inr (False, False) else Inr (True, True), n)"
    by (simp add: mount_state_def demo_host_def)
  moreover have "run_state (unmount_or_detach demo_host t) n = (Inr (), n - 1)" if "0 < n"
    using that by (simp add: unmount_or_detach_def mounter_unmount_def run_attempt mounter_detach_def demo_host_def)
  ultimately show ?case using Suc by (auto simp: run_attempt)
qed

theorem prepare_clears_staging_witness:
  "run_state (prepare demo_host demo_config demo_spec) 8 = (Inr (), 0)"
proof -
  have files: "files_law demo_host id" by (simp add: files_law_def demo_host_def)
  obtain r w where run: "run_state (prepare demo_host demo_config demo_spec) 8 = (r, w)" by fastforce
  have ops: "h_mkdir_all demo_host p m = State_Monad.return (Inr ())" "h_mkdir demo_host p m = State_Monad.return (Inr ())"
    "h_chmod demo_host p m = State_Monad.return (Inr ())" "h_remove_all demo_host p = State_Monad.return (Inr ())" for p m
    by (simp_all add: demo_host_def)
  have "r = Inr ()" using run demo_clear [of 8 max_mount_layers "staging_path demo_spec"]
    by (simp add: prepare_def Let_def run_attempt unmount_all_def max_mount_layers_def ops)
  with prepare_clears_staging [OF demo_host_law files run] run show ?thesis by simp
qed

subsection \<open>Repairing the binds\<close>

text \<open>
  What the calls are documented to do to the mount table. An unmount, a bind and a remount change the
  entries of their own mount point only; a bind puts a layer of the source's device on top, and a
  remount keeps the device of the top layer.
\<close>

definition entries_at :: "string \<Rightarrow> mount_info list \<Rightarrow> mount_info list" where
  "entries_at p infos = filter (\<lambda>i. mi_point i = p) infos"

definition same_elsewhere :: "string \<Rightarrow> mount_info list \<Rightarrow> mount_info list \<Rightarrow> bool" where
  "same_elsewhere p l l' \<longleftrightarrow> (\<forall>q. q \<noteq> p \<longrightarrow> entries_at q l' = entries_at q l)"

definition top_device :: "mount_info list \<Rightarrow> string \<Rightarrow> (int \<times> int) option" where
  "top_device infos p = map_option mi_device (top_mount infos p)"

definition table_law :: "'w host \<Rightarrow> ('w \<Rightarrow> mount_info list) \<Rightarrow> bool" where
  "table_law H table \<longleftrightarrow>
     (\<forall>w r w'. run_state (h_mount_info H) w = (r, w') \<longrightarrow>
        table w' = table w \<and> (\<forall>infos. r = Inr infos \<longrightarrow> infos = table w)) \<and>
     (\<forall>p w r w'. run_state (h_is_mount_point H p) w = (r, w') \<longrightarrow> table w' = table w) \<and>
     (\<forall>p w r w'. run_state (h_umount H p) w = (r, w') \<longrightarrow> same_elsewhere p (table w) (table w')) \<and>
     (\<forall>p w r w'. run_state (h_detach H p) w = (r, w') \<longrightarrow> same_elsewhere p (table w) (table w')) \<and>
     (\<forall>src p w r w'. run_state (h_bind H src p) w = (r, w') \<longrightarrow>
        same_elsewhere p (table w) (table w') \<and>
        (is_ok r \<longrightarrow> top_device (table w') p = top_device (table w) src)) \<and>
     (\<forall>p w r w'. run_state (h_remount_ro H p) w = (r, w') \<longrightarrow>
        same_elsewhere p (table w) (table w') \<and> top_device (table w') p = top_device (table w) p)"

lemma same_elsewhere_refl [simp]: "same_elsewhere p l l"
  by (simp add: same_elsewhere_def)

lemma same_elsewhere_trans: "same_elsewhere p l m \<Longrightarrow> same_elsewhere p m n \<Longrightarrow> same_elsewhere p l n"
  by (simp add: same_elsewhere_def)

lemma top_mount_entries: "top_mount infos p = (if p = [] \<or> entries_at p infos = [] then None else Some (last (entries_at p infos)))"
  by (induction infos rule: rev_induct) (auto simp: top_mount_snoc entries_at_def)

lemma top_mount_same: "entries_at p l' = entries_at p l \<Longrightarrow> top_mount l' p = top_mount l p"
  by (simp add: top_mount_entries)

lemma same_elsewhere_top: "same_elsewhere p l l' \<Longrightarrow> q \<noteq> p \<Longrightarrow> top_mount l' q = top_mount l q"
  unfolding same_elsewhere_def by (blast intro: top_mount_same)

lemma table_lawD:
  assumes "table_law H table"
  shows "run_state (h_mount_info H) w = (rm, w') \<Longrightarrow> table w' = table w"
    "run_state (h_is_mount_point H p) w = (rc, w') \<Longrightarrow> table w' = table w"
    "run_state (h_umount H p) w = (ru, w') \<Longrightarrow> same_elsewhere p (table w) (table w')"
    "run_state (h_detach H p) w = (rd, w') \<Longrightarrow> same_elsewhere p (table w) (table w')"
    "run_state (h_bind H src p) w = (rb, w') \<Longrightarrow> same_elsewhere p (table w) (table w') \<and>
      (is_ok rb \<longrightarrow> top_device (table w') p = top_device (table w) src)"
    "run_state (h_remount_ro H p) w = (rr, w') \<Longrightarrow> same_elsewhere p (table w) (table w') \<and>
      top_device (table w') p = top_device (table w) p"
proof -
  note law = assms [unfolded table_law_def]
  show "run_state (h_mount_info H) w = (rm, w') \<Longrightarrow> table w' = table w"
    using law [THEN conjunct1] by blast
  note law = law [THEN conjunct2]
  show "run_state (h_is_mount_point H p) w = (rc, w') \<Longrightarrow> table w' = table w"
    using law [THEN conjunct1] by blast
  note law = law [THEN conjunct2]
  show "run_state (h_umount H p) w = (ru, w') \<Longrightarrow> same_elsewhere p (table w) (table w')"
    using law [THEN conjunct1] by blast
  note law = law [THEN conjunct2]
  show "run_state (h_detach H p) w = (rd, w') \<Longrightarrow> same_elsewhere p (table w) (table w')"
    using law [THEN conjunct1] by blast
  note law = law [THEN conjunct2]
  show "run_state (h_bind H src p) w = (rb, w') \<Longrightarrow> same_elsewhere p (table w) (table w') \<and>
      (is_ok rb \<longrightarrow> top_device (table w') p = top_device (table w) src)"
    using law [THEN conjunct1] by blast
  show "run_state (h_remount_ro H p) w = (rr, w') \<Longrightarrow> same_elsewhere p (table w) (table w') \<and>
      top_device (table w') p = top_device (table w) p"
    using law [THEN conjunct2] by blast
qed

lemma mount_state_table:
  "table_law H table \<Longrightarrow> run_state (mount_state H p) w = (r, w') \<Longrightarrow> table w' = table w"
  by (auto simp: mount_state_def split: prod.splits dest: table_lawD)

lemma unmount_or_detach_table:
  assumes law: "table_law H table" and run: "run_state (unmount_or_detach H p) w = (r, w')"
  shows "same_elsewhere p (table w) (table w')"
  using run
  by (auto simp: unmount_or_detach_def mounter_unmount_def run_attempt mounter_detach_def
      split: prod.splits sum.splits dest!: table_lawD [OF law] intro: same_elsewhere_trans)

lemma unstack_loop_table:
  assumes law: "table_law H table"
  shows "run_state (unstack_loop H p n) w = (r, w') \<Longrightarrow> same_elsewhere p (table w) (table w')"
proof (induction n arbitrary: w)
  case (Suc n)
  obtain a u where a: "run_state (h_mount_info H) w = (a, u)" by fastforce
  then have u: "table u = table w" by (rule table_lawD [OF law])
  obtain b v where b: "run_state (mount_state H p) u = (b, v)" by fastforce
  then have v: "table v = table w" using mount_state_table [OF law b] u by simp
  obtain c x where c: "run_state (unmount_or_detach H p) v = (c, x)" by fastforce
  then have x: "same_elsewhere p (table w) (table x)" using unmount_or_detach_table [OF law c] v by simp
  show ?case
    using Suc.prems a b c u v x
    by (auto simp: run_attempt split: sum.splits if_splits intro: same_elsewhere_trans [OF _ Suc.IH])
qed simp

text \<open>One target of the loop, when it succeeds: a layer of the live device on top, the rest as it was.\<close>

lemma rebind_mount_table:
  assumes law: "table_law H table" and run: "run_state (rebind_mount H src p ro) w = (Inr (), w')"
  shows "same_elsewhere p (table w) (table w') \<and> top_device (table w') p = top_device (table w) src"
proof -
  obtain q u where q: "run_state (h_bind H src p) w = (q, u)" by fastforce
  have u: "same_elsewhere p (table w) (table u) \<and> (is_ok q \<longrightarrow> top_device (table u) p = top_device (table w) src)"
    using q by (rule table_lawD [OF law])
  obtain b v where b: "run_state (h_remount_ro H p) u = (b, v)" by fastforce
  have v: "same_elsewhere p (table u) (table v) \<and> top_device (table v) p = top_device (table u) p"
    using b by (rule table_lawD [OF law])
  show ?thesis
    using run q u b v
    by (cases q; cases ro; cases b) (auto simp: rebind_mount_def run_attempt intro: same_elsewhere_trans)
qed

lemma rebind_loop_errs: "run_state (rebind_loop H infos src ts True) w = (e, w') \<Longrightarrow> e"
  by (induction ts arbitrary: w) (auto split: if_splits sum.splits prod.splits)

lemma rebind_loop_table:
  assumes law: "table_law H table" and src: "src \<notin> mi_point ` set ts"
    and alive: "top_device (table w) src = Some alive"
  shows "run_state (rebind_loop H infos src ts errs) w = (False, w') \<Longrightarrow>
    (\<forall>p. if p \<in> mi_point ` set ts then top_device (table w') p = Some alive
         else entries_at p (table w') = entries_at p (table w))"
  using src alive
proof (induction ts arbitrary: w errs)
  case (Cons t ts)
  let ?p = "mi_point t"
  obtain c u where c: "run_state (if max_target_layers \<le> layers infos ?p then unstack H ?p
      else State_Monad.return (Inr ())) w = (c, u)" by fastforce
  then have u: "same_elsewhere ?p (table w) (table u)"
    using unstack_loop_table [OF law] by (auto simp: unstack_def split: if_splits)
  obtain x where "c = Inr x"
    using Cons.prems(1) c rebind_loop_errs by (cases c) fastforce+
  then have ok: "c = Inr ()" by simp
  obtain r v where r: "run_state (rebind_mount H src ?p (''ro'' \<in> set (mi_options t))) u = (r, v)" by fastforce
  have rest: "run_state (rebind_loop H infos src ts (errs \<or> is_err r)) v = (False, w')"
    using Cons.prems(1) c ok r by simp
  then have "r = Inr ()" using rebind_loop_errs [of H infos src ts v] by (cases r) auto
  then have v: "same_elsewhere ?p (table u) (table v)" "top_device (table v) ?p = top_device (table u) src"
    using rebind_mount_table [OF law] r by auto
  have wv: "same_elsewhere ?p (table w) (table v)" using u v(1) by (rule same_elsewhere_trans)
  have "src \<noteq> ?p" using Cons.prems(2) by auto
  then have "top_device (table u) src = Some alive" "top_device (table v) src = Some alive"
    using Cons.prems(3) same_elsewhere_top [OF u] same_elsewhere_top [OF wv] by (simp_all add: top_device_def)
  with v(2) have here: "top_device (table v) ?p = Some alive" by simp
  have "src \<notin> mi_point ` set ts" using Cons.prems(2) by simp
  note IH = Cons.IH [OF rest this \<open>top_device (table v) src = Some alive\<close>]
  show ?case
  proof
    fix p
    show "if p \<in> mi_point ` set (t # ts) then top_device (table w') p = Some alive
        else entries_at p (table w') = entries_at p (table w)"
    proof (cases "p = ?p \<and> p \<notin> mi_point ` set ts")
      case True
      then have "entries_at p (table w') = entries_at p (table v)" using IH [THEN spec, of p] by auto
      then have "top_device (table w') p = top_device (table v) p" by (simp add: top_device_def top_mount_same [of p "table w'" "table v"])
      then show ?thesis using True here by simp
    next
      case False
      show ?thesis
      proof (cases "p \<in> mi_point ` set ts")
        case True
        then show ?thesis using IH [THEN spec, of p] by simp
      next
        case other: False
        then have "entries_at p (table w') = entries_at p (table v)" using IH [THEN spec, of p] by simp
        moreover have "p \<noteq> ?p" using False other by simp
        ultimately show ?thesis using other wv by (simp add: same_elsewhere_def)
      qed
    qed
  qed
qed simp

lemma no_empty_target: "\<not> is_target cfg []"
  by (simp add: is_target_def has_prefix_def)

text \<open>
  C19. A repair that succeeds leaves no pod of the volume on a dead mount: every target path whose top
  layer was a bind of a former mount now has a layer of the live one on top, no target path of
  the volume is on another mount, and every other mount point has the layers it had.
\<close>

theorem rebind_repairs_targets:
  assumes law: "table_law H table" and staging: "\<not> is_target cfg staging"
    and fuse: "top_mount (table w) staging = Some fuse"
    and run: "run_state (rebind H cfg (table w) volume staging) w = (Inr (), w')"
  shows "dead_targets (table w') volume (mi_device fuse) (is_target cfg) = [] \<and>
    (\<forall>p. if \<exists>t \<in> set (dead_targets (table w) volume (mi_device fuse) (is_target cfg)). mi_point t = p
         then top_device (table w') p = Some (mi_device fuse)
         else entries_at p (table w') = entries_at p (table w))"
proof -
  define alive where "alive = mi_device fuse"
  define ts where "ts = dead_targets (table w) volume alive (is_target cfg)"
  have ts: "set ts = {i. is_target cfg (mi_point i) \<and> top_mount (table w) (mi_point i) = Some i \<and>
      is_dead volume alive i}"
    unfolding ts_def by (rule set_dead_targets) (rule no_empty_target)
  have src: "staging \<notin> mi_point ` set ts" using staging by (auto simp: ts)
  have "run_state (rebind_loop H (table w) staging ts False) w = (False, w')"
    using run fuse by (auto simp: rebind_def ts_def alive_def split: if_splits prod.splits)
  from rebind_loop_table [OF law src _ this] fuse
  have after: "if p \<in> mi_point ` set ts then top_device (table w') p = Some alive
      else entries_at p (table w') = entries_at p (table w)" for p
    by (simp add: top_device_def [of "table w"] alive_def)
  have "i \<notin> set (dead_targets (table w') volume alive (is_target cfg))" for i
  proof
    assume "i \<in> set (dead_targets (table w') volume alive (is_target cfg))"
    then have i: "is_target cfg (mi_point i)" "top_mount (table w') (mi_point i) = Some i"
        "is_dead volume alive i"
      by (simp_all add: set_dead_targets no_empty_target)
    then have "mi_point i \<notin> mi_point ` set ts"
      using after [of "mi_point i"] by (auto simp: top_device_def is_dead_def)
    then have "top_mount (table w) (mi_point i) = Some i"
      using after [of "mi_point i"] i(2) top_mount_same by metis
    with i have "i \<in> set ts" by (simp add: ts)
    with \<open>mi_point i \<notin> mi_point ` set ts\<close> show False by blast
  qed
  then have "dead_targets (table w') volume alive (is_target cfg) = []"
    by (metis list.set_intros(1) neq_Nil_conv)
  moreover have "(\<exists>t \<in> set ts. mi_point t = p) \<longleftrightarrow> p \<in> mi_point ` set ts" for p by auto
  ultimately show ?thesis using after by (simp add: alive_def [symmetric] ts_def [symmetric])
qed

text \<open>A live mount on the staging path, and a pod target path still bound to a former one.\<close>

definition demo_layer_of :: "string \<Rightarrow> int \<Rightarrow> mount_info" where
  "demo_layer_of p device = \<lparr>mi_source = ''retyc://v'', mi_point = p, mi_root = ''/'',
     mi_device = (0, device), mi_options = []\<rparr>"

definition table_host :: "mount_info list host" where
  "table_host =
     \<lparr>h_is_mount_point = \<lambda>_. State_Monad.return (Inr True),
      h_umount = \<lambda>_. State_Monad.return (Inl []),
      h_mount = \<lambda>_ _ _. State_Monad.return (Inr ()), h_detach = \<lambda>_. State_Monad.return (Inl Enoent),
      h_bind = \<lambda>src p. State (\<lambda>l. case top_mount l src of
          None \<Rightarrow> (Inl Enoent, l)
        | Some i \<Rightarrow> if p = [] then (Inl Enoent, l) else (Inr (), l @ [i\<lparr>mi_point := p\<rparr>])),
      h_remount_ro = \<lambda>_. State_Monad.return (Inr ()),
      h_mount_info = State (\<lambda>l. (Inr l, l)),
      h_mkdir_all = \<lambda>_ _. State_Monad.return (Inr ()), h_mkdir = \<lambda>_ _. State_Monad.return (Inr ()),
      h_chmod = \<lambda>_ _. State_Monad.return (Inr ()), h_remove = \<lambda>_. State_Monad.return (Inr ()),
      h_remove_all = \<lambda>_. State_Monad.return (Inr ()), h_stat = \<lambda>_. State_Monad.return (Inr ()),
      h_read_dir = \<lambda>_. State_Monad.return (Inr ()),
      h_statfs = \<lambda>_. State_Monad.return (Inl Enoent)\<rparr>"

lemma table_host_law: "table_law table_host id"
  by (auto simp: table_law_def table_host_def same_elsewhere_def entries_at_def top_device_def
      top_mount_snoc split: option.splits if_splits)

definition demo_table :: "mount_info list" where
  "demo_table = [demo_layer_of ''/s'' 2, demo_layer_of ''/k/pods/p/m'' 1]"

theorem rebind_repairs_targets_witness:
  "top_device (snd (run_state (rebind table_host (demo_config\<lparr>cfg_kubelet_dir := ''/k''\<rparr>) demo_table ''v'' ''/s'')
     demo_table)) ''/k/pods/p/m'' = Some (0, 2)"
proof -
  let ?cfg = "demo_config\<lparr>cfg_kubelet_dir := ''/k''\<rparr>"
  have join: "path_join [''/k'', ''pods''] = ''/k/pods''"
    by (simp add: path_join_def path_clean_def path_is_abs_def dot_def dotdot_def)
  have fuse: "top_mount (id demo_table) ''/s'' = Some (demo_layer_of ''/s'' 2)"
    by (simp add: top_mount_def demo_table_def top_step_def demo_layer_of_def)
  have staging: "\<not> is_target ?cfg ''/s''" by (simp add: is_target_def join has_prefix_def)
  have target: "is_target ?cfg ''/k/pods/p/m''" by (simp add: is_target_def join has_prefix_def)
  have dead: "demo_layer_of ''/k/pods/p/m'' 1 \<in> set (dead_targets (id demo_table) ''v''
      (mi_device (demo_layer_of ''/s'' 2)) (is_target ?cfg))"
    using target by (simp add: set_dead_targets no_empty_target is_dead_def demo_layer_of_def mount_source_def
        demo_table_def top_mount_def top_step_def)
  obtain r w where run: "run_state (rebind table_host ?cfg (id demo_table) ''v'' ''/s'') demo_table = (r, w)"
    by fastforce
  then have "r = Inr ()"
    using staging target
    by (simp add: rebind_def fuse [simplified] demo_table_def top_mount_def top_step_def demo_layer_of_def
        mount_source_def dead_targets_def tops_step_def is_dead_def layers_def max_target_layers_def
        rebind_mount_def run_attempt table_host_def)
  from rebind_repairs_targets [OF table_host_law staging fuse run [unfolded this], THEN conjunct2] dead
  have "top_device (id w) ''/k/pods/p/m'' = Some (mi_device (demo_layer_of ''/s'' 2))"
    by (metis demo_layer_of_def mount_info.select_convs(2))
  then show ?thesis using run by (simp add: demo_layer_of_def)
qed

end
