(* ===== verification/Watch.thy ===== *)
theory Watch
  imports Recovery
begin

text \<open>
  The parts of the pod watch that decide (internal/driver/watch.go): which pods and which changes of a
  pod queue its volume, and what is done with a volume after its repair. The informer and the work
  queue are Kubernetes libraries.
\<close>

definition own_pod :: "('w, 'q) node_server \<Rightarrow> 'q pod \<Rightarrow> bool" where
  "own_pod S p \<longleftrightarrow> pod_annotation p label_node = ns_node S \<and> pod_annotation p label_volume \<noteq> []"

definition pod_finished :: "'q pod \<Rightarrow> bool" where
  "pod_finished p \<longleftrightarrow> pst_phase (pod_status_of p) = ''Failed'' \<or> pst_phase (pod_status_of p) = ''Succeeded'' \<or>
     list_ex (\<lambda>cs. cs_terminated cs \<noteq> None) (statuses p)"

definition pod_signature :: "'q pod \<Rightarrow> bool \<times> bool \<times> bool" where
  "pod_signature p =
     (om_deletion (pod_meta p) \<noteq> None, pod_finished p,
      foldl (\<lambda>ready c. if pc_type c = ''Ready'' then pc_status c = ''True'' else ready) False
        (pst_conditions (pod_status_of p)))"

text \<open>The three handlers of the informer: the volume an event queues.\<close>

definition enqueue :: "('w, 'q) node_server \<Rightarrow> 'q pod \<Rightarrow> string option" where
  "enqueue S p = (if own_pod S p then Some (pod_annotation p label_volume) else None)"

definition pod_added :: "('w, 'q) node_server \<Rightarrow> 'q pod \<Rightarrow> string option" where
  "pod_added S p =
     (if om_deletion (pod_meta p) \<noteq> None \<or> pod_finished p then enqueue S p else None)"

definition pod_updated :: "('w, 'q) node_server \<Rightarrow> 'q pod \<Rightarrow> 'q pod \<Rightarrow> string option" where
  "pod_updated S old new = (if pod_signature old \<noteq> pod_signature new then enqueue S new else None)"

definition pod_deleted :: "('w, 'q) node_server \<Rightarrow> 'q pod \<Rightarrow> string option" where
  "pod_deleted S p = enqueue S p"

datatype requeue = RateLimited | After int | Forgotten

text \<open>\<open>repair\<close> and the switch of \<open>repairWorker\<close>.\<close>

definition repair :: "('w, 'q) node_server \<Rightarrow> string \<Rightarrow> ('w server, int \<times> repair_error option) state" where
  "repair S volume = do {
     r \<leftarrow> recover_volume S volume False;
     State_Monad.return (snd r)
   }"

definition repair_worker :: "('w, 'q) node_server \<Rightarrow> string \<Rightarrow> ('w server, requeue) state" where
  "repair_worker S volume = do {
     r \<leftarrow> repair S volume;
     (case r of
        (_, Some _) \<Rightarrow> State_Monad.return RateLimited
      | (at, None) \<Rightarrow>
          if at = zero_time then State_Monad.return Forgotten
          else do {
            now \<leftarrow> ns_clock S;
            State_Monad.return (After (max (time_sub at now) min_retry_delay))
          })
   }"

text \<open>
  \<open>watchPods\<close>: the informer on the pods of the node in the driver's namespace, with the handlers above. The
  informer is a library: \<open>add\<close> registers the handlers, \<open>launch\<close> starts it, \<open>synced\<close> waits until it has listed the pods.
\<close>

datatype watch_error = NoClient | NoHandlers string | NotSynced

definition watch_pods ::
  "('w, 'q) node_server \<Rightarrow> bool \<Rightarrow> (string \<Rightarrow> string gomap \<Rightarrow> ('w, string + unit) state) \<Rightarrow> ('w, unit) state \<Rightarrow>
   ('w, bool) state \<Rightarrow> ('w, watch_error option) state" where
  "watch_pods S has_client add launch synced =
     (if \<not> has_client then State_Monad.return (Some NoClient)
      else do {
        r \<leftarrow> add (cfg_namespace (ns_config S)) (node_selector (ns_codec S) (ns_node S));
        (case r of
           Inl e \<Rightarrow> State_Monad.return (Some (NoHandlers e))
         | Inr _ \<Rightarrow> do {
             _ \<leftarrow> launch;
             ok \<leftarrow> synced;
             State_Monad.return (if ok then None else Some NotSynced)
           })
      })"

end
