(* ===== verification/Watch_Queue.thy ===== *)
theory Watch_Queue
  imports Watch
begin

text \<open>
  The pod watch as a whole (\<open>Watch\<close>, \<open>watchPods\<close> and \<open>repairWorker\<close> of internal/driver/watch.go): the
  events of the informer, the workers and the rounds, in any interleaving. The work queue of client-go
  is a parameter, with what its documentation promises as hypotheses.
\<close>

subsection \<open>The work queue\<close>

text \<open>
  The calls on the queue, and the two sets its documentation speaks of: the items that are still to be handed
  out (at once or after a delay), and those handed out and not yet done.
\<close>

record 'k work_queue =
  wq_add :: "string \<Rightarrow> 'k \<Rightarrow> 'k"
  wq_get :: "'k \<Rightarrow> (string \<times> 'k) option"
  wq_done :: "string \<Rightarrow> 'k \<Rightarrow> 'k"
  wq_add_after :: "string \<Rightarrow> int \<Rightarrow> 'k \<Rightarrow> 'k"
  wq_add_limited :: "string \<Rightarrow> 'k \<Rightarrow> 'k"
  wq_forget :: "string \<Rightarrow> 'k \<Rightarrow> 'k"
  wq_waiting :: "'k \<Rightarrow> string set"
  wq_working :: "'k \<Rightarrow> string set"

definition adds :: "'k work_queue \<Rightarrow> string \<Rightarrow> ('k \<Rightarrow> 'k) \<Rightarrow> bool" where
  "adds Q v f \<longleftrightarrow> (\<forall>q. wq_waiting Q (f q) = insert v (wq_waiting Q q) \<and> wq_working Q (f q) = wq_working Q q)"

text \<open>
  An item is handed out to one worker at a time, and one added meanwhile is handed out again after
  it is done; \<open>Forget\<close> only clears the failures counted.
\<close>

definition queue_law :: "'k work_queue \<Rightarrow> bool" where
  "queue_law Q \<longleftrightarrow>
     (\<forall>v. adds Q v (wq_add Q v)) \<and> (\<forall>v d. adds Q v (wq_add_after Q v d)) \<and> (\<forall>v. adds Q v (wq_add_limited Q v)) \<and>
     (\<forall>v q. wq_waiting Q (wq_forget Q v q) = wq_waiting Q q \<and> wq_working Q (wq_forget Q v q) = wq_working Q q) \<and>
     (\<forall>v q. wq_waiting Q (wq_done Q v q) = wq_waiting Q q \<and> wq_working Q (wq_done Q v q) = wq_working Q q - {v}) \<and>
     (\<forall>v q r. wq_get Q q = Some (v, r) \<longrightarrow>
        v \<notin> wq_working Q q \<and> wq_waiting Q q - {v} \<subseteq> wq_waiting Q r \<and> wq_working Q r = insert v (wq_working Q q))"

subsection \<open>The steps\<close>

text \<open>The events of the informer; a deletion may come with something that is not a pod.\<close>

datatype 'q pod_event = PodAdded "'q pod" | PodUpdated "'q pod" "'q pod" | PodDeleted "'q pod option"

definition event_volume :: "('w, 'q) node_server \<Rightarrow> 'q pod_event \<Rightarrow> string option" where
  "event_volume S e =
     (case e of
        PodAdded p \<Rightarrow> pod_added S p
      | PodUpdated old new \<Rightarrow> pod_updated S old new
      | PodDeleted p \<Rightarrow> Option.bind p (pod_deleted S))"

text \<open>What \<open>repairWorker\<close> tells the queue after a repair.\<close>

definition put_back :: "'k work_queue \<Rightarrow> string \<Rightarrow> requeue \<Rightarrow> 'k \<Rightarrow> 'k" where
  "put_back Q v r q =
     wq_done Q v
       (case r of
          RateLimited \<Rightarrow> wq_add_limited Q v q
        | After d \<Rightarrow> wq_add_after Q v d (wq_forget Q v q)
        | Forgotten \<Rightarrow> wq_forget Q v q)"

record ('w, 'k) watch =
  wa_server :: "'w server"
  wa_queue :: 'k
  wa_hands :: "string list"

text \<open>
  A step: an event, a worker that gets a volume, a worker that repairs the volume it got and puts it back (under
  the volume's lock), or the round of a tick. \<open>wa_hands\<close> holds the volumes the workers are at.
\<close>

datatype 'q watch_op =
    Event "'q pod_event"
  | Get
  | Finish string
  | Tick "'q pod_state list \<Rightarrow> string list" "(string \<rightharpoonup> string) \<Rightarrow> (string \<times> string) list"

definition repair_workers :: nat where "repair_workers = 4"

text \<open>The item that a worker gets, when one of them is at \<open>Get\<close>.\<close>

definition next_item :: "'k work_queue \<Rightarrow> ('w, 'k) watch \<Rightarrow> (string \<times> 'k) option" where
  "next_item Q t = (if length (wa_hands t) < repair_workers then wq_get Q (wa_queue t) else None)"

definition watch_step ::
  "('w, 'q) node_server \<Rightarrow> 'k work_queue \<Rightarrow> 'q watch_op \<Rightarrow> ('w, 'k) watch \<Rightarrow> ('w, 'k) watch" where
  "watch_step S Q x t =
     (case x of
        Event e \<Rightarrow>
          (case event_volume S e of None \<Rightarrow> t | Some v \<Rightarrow> t\<lparr>wa_queue := wq_add Q v (wa_queue t)\<rparr>)
      | Get \<Rightarrow>
          (case next_item Q t of
             None \<Rightarrow> t
           | Some (v, q) \<Rightarrow> t\<lparr>wa_queue := q, wa_hands := v # wa_hands t\<rparr>)
      | Finish v \<Rightarrow>
          if v \<in> set (wa_hands t) then
            (case run_state (repair_worker S v) (wa_server t) of
               (r, s) \<Rightarrow> t\<lparr>wa_server := s, wa_queue := put_back Q v r (wa_queue t), wa_hands := remove1 v (wa_hands t)\<rparr>)
          else t
      | Tick schedule_of order \<Rightarrow> t\<lparr>wa_server := snd (run_state (recover S schedule_of order) (wa_server t))\<rparr>)"

definition watch_run ::
  "('w, 'q) node_server \<Rightarrow> 'k work_queue \<Rightarrow> 'q watch_op list \<Rightarrow> ('w, 'k) watch \<Rightarrow> ('w, 'k) watch" where
  "watch_run S Q ops t = foldl (\<lambda>t x. watch_step S Q x t) t ops"

lemma watch_run_simps [simp]:
  "watch_run S Q [] t = t" "watch_run S Q (x # ops) t = watch_run S Q ops (watch_step S Q x t)"
  by (simp_all add: watch_run_def)

text \<open>Whether a worker gets the volume in the course of the steps.\<close>

fun handed_out ::
  "('w, 'q) node_server \<Rightarrow> 'k work_queue \<Rightarrow> string \<Rightarrow> 'q watch_op list \<Rightarrow> ('w, 'k) watch \<Rightarrow> bool" where
  "handed_out S Q v [] t \<longleftrightarrow> False"
| "handed_out S Q v (x # ops) t \<longleftrightarrow>
     (x = Get \<and> (\<exists>q. next_item Q t = Some (v, q))) \<or> handed_out S Q v ops (watch_step S Q x t)"

subsection \<open>What the queue holds\<close>

abbreviation waiting :: "'k work_queue \<Rightarrow> ('w, 'k) watch \<Rightarrow> string set" where
  "waiting Q t \<equiv> wq_waiting Q (wa_queue t)"

lemma put_back_sets:
  assumes "queue_law Q"
  shows "wq_waiting Q (put_back Q v r q) = (if r = Forgotten then {} else {v}) \<union> wq_waiting Q q"
    "wq_working Q (put_back Q v r q) = wq_working Q q - {v}"
  using assms by (auto simp: put_back_def queue_law_def adds_def split: requeue.split)

lemma step_keeps_waiting:
  assumes "queue_law Q" and "v \<in> waiting Q t" and "\<not> handed_out S Q v [x] t"
  shows "v \<in> waiting Q (watch_step S Q x t)"
proof (cases x)
  case (Event e)
  then show ?thesis using assms by (auto simp: watch_step_def queue_law_def adds_def split: option.split)
next
  case Get
  show ?thesis
  proof (cases "next_item Q t")
    case None
    then show ?thesis using Get assms(2) by (simp add: watch_step_def)
  next
    case (Some a)
    obtain u q where a: "a = (u, q)" by (cases a)
    have "u \<noteq> v" using assms(3) Get Some a by auto
    moreover have "waiting Q t - {u} \<subseteq> wq_waiting Q q" using assms(1) Some a by (simp add: queue_law_def next_item_def split: if_splits)
    ultimately show ?thesis using Get Some a assms(2) by (auto simp: watch_step_def)
  qed
next
  case (Finish u)
  then show ?thesis using assms by (simp add: watch_step_def put_back_sets split: prod.split)
next
  case (Tick f g)
  then show ?thesis using assms by (simp add: watch_step_def)
qed

lemma run_keeps_waiting:
  "queue_law Q \<Longrightarrow> v \<in> waiting Q t \<Longrightarrow> \<not> handed_out S Q v ops t \<Longrightarrow> v \<in> waiting Q (watch_run S Q ops t)"
proof (induction ops arbitrary: t)
  case (Cons x ops)
  have "v \<in> waiting Q (watch_step S Q x t)"
    by (rule step_keeps_waiting [OF Cons.prems(1,2)]) (use Cons.prems(3) in auto)
  then show ?case using Cons by simp
qed simp

text \<open>Every end of a mount pod of the node is an event that queues its volume.\<close>

definition tells_end :: "('w, 'q) node_server \<Rightarrow> string \<Rightarrow> 'q pod_event \<Rightarrow> bool" where
  "tells_end S v e \<longleftrightarrow>
     (let mine = (\<lambda>p. pod_annotation p label_node = ns_node S \<and> pod_annotation p label_volume = v);
          over = (\<lambda>p. om_deletion (pod_meta p) \<noteq> None \<or> pod_finished p)
      in case e of
           PodAdded p \<Rightarrow> mine p \<and> over p
         | PodUpdated old new \<Rightarrow> mine new \<and> \<not> over old \<and> over new
         | PodDeleted p \<Rightarrow> (\<exists>q. p = Some q \<and> mine q))"

lemma end_is_queued: "v \<noteq> [] \<Longrightarrow> tells_end S v e \<Longrightarrow> event_volume S e = Some v"
  by (cases e) (auto simp: tells_end_def event_volume_def pod_added_def pod_updated_def pod_deleted_def
      enqueue_def own_pod_def pod_signature_def Let_def)

subsection \<open>No end is missed\<close>

text \<open>Why a repair of the volume has to follow the step: its pod's end was told, or the repair failed or has to wait.\<close>

definition calls_for_repair ::
  "('w, 'q) node_server \<Rightarrow> string \<Rightarrow> 'q watch_op \<Rightarrow> ('w, 'k) watch \<Rightarrow> bool" where
  "calls_for_repair S v x t \<longleftrightarrow>
     (case x of
        Event e \<Rightarrow> tells_end S v e
      | Finish u \<Rightarrow> u = v \<and> v \<in> set (wa_hands t) \<and>
          (case fst (run_state (repair S v) (wa_server t)) of (at, e) \<Rightarrow> e \<noteq> None \<or> at \<noteq> zero_time)
      | _ \<Rightarrow> False)"

lemma retry_not_forgotten:
  assumes "case fst (run_state (repair S v) s) of (at, e) \<Rightarrow> e \<noteq> None \<or> at \<noteq> zero_time"
  shows "fst (run_state (repair_worker S v) s) \<noteq> Forgotten"
  using assms by (auto simp: repair_worker_def split: prod.splits option.splits)

lemma called_waits:
  assumes "queue_law Q" and "v \<noteq> []" and "calls_for_repair S v x t"
  shows "v \<in> waiting Q (watch_step S Q x t)"
proof (cases x)
  case (Event e)
  then have "event_volume S e = Some v" using assms by (simp add: calls_for_repair_def end_is_queued)
  then show ?thesis using Event assms(1) by (simp add: watch_step_def queue_law_def adds_def)
next
  case (Finish u)
  then have u: "u = v" "v \<in> set (wa_hands t)" "fst (run_state (repair_worker S v) (wa_server t)) \<noteq> Forgotten"
    using assms(3) by (simp_all add: calls_for_repair_def retry_not_forgotten)
  then show ?thesis using Finish assms(1) by (simp add: watch_step_def put_back_sets case_prod_beta)
qed (use assms(3) in \<open>simp_all add: calls_for_repair_def\<close>)

text \<open>
  C23. The watch misses nothing: once the end of a mount pod of the node was told, or a repair of its volume
  failed or found that it has to wait for the restart time, the volume stays in the queue, whatever
  events, repairs of other volumes and rounds come in between, until a worker gets it.
\<close>

theorem watch_misses_nothing:
  assumes "queue_law Q" and "v \<noteq> []" and "calls_for_repair S v x t"
    and "\<not> handed_out S Q v ops (watch_step S Q x t)"
  shows "v \<in> waiting Q (watch_run S Q (x # ops) t)"
  using run_keeps_waiting [OF assms(1) called_waits [OF assms(1-3)] assms(4)] by simp

text \<open>Two workers are never at the same volume, and no more than four are at one.\<close>

definition workers_ok :: "'k work_queue \<Rightarrow> ('w, 'k) watch \<Rightarrow> bool" where
  "workers_ok Q t \<longleftrightarrow> distinct (wa_hands t) \<and> length (wa_hands t) \<le> repair_workers \<and>
     wq_working Q (wa_queue t) = set (wa_hands t)"

lemma workers_step:
  assumes "queue_law Q" and "workers_ok Q t"
  shows "workers_ok Q (watch_step S Q x t)"
proof (cases x)
  case (Event e)
  then show ?thesis
    using assms by (simp add: workers_ok_def watch_step_def queue_law_def adds_def split: option.split)
next
  case Get
  show ?thesis
  proof (cases "next_item Q t")
    case None
    then show ?thesis using Get assms(2) by (simp add: watch_step_def)
  next
    case (Some a)
    obtain u q where a: "a = (u, q)" by (cases a)
    have "length (wa_hands t) < repair_workers" "u \<notin> wq_working Q (wa_queue t)"
      "wq_working Q q = insert u (wq_working Q (wa_queue t))"
      using assms(1) Some a by (simp_all add: queue_law_def next_item_def split: if_splits)
    then show ?thesis using Get Some a assms(2) by (simp add: workers_ok_def watch_step_def)
  qed
next
  case (Finish u)
  have "length (remove1 u (wa_hands t)) \<le> length (wa_hands t)" by (simp add: length_remove1)
  then show ?thesis
    using Finish assms(2)
    by (auto simp: workers_ok_def watch_step_def put_back_sets [OF assms(1)] case_prod_beta)
next
  case (Tick f g)
  then show ?thesis using assms by (simp add: workers_ok_def watch_step_def)
qed

lemma workers_apart:
  "queue_law Q \<Longrightarrow> workers_ok Q t \<Longrightarrow> workers_ok Q (watch_run S Q ops t)"
  by (induction ops arbitrary: t) (simp_all add: workers_step)

subsection \<open>A concrete queue\<close>

text \<open>The items to hand out, in order, and those being worked on.\<close>

definition list_queue :: "(string list \<times> string list) work_queue" where
  "list_queue =
     \<lparr>wq_add = \<lambda>v (d, p). (List.insert v d, p),
      wq_get = \<lambda>(d, p). map_option (\<lambda>v. (v, removeAll v d, v # p)) (find (\<lambda>v. v \<notin> set p) d),
      wq_done = \<lambda>v (d, p). (d, removeAll v p),
      wq_add_after = \<lambda>v _ (d, p). (List.insert v d, p), wq_add_limited = \<lambda>v (d, p). (List.insert v d, p),
      wq_forget = \<lambda>_ q. q, wq_waiting = \<lambda>(d, _). set d, wq_working = \<lambda>(_, p). set p\<rparr>"

lemma list_queue_law: "queue_law list_queue"
  by (auto simp: queue_law_def adds_def list_queue_def find_Some_iff)

definition idle_watch :: "(notice list, string list \<times> string list) watch" where
  "idle_watch = \<lparr>wa_server = demo_memory, wa_queue = ([], []), wa_hands = []\<rparr>"

definition ended_pod :: "int pod" where
  "ended_pod = demo_pod\<lparr>pod_meta := (pod_meta demo_pod)\<lparr>om_deletion := Some 3\<rparr>\<rparr>"

lemma ended_told: "tells_end (demo_server None []) ''d1'' (PodAdded ended_pod)"
proof -
  have spec: "volume_id demo_spec = ''d1''" "node_name demo_spec = ''n1''" by (simp_all add: demo_spec_def)
  have "pod_annotation ended_pod label_volume = ''d1''" "pod_annotation ended_pod label_node = ''n1''"
    using built_annotations(1,2) [of demo_codec demo_config demo_spec "''h''" "''sec''"]
    by (simp_all add: ended_pod_def demo_pod_def pod_annotation_def spec)
  then show ?thesis by (simp add: tells_end_def demo_server_def Let_def) (simp add: ended_pod_def)
qed

theorem watch_misses_nothing_witness:
  "''d1'' \<in> waiting list_queue
     (watch_run (demo_server None []) list_queue [Event (PodAdded ended_pod), Event (PodDeleted None)] idle_watch)"
proof -
  have named: "''d1'' \<noteq> []" by simp
  have "calls_for_repair (demo_server None []) ''d1'' (Event (PodAdded ended_pod)) idle_watch"
    by (simp add: calls_for_repair_def ended_told)
  then show ?thesis
    by (rule watch_misses_nothing [OF list_queue_law named]) simp
qed

end
