(* ===== verification/Recovery_Trace.thy ===== *)
theory Recovery_Trace
  imports Recovery Manager_Trace
begin

text \<open>
  What the recovery may delete, seen from outside: \<open>recoverVolume\<close> over a world that records the calls to
  the API, the clock and the readings of the host (the mount table, kubelet's directories). The
  theorem is about the trace: a mount pod is only asked to stop after readings that show its volume
  to be neither staged, nor bound, nor being staged or unstaged.
\<close>

subsection \<open>The watched server\<close>

definition quiet :: "('w, 'a) state \<Rightarrow> ('w \<times> 'q event list, 'a) state" where
  "quiet m = State (\<lambda>(w, l). case run_state m w of (x, w') \<Rightarrow> (x, (w', l)))"

definition watched_host :: "'w host \<Rightarrow> ('w \<times> 'q event list) host" where
  "watched_host H =
     \<lparr>h_is_mount_point = \<lambda>p. quiet (h_is_mount_point H p), h_umount = \<lambda>p. quiet (h_umount H p),
      h_mount = \<lambda>s t os. quiet (h_mount H s t os), h_detach = \<lambda>p. quiet (h_detach H p),
      h_bind = \<lambda>s t. quiet (h_bind H s t), h_remount_ro = \<lambda>p. quiet (h_remount_ro H p),
      h_mount_info = noting ReadTable (h_mount_info H),
      h_mkdir_all = \<lambda>p m. quiet (h_mkdir_all H p m), h_mkdir = \<lambda>p m. quiet (h_mkdir H p m),
      h_chmod = \<lambda>p m. quiet (h_chmod H p m), h_remove = \<lambda>p. quiet (h_remove H p),
      h_remove_all = \<lambda>p. quiet (h_remove_all H p),
      h_stat = \<lambda>p. noting (Stat p) (h_stat H p), h_read_dir = \<lambda>p. noting (ReadDir p) (h_read_dir H p),
      h_statfs = \<lambda>p. quiet (h_statfs H p)\<rparr>"

definition watched_kube :: "'w kube \<Rightarrow> ('w \<times> 'q event list) kube" where
  "watched_kube K =
     \<lparr>kb_get_claim = \<lambda>ns n. quiet (kb_get_claim K ns n), kb_list_volumes = quiet (kb_list_volumes K),
      kb_class_parameters = \<lambda>c. quiet (kb_class_parameters K c)\<rparr>"

definition watched_server :: "('w, 'q) node_server \<Rightarrow> ('w \<times> 'q event list, 'q) node_server" where
  "watched_server S =
     \<lparr>ns_node = ns_node S, ns_host = watched_host (ns_host S), ns_cluster = watched (ns_cluster S),
      ns_codec = ns_codec S, ns_config = ns_config S, ns_kube = map_option watched_kube (ns_kube S),
      ns_record = map_option (\<lambda>f ob n. quiet (f ob n)) (ns_record S), ns_credentials = ns_credentials S,
      ns_cache = ns_cache S, ns_now = noting Clock (ns_now S), ns_parsers = ns_parsers S,
      ns_bool_order = ns_bool_order S, ns_quantity_text = ns_quantity_text S\<rparr>"

abbreviation watched_cluster :: "('w, 'q) node_server \<Rightarrow> ('w \<times> 'q event list, 'q) cluster" where
  "watched_cluster S \<equiv> node_cluster (watched_server S)"

text \<open>The trace of a run from what the plugin has in memory and the world \<open>w\<close>.\<close>

definition server_trace ::
  "(('w \<times> 'q event list) server, 'a) state \<Rightarrow> ('w \<times> 'q event list) server \<Rightarrow> 'w \<Rightarrow> 'q event list" where
  "server_trace m s w =
     snd (node_world (sv_node (snd (run_state m (s\<lparr>sv_node := (sv_node s)\<lparr>node_world := (w, [])\<rparr>\<rparr>)))))"

subsection \<open>Rules\<close>

fun graceful :: "'q event \<Rightarrow> bool" where
  "graceful (DeletedPod _ _ None _) = True"
| "graceful _ = False"

definition closed_for :: "('q event \<Rightarrow> bool) \<Rightarrow> ('q event list \<Rightarrow> bool) \<Rightarrow> bool" where
  "closed_for A J \<longleftrightarrow> (\<forall>l e. A e \<longrightarrow> J l \<longrightarrow> J (l @ [e]))"

lemma closed_forD: "closed_for A J \<Longrightarrow> A e \<Longrightarrow> J l \<Longrightarrow> J (l @ [e])"
  by (simp add: closed_for_def)

text \<open>Programs of the Manager: what keeps an assertion that every call they may make keeps.\<close>

lemma kept_noted: "closed_for A J \<Longrightarrow> (\<And>x. A (f x)) \<Longrightarrow> kept (\<lambda>l b. J l) (on_world (noting f m))"
  unfolding kept_def by (rule spec_noting) (auto dest: closed_forD)

lemma kept_quiet: "kept J (on_world (quiet m))"
  by (auto simp: kept_def spec_t_def triple_def holds_def on_world_def quiet_def split: prod.splits)

lemma on_world_bind: "on_world (State_Monad.bind m f) = State_Monad.bind (on_world m) (\<lambda>x. on_world (f x))"
  by (rule state.expand) (auto simp: on_world_def fun_eq_iff split: prod.splits)

lemma on_world_return: "on_world (State_Monad.return x) = State_Monad.return x"
  by (rule state.expand) (auto simp: on_world_def fun_eq_iff)

lemma on_world_sum:
  "on_world (case r of Inl e \<Rightarrow> f e | Inr x \<Rightarrow> g x) =
    (case r of Inl e \<Rightarrow> on_world (f e) | Inr x \<Rightarrow> on_world (g x))"
  by (cases r) simp_all

lemmas on_world_simps = on_world_bind on_world_return on_world_sum attempt_def

lemma watched_fields:
  "k_get_pod (watched_cluster S) ns n = noting (GotPod n) (k_get_pod (ns_cluster S) ns n)"
  "k_create_pod (watched_cluster S) ns p = noting (CreatedPod p) (k_create_pod (ns_cluster S) ns p)"
  "k_delete_pod (watched_cluster S) ns n uid g = noting (DeletedPod n uid g) (k_delete_pod (ns_cluster S) ns n uid g)"
  "k_patch_finalizers (watched_cluster S) ns n a b =
     noting (\<lambda>_. PatchedFinalizers n a b) (k_patch_finalizers (ns_cluster S) ns n a b)"
  "k_get_secret (watched_cluster S) ns n = noting (\<lambda>_. Other) (k_get_secret (ns_cluster S) ns n)"
  "k_list_secrets (watched_cluster S) ns sel = noting (\<lambda>_. Other) (k_list_secrets (ns_cluster S) ns sel)"
  "k_create_secret (watched_cluster S) ns x = noting (\<lambda>_. CreatedSecret x) (k_create_secret (ns_cluster S) ns x)"
  "k_delete_secret (watched_cluster S) ns n = noting (\<lambda>_. DeletedSecret n) (k_delete_secret (ns_cluster S) ns n)"
  "k_patch_owner (watched_cluster S) ns n ow = noting (\<lambda>_. Other) (k_patch_owner (ns_cluster S) ns n ow)"
  "k_clock (watched_cluster S) = noting Clock (k_clock (ns_cluster S))"
  "k_rand (watched_cluster S) = noting (\<lambda>_. Other) (k_rand (ns_cluster S))"
  "k_suffix (watched_cluster S) = noting (\<lambda>_. Other) (k_suffix (ns_cluster S))"
  "k_http_status (watched_cluster S) u = noting (\<lambda>_. Other) (k_http_status (ns_cluster S) u)"
  by (simp_all add: node_cluster_def watched_server_def watched_def)

text \<open>The calls that are not a graceful deletion.\<close>

definition allows :: "('q event \<Rightarrow> bool) \<Rightarrow> bool" where
  "allows A \<longleftrightarrow> (\<forall>e. \<not> graceful e \<longrightarrow> A e)"

lemma allowsD: "allows A \<Longrightarrow> \<not> graceful e \<Longrightarrow> A e"
  by (simp add: allows_def)

lemma kept_call:
  "closed_for A J \<Longrightarrow> allows A \<Longrightarrow> (\<And>x. \<not> graceful (f x)) \<Longrightarrow>
   kept (\<lambda>l b. J l) (on_world (noting f m))"
  by (rule kept_noted, assumption) (rule allowsD)

lemma kept_option:
  "(r = None \<Longrightarrow> kept J m) \<Longrightarrow> (\<And>x. r = Some x \<Longrightarrow> kept J (f x)) \<Longrightarrow>
   kept J (case r of None \<Rightarrow> m | Some x \<Rightarrow> f x)"
  by (cases r) simp_all

lemma kept_sum:
  "(\<And>x. r = Inl x \<Longrightarrow> kept J (f x)) \<Longrightarrow> (\<And>x. r = Inr x \<Longrightarrow> kept J (g x)) \<Longrightarrow>
   kept J (case r of Inl x \<Rightarrow> f x | Inr x \<Rightarrow> g x)"
  by (cases r) simp_all

lemmas kept_intros = kept_bind kept_return kept_if kept_option kept_sum kept_quiet kept_backoffs kept_update

lemma keeps_finished:
  "closed_for A J \<Longrightarrow> allows A \<Longrightarrow> kept (\<lambda>l b. J l) (finished (watched_cluster S) p)"
  unfolding finished_def watched_fields by (intro kept_intros kept_call) simp_all

lemma keeps_own_secret:
  "closed_for A J \<Longrightarrow> allows A \<Longrightarrow> kept (\<lambda>l b. J l) (own_secret (watched_cluster S) cfg p)"
  unfolding own_secret_def watched_fields Let_def
  by (auto split: sum.split api_failure.split intro!: kept_intros kept_call)

lemma keeps_delete_secrets:
  "closed_for A J \<Longrightarrow> allows A \<Longrightarrow>
   kept (\<lambda>l b. J l) (delete_secrets (watched_cluster S) C cfg n v only)"
proof -
  assume J: "closed_for A J" "allows A"
  have one: "kept (\<lambda>l b. J l) (delete_secret (watched_cluster S) cfg n)" for n
    unfolding delete_secret_def watched_fields using J by (intro kept_intros kept_call) simp_all
  have loop: "kept (\<lambda>l b. J l) (delete_loop (watched_cluster S) cfg skip ss)" for skip ss
    by (induction ss) (auto intro!: kept_intros one)
  show ?thesis
    unfolding delete_secrets_def watched_fields using J by (intro kept_intros kept_call loop) simp_all
qed

lemma keeps_delete_secret:
  "closed_for A J \<Longrightarrow> allows A \<Longrightarrow>
   kept (\<lambda>l b. J l) (delete_secret (watched_cluster S) cfg n)"
  unfolding delete_secret_def watched_fields by (intro kept_intros kept_call) simp_all

lemma keeps_count_exit:
  "closed_for A J \<Longrightarrow> allows A \<Longrightarrow>
   kept (\<lambda>l b. J l) (count_exit (watched_cluster S) cfg v h st)"
  unfolding count_exit_def watched_fields Let_def by (intro kept_intros kept_call) simp_all

lemma keeps_release:
  "closed_for A J \<Longrightarrow> allows A \<Longrightarrow> kept (\<lambda>l b. J l) (release (watched_cluster S) cfg p)"
  unfolding release_def remove_finalizer_def watched_fields Let_def
  by (auto split: option.split sum.split intro!: kept_intros kept_call)

lemma keeps_prepare:
  "kept J (on_world (prepare (watched_host H) cfg s))"
proof -
  have state: "kept J (on_world (mount_state (watched_host H) p))" for p
    unfolding mount_state_def watched_host_def by (simp add: on_world_simps) (intro kept_intros)
  have unmount: "kept J (on_world (unmount_or_detach (watched_host H) p))" for p
    unfolding unmount_or_detach_def mounter_unmount_def mounter_detach_def watched_host_def
    by (auto simp: on_world_simps intro!: kept_intros)
  have loop: "kept J (on_world (unmount_all_loop (watched_host H) p n))" for p n
  proof (induction n)
    case (Suc n)
    then show ?case
      by (auto simp: on_world_simps intro!: kept_intros state unmount split: prod.split)
  qed (auto simp: on_world_simps intro!: kept_intros state)
  have files: "h_mkdir_all (watched_host H) p m = quiet (h_mkdir_all H p m)"
    "h_mkdir (watched_host H) p m = quiet (h_mkdir H p m)"
    "h_chmod (watched_host H) p m = quiet (h_chmod H p m)"
    "h_remove_all (watched_host H) p = quiet (h_remove_all H p)" for p m
    by (simp_all add: watched_host_def)
  show ?thesis
    unfolding prepare_def unmount_all_def Let_def files
    by (auto simp: on_world_simps intro!: kept_intros loop)
qed

lemma keeps_hook:
  "k_prepare (watched_cluster S) = Some f \<Longrightarrow> kept J (on_world (f s))"
  by (auto simp: node_cluster_def watched_server_def on_world_simps intro!: kept_intros keeps_prepare)

lemma keeps_create_pod:
  "closed_for A J \<Longrightarrow> allows A \<Longrightarrow> kept (\<lambda>l b. J l) (create_pod (watched_cluster S) C cfg s hash)"
  unfolding create_pod_def create_objects_def Let_def watched_fields
  by (auto split: sum.split option.split intro!: kept_intros kept_call keeps_hook keeps_delete_secrets
      keeps_delete_secret keeps_own_secret)

lemma keeps_ensure_existing:
  assumes "closed_for A J" and "allows A"
  shows "kept (\<lambda>l b. J l) (ensure_existing (watched_cluster S) cfg s hash p)"
proof -
  have switch: "kept (\<lambda>l b. J l) (ensure_switch (watched_cluster S) cfg st b d p)" for st b d
    unfolding ensure_switch_def replace_finished_def watched_fields
    by (auto intro!: kept_intros kept_call keeps_release keeps_own_secret assms)
  show ?thesis
    unfolding ensure_existing_def Let_def
    by (intro kept_intros switch keeps_finished [OF assms] keeps_count_exit [OF assms])
qed

lemma keeps_ensure:
  assumes "closed_for A J" and "allows A"
  shows "kept (\<lambda>l b. J l) (ensure (watched_cluster S) C cfg s)"
proof -
  have new: "kept (\<lambda>l b. J l) (ensure_new (watched_cluster S) C cfg s hash)" for hash
    unfolding ensure_new_def watched_fields
    by (auto intro!: kept_intros kept_call keeps_create_pod assms)
  show ?thesis
    unfolding ensure_def Let_def watched_fields
    by (auto split: sum.split option.split
        intro!: kept_intros kept_call new keeps_ensure_existing assms)
qed

lemma keeps_spec_of:
  "closed_for A J \<Longrightarrow> allows A \<Longrightarrow> kept (\<lambda>l b. J l) (spec_of (watched_cluster S) C cfg st cs)"
  unfolding spec_of_def watched_fields
  by (auto split: option.split intro!: kept_intros kept_call)

lemma keeps_ready:
  "closed_for A J \<Longrightarrow> allows A \<Longrightarrow> kept (\<lambda>l b. J l) (ready (watched_cluster S) p)"
  unfolding ready_def watched_fields Let_def
  by (auto split: option.split sum.split intro!: kept_intros kept_call)

lemma keeps_get_state:
  "closed_for A J \<Longrightarrow> allows A \<Longrightarrow> kept (\<lambda>l b. J l) (get_state (watched_cluster S) C cfg n v)"
  unfolding get_state_def watched_fields Let_def by (intro kept_intros kept_call) simp_all

text \<open>A deletion makes every kind of call.\<close>

lemma allows_all: "allows (\<lambda>_. True)"
  by (simp add: allows_def)

lemma keeps_delete:
  assumes J: "closed_for (\<lambda>_. True) J"
  shows "kept (\<lambda>l b. J l) (delete_pod (watched_cluster S) C cfg n v)"
proof -
  note c = J allows_all
  have running: "kept (\<lambda>l b. J l) (delete_running (watched_cluster S) cfg st p)" for st p
    unfolding delete_running_def watched_fields by (auto intro!: kept_intros kept_noted [OF J])
  have ended: "kept (\<lambda>l b. J l) (delete_finished (watched_cluster S) C cfg n v st p)" for st p
    unfolding delete_finished_def
    by (auto split: option.split intro!: kept_intros keeps_release keeps_delete_secrets c)
  show ?thesis
    unfolding delete_pod_def
    by (auto split: option.split
        intro!: kept_intros keeps_get_state keeps_delete_secrets keeps_finished running ended c)
qed

subsection \<open>Programs of the server\<close>

text \<open>Assertions are about the trace and the marks of the stages under way.\<close>

type_synonym marks = "string \<rightharpoonup> int"

definition sholds ::
  "('q event list \<Rightarrow> marks \<Rightarrow> bool) \<Rightarrow> ('w \<times> 'q event list) server \<Rightarrow> bool" where
  "sholds P s \<longleftrightarrow> P (snd (node_world (sv_node s))) (sv_busy s)"

definition spec_s ::
  "('q event list \<Rightarrow> marks \<Rightarrow> bool) \<Rightarrow> (('w \<times> 'q event list) server, 'a) state \<Rightarrow>
   ('a \<Rightarrow> 'q event list \<Rightarrow> marks \<Rightarrow> bool) \<Rightarrow> bool" where
  "spec_s P m Q \<longleftrightarrow> triple (sholds P) m (\<lambda>x. sholds (Q x))"

definition kept_s ::
  "('q event list \<Rightarrow> marks \<Rightarrow> bool) \<Rightarrow> (('w \<times> 'q event list) server, 'a) state \<Rightarrow> bool" where
  "kept_s J m \<longleftrightarrow> spec_s J m (\<lambda>_. J)"

lemma s_bind: "spec_s P m R \<Longrightarrow> (\<And>x. spec_s (R x) (f x) Q) \<Longrightarrow> spec_s P (State_Monad.bind m f) Q"
  unfolding spec_s_def by (rule triple_bind)

lemma s_return: "(\<And>l b. P l b \<Longrightarrow> Q x l b) \<Longrightarrow> spec_s P (State_Monad.return x) Q"
  unfolding spec_s_def by (rule triple_return) (simp add: sholds_def)

lemma s_weaken:
  "spec_s P m Q \<Longrightarrow> (\<And>l b. P' l b \<Longrightarrow> P l b) \<Longrightarrow> (\<And>x l b. Q x l b \<Longrightarrow> Q' x l b) \<Longrightarrow> spec_s P' m Q'"
  unfolding spec_s_def by (erule triple_weaken) (auto simp: sholds_def)

lemma s_pre: "(\<And>l b. P l b \<Longrightarrow> c) \<Longrightarrow> (c \<Longrightarrow> spec_s P m Q) \<Longrightarrow> spec_s P m Q"
  by (fastforce simp: spec_s_def triple_def sholds_def)

lemma s_conj:
  "spec_s P m Q \<Longrightarrow> spec_s P' m Q' \<Longrightarrow>
   spec_s (\<lambda>l b. P l b \<and> P' l b) m (\<lambda>x l b. Q x l b \<and> Q' x l b)"
  by (fastforce simp: spec_s_def triple_def sholds_def)

lemma kept_s_conj:
  "kept_s P m \<Longrightarrow> kept_s P' m \<Longrightarrow> kept_s (\<lambda>l b. P l b \<and> P' l b) m"
  unfolding kept_s_def by (rule s_conj)

lemma kept_s_marks: "kept_s (\<lambda>l b. P b) (on_node m)"
  by (auto simp: kept_s_def spec_s_def triple_def sholds_def on_node_def split: prod.splits)

lemma s_node:
  assumes "spec_t (\<lambda>l _. P l) m (\<lambda>x l _. Q x l)"
  shows "spec_s (\<lambda>l b. P l) (on_node m) (\<lambda>x l b. Q x l)"
  using assms
  by (fastforce simp: spec_s_def spec_t_def triple_def sholds_def holds_def on_node_def split: prod.splits)

lemma kept_s_node: "kept (\<lambda>l _. J l) m \<Longrightarrow> kept_s (\<lambda>l b. J l) (on_node m)"
  unfolding kept_s_def kept_def by (rule s_node)

lemma kept_s_bind: "kept_s J m \<Longrightarrow> (\<And>x. kept_s J (f x)) \<Longrightarrow> kept_s J (State_Monad.bind m f)"
  unfolding kept_s_def by (rule s_bind)

lemma kept_s_return: "kept_s J (State_Monad.return x)"
  unfolding kept_s_def by (rule s_return)

lemma kept_s_if: "(c \<Longrightarrow> kept_s J m) \<Longrightarrow> (\<not> c \<Longrightarrow> kept_s J n) \<Longrightarrow> kept_s J (if c then m else n)"
  by simp

lemma kept_s_option:
  "(r = None \<Longrightarrow> kept_s J m) \<Longrightarrow> (\<And>x. r = Some x \<Longrightarrow> kept_s J (f x)) \<Longrightarrow>
   kept_s J (case r of None \<Rightarrow> m | Some x \<Rightarrow> f x)"
  by (cases r) simp_all

lemma kept_s_sum:
  "(\<And>x. r = Inl x \<Longrightarrow> kept_s J (f x)) \<Longrightarrow> (\<And>x. r = Inr x \<Longrightarrow> kept_s J (g x)) \<Longrightarrow>
   kept_s J (case r of Inl x \<Rightarrow> f x | Inr x \<Rightarrow> g x)"
  by (cases r) simp_all

lemma kept_s_read: "kept_s J (read_server f)"
  by (simp add: kept_s_def spec_s_def triple_def)

lemma kept_s_sets: "kept_s J (set_gave_up f)" "kept_s J (set_reported h)"
  by (simp_all add: kept_s_def spec_s_def triple_def sholds_def)

lemma kept_s_quiet: "kept_s (\<lambda>l b. J l) (on_host (quiet m))"
  unfolding on_host_def by (rule kept_s_node) (rule kept_quiet)

lemma kept_s_call:
  "closed_for A J \<Longrightarrow> (\<And>x. A (f x)) \<Longrightarrow> kept_s (\<lambda>l b. J l) (on_host (noting f m))"
  unfolding on_host_def by (rule kept_s_node) (rule kept_noted)

lemmas kept_s_intros = kept_s_bind kept_s_return kept_s_if kept_s_option kept_s_sum kept_s_read kept_s_sets
  kept_s_quiet

subsection \<open>What the parts of a repair keep\<close>

lemma watched_simps:
  "ns_kube (watched_server S) = map_option watched_kube (ns_kube S)"
  "ns_record (watched_server S) = map_option (\<lambda>f ob n. quiet (f ob n)) (ns_record S)"
  "ns_now (watched_server S) = noting Clock (ns_now S)"
  "ns_host (watched_server S) = watched_host (ns_host S)"
  "k_clock (ns_cluster (watched_server S)) = noting Clock (k_clock (ns_cluster S))"
  "ns_codec (watched_server S) = ns_codec S" "ns_config (watched_server S) = ns_config S"
  "ns_node (watched_server S) = ns_node S" "ns_cache (watched_server S) = ns_cache S"
  "ns_quantity_text (watched_server S) = ns_quantity_text S"
  "kb_get_claim (watched_kube K) ns n = quiet (kb_get_claim K ns n)"
  "h_mount_info (watched_host H) = noting ReadTable (h_mount_info H)"
  "h_stat (watched_host H) p = noting (Stat p) (h_stat H p)"
  "h_read_dir (watched_host H) p = noting (ReadDir p) (h_read_dir H p)"
  by (simp_all add: watched_server_def watched_kube_def watched_host_def watched_def)

lemma keeps_emit_exit: "kept_s (\<lambda>l b. J l) (emit_exit (watched_server S) st code)"
  unfolding emit_exit_def claim_ref_def record_event_def watched_simps
  by (auto simp: watched_simps split: option.split intro!: kept_s_intros)

lemma keeps_reports:
  "kept_s (\<lambda>l b. J l) (report_exit (watched_server S) st)"
  "kept_s (\<lambda>l b. J l) (report_exit_early (watched_server S) st)"
  unfolding report_exit_def report_exit_early_def
  by (auto split: option.split intro!: kept_s_intros keeps_emit_exit)


lemma kept_attempt: "kept J m \<Longrightarrow> (\<And>x. kept J (k x)) \<Longrightarrow> kept J (attempt m f k)"
  unfolding attempt_def by (intro kept_bind kept_sum kept_return)

lemma on_world_attempt: "on_world (attempt m f k) = attempt (on_world m) f (\<lambda>x. on_world (k x))"
  by (rule state.expand) (auto simp: attempt_def on_world_def fun_eq_iff split: prod.splits sum.splits)

lemma keeps_state: "kept J (on_world (mount_state (watched_host H) p))"
  unfolding mount_state_def watched_host_def by (auto simp: on_world_simps intro!: kept_intros)

lemma keeps_unmount_or_detach: "kept J (on_world (unmount_or_detach (watched_host H) p))"
  unfolding unmount_or_detach_def mounter_unmount_def mounter_detach_def watched_host_def
  by (auto simp: on_world_simps intro!: kept_intros)

lemma keeps_rebind:
  assumes "closed_for A J" and "allows A"
  shows "kept (\<lambda>l b. J l) (on_world (rebind (watched_host H) cfg infos v staging))"
proof -
  have table: "kept (\<lambda>l b. J l) (on_world (h_mount_info (watched_host H)))"
    unfolding watched_simps by (rule kept_call [OF assms]) simp
  have loop: "kept (\<lambda>l b. J l) (on_world (unstack_loop (watched_host H) p n))" for p n
  proof (induction n)
    case (Suc n)
    then show ?case
      by (auto simp: on_world_attempt on_world_return split: prod.split
          intro!: kept_attempt kept_intros table keeps_state keeps_unmount_or_detach)
  qed (simp add: on_world_return kept_return)
  have stack: "kept (\<lambda>l b. J l) (on_world (rebind_mount (watched_host H) s p ro))" for s p ro
    unfolding rebind_mount_def watched_host_def
    by (auto simp: on_world_attempt on_world_return intro!: kept_attempt kept_intros)
  have "kept (\<lambda>l b. J l) (on_world (rebind_loop (watched_host H) infos staging ts errs))" for ts errs
  proof (induction ts arbitrary: errs)
    case (Cons t ts)
    have "on_world (if c then unstack (watched_host H) p else State_Monad.return (Inr ())) =
        (if c then on_world (unstack (watched_host H) p) else State_Monad.return (Inr ()))" for c p
      by (simp add: on_world_return)
    then show ?case
      using Cons
      by (auto simp: on_world_bind on_world_sum on_world_return unstack_def intro!: kept_intros loop stack)
  qed (simp add: on_world_return kept_return)
  then show ?thesis
    unfolding rebind_def
    by (auto simp: on_world_bind on_world_return split: option.split intro!: kept_intros)
qed

subsection \<open>What shows that a volume is not in use\<close>

text \<open>
  The readings of \<open>kubeletStaged\<close> that say no: no staging path, or a driver directory that can be read
  and no \<open>vol_data.json\<close> next to the path.
\<close>

definition unstaged :: "string \<Rightarrow> 'q event list \<Rightarrow> bool" where
  "unstaged staging l \<longleftrightarrow> staging = [] \<or>
     (\<exists>r. (is_ok r \<or> r = Inl Eof) \<and> ReadDir (path_dir (path_dir staging)) r \<in> set l) \<and>
     Stat (path_join [path_dir staging, vol_data_file]) (Inl Enoent) \<in> set l"

definition not_busy :: "string \<Rightarrow> marks \<Rightarrow> 'q event list \<Rightarrow> bool" where
  "not_busy volume B l \<longleftrightarrow>
     (case B volume of
        None \<Rightarrow> True
      | Some t \<Rightarrow> \<exists>now. Clock now \<in> set l \<and> busy_for \<le> time_sub now t)"

definition bound_nowhere :: "'q config \<Rightarrow> string \<Rightarrow> 'q event list \<Rightarrow> bool" where
  "bound_nowhere cfg volume l \<longleftrightarrow>
     (\<exists>infos. ReadTable (Inr infos) \<in> set l \<and> binds (is_target cfg) infos volume = [])"

definition unused :: "('w, 'q) node_server \<Rightarrow> string \<Rightarrow> marks \<Rightarrow> 'q event list \<Rightarrow> bool" where
  "unused S volume B l \<longleftrightarrow>
     (\<exists>p. GotPod (mount_pod_name (ns_codec S) (ns_node S) volume) (Inr p) \<in> set l \<and>
        unstaged (pod_annotation p annotation_staging_path) l) \<and>
     bound_nowhere (ns_config S) volume l \<and> not_busy volume B l"

definition stops_only_unused :: "('w, 'q) node_server \<Rightarrow> string \<Rightarrow> bool \<Rightarrow> marks \<Rightarrow> 'q event list \<Rightarrow> bool" where
  "stops_only_unused S volume staged B l \<longleftrightarrow>
     list_all (\<lambda>i. graceful (l ! i) \<longrightarrow> \<not> staged \<and> unused S volume B (take i l)) [0..<length l]"

definition stops_none :: "'q event list \<Rightarrow> bool" where
  "stops_none l \<longleftrightarrow> list_all (\<lambda>e. \<not> graceful e) l"

lemma not_busyI: "B v = Some t \<Longrightarrow> Clock now \<in> set l \<Longrightarrow> busy_for \<le> time_sub now t \<Longrightarrow> not_busy v B l"
  by (auto simp: not_busy_def)

lemma unstaged_append: "unstaged p l \<Longrightarrow> unstaged p (l @ k)"
  by (auto simp: unstaged_def)

lemma not_busy_append: "not_busy v B l \<Longrightarrow> not_busy v B (l @ k)"
  by (auto simp: not_busy_def split: option.splits)

lemma bound_nowhere_append: "bound_nowhere c v l \<Longrightarrow> bound_nowhere c v (l @ k)"
  by (auto simp: bound_nowhere_def)

lemma unused_append: "unused S v B l \<Longrightarrow> unused S v B (l @ k)"
  unfolding unused_def by (auto intro: unstaged_append not_busy_append bound_nowhere_append)

lemma stops_snoc:
  "stops_only_unused S v staged B l \<Longrightarrow> graceful e \<longrightarrow> \<not> staged \<and> unused S v B l \<Longrightarrow>
   stops_only_unused S v staged B (l @ [e])"
  by (auto simp: stops_only_unused_def list_all_iff nth_append)

lemma stops_none_only: "stops_none l \<Longrightarrow> stops_only_unused S v staged B l"
  by (auto simp: stops_only_unused_def stops_none_def list_all_iff list_all_length)

lemma closed_stops_none: "closed_for (\<lambda>e. \<not> graceful e) stops_none" "allows (\<lambda>e. \<not> graceful e)"
  by (simp_all add: closed_for_def stops_none_def allows_def)

definition may_stop :: "('w, 'q) node_server \<Rightarrow> string \<Rightarrow> bool \<Rightarrow> marks \<Rightarrow> 'q event list \<Rightarrow> bool" where
  "may_stop S v staged B l \<longleftrightarrow> stops_only_unused S v staged B l \<and> \<not> staged \<and> unused S v B l"

lemma closed_may_stop: "closed_for (\<lambda>_. True) (may_stop S v staged B)"
  by (auto simp: closed_for_def may_stop_def intro: stops_snoc unused_append)

text \<open>The readings themselves.\<close>

lemma s_noting:
  "(\<And>x l b. P l b \<Longrightarrow> Q x (l @ [f x]) b) \<Longrightarrow> spec_s P (on_host (noting f m)) Q"
  by (auto simp: spec_s_def triple_def sholds_def on_host_def on_node_def on_world_def noting_def
      split: prod.splits)

lemma s_read: "(\<And>l b s. P l b \<Longrightarrow> sv_busy s = b \<Longrightarrow> Q (f s) l b) \<Longrightarrow> spec_s P (read_server f) Q"
  by (auto simp: spec_s_def triple_def sholds_def)

lemma is_busy_spec:
  assumes "closed_for A J" and "allows A"
  shows "spec_s (\<lambda>l b. J l \<and> b = B) (is_busy (watched_server S) v)
    (\<lambda>busy l b. J l \<and> b = B \<and> (\<not> busy \<longrightarrow> not_busy v B l))"
  unfolding is_busy_def watched_simps
proof (rule s_bind [OF s_read [where Q = "\<lambda>x l b. J l \<and> b = B \<and> x = B v"]])
  fix x
  show "spec_s (\<lambda>l b. J l \<and> b = B \<and> x = B v)
      (case x of None \<Rightarrow> State_Monad.return False
       | Some t \<Rightarrow> do {
           now \<leftarrow> on_host (noting Clock (ns_now S));
           State_Monad.return (time_sub now t < busy_for)
         })
      (\<lambda>busy l b. J l \<and> b = B \<and> (\<not> busy \<longrightarrow> not_busy v B l))"
  proof (cases x)
    case None
    then show ?thesis by (auto simp: not_busy_def intro!: s_return split: option.split)
  next
    case (Some t)
    have "spec_s (\<lambda>l b. J l \<and> b = B \<and> x = B v) (on_host (noting Clock (ns_now S)))
        (\<lambda>now l b. J l \<and> b = B \<and> x = B v \<and> Clock now \<in> set l)"
      using closed_forD [OF assms(1) allowsD [OF assms(2)]] by (intro s_noting) auto
    then show ?thesis
      unfolding Some option.case
      by (rule s_bind) (auto simp: not_less intro!: s_return intro: not_busyI [OF sym])
  qed
qed auto

lemma kept_s_flag: "kept_s J (State (\<lambda>s. ((), s\<lparr>sv_dir_unreadable := f s\<rparr>)))"
  by (simp add: kept_s_def spec_s_def triple_def sholds_def)

lemma kubelet_staged_spec:
  assumes "closed_for A J" and "allows A"
  shows "spec_s (\<lambda>l b. J l) (kubelet_staged (watched_server S) staging)
    (\<lambda>held l b. J l \<and> (\<not> held \<longrightarrow> unstaged staging l))"
proof -
  let ?R = "\<lambda>readable l (b :: marks). J l \<and> (readable \<longrightarrow>
    (\<exists>r. (is_ok r \<or> r = Inl Eof) \<and> ReadDir (path_dir (path_dir staging)) r \<in> set l))"
  have J: "J (l @ [e])" if "J l" "\<not> graceful e" for l e
    using closed_forD [OF assms(1) allowsD [OF assms(2) that(2)] that(1)] .
  have dir: "spec_s (\<lambda>l b. J l) (driver_dir_readable (watched_server S) (path_dir (path_dir staging))) ?R"
    unfolding driver_dir_readable_def watched_simps Let_def
  proof (rule s_bind [OF s_noting [where Q = "\<lambda>r l b. J l \<and> ReadDir (path_dir (path_dir staging)) r \<in> set l"]])
    fix r :: "sys_error + unit"
    show "spec_s (\<lambda>l b. J l \<and> ReadDir (path_dir (path_dir staging)) r \<in> set l)
        (do {
           _ \<leftarrow> State (\<lambda>s. ((), s\<lparr>sv_dir_unreadable := \<not> (is_ok r \<or> r = Inl Eof)\<rparr>));
           State_Monad.return (is_ok r \<or> r = Inl Eof)
         }) ?R"
      by (rule s_bind [OF kept_s_flag [unfolded kept_s_def]]) (auto intro!: s_return)
  qed (auto intro: J)
  let ?P = "\<lambda>l (b :: marks). J l \<and>
    (\<exists>r. (is_ok r \<or> r = Inl Eof) \<and> ReadDir (path_dir (path_dir staging)) r \<in> set l)"
  have stat: "spec_s ?P (on_host (noting (Stat p) (h_stat (ns_host S) p)))
      (\<lambda>r l b. ?P l b \<and> Stat p r \<in> set l)" for p
    by (rule s_noting) (auto intro: J)
  have held: "spec_s ?P
      (do {
         r \<leftarrow> on_host (noting (Stat p) (h_stat (ns_host S) p));
         State_Monad.return (r \<noteq> Inl Enoent)
       })
      (\<lambda>held l b. J l \<and> (\<not> held \<longrightarrow> unstaged staging l))"
      if "p = path_join [path_dir staging, vol_data_file]" for p
    by (rule s_bind [OF stat]) (use that in \<open>auto simp: unstaged_def intro!: s_return\<close>)
  show ?thesis
  proof (cases "staging = []")
    case True
    then show ?thesis by (auto simp: kubelet_staged_def unstaged_def intro!: s_return)
  next
    case False
    then show ?thesis
      unfolding kubelet_staged_def watched_simps
      by (auto intro!: s_return s_bind [OF dir] s_weaken [OF held [OF refl]])
  qed
qed

subsection \<open>The repair of a volume\<close>

lemma kept_s_on_node:
  "closed_for A J \<Longrightarrow> allows A \<Longrightarrow> (closed_for A J \<Longrightarrow> allows A \<Longrightarrow> kept (\<lambda>l b. J l) m) \<Longrightarrow>
   kept_s (\<lambda>l b. J l) (on_node m)"
  by (rule kept_s_node) simp

lemma keeps_clock: "closed_for A J \<Longrightarrow> allows A \<Longrightarrow> kept_s (\<lambda>l b. J l) (ns_clock (watched_server S))"
  unfolding ns_clock_def watched_simps by (rule kept_s_call, assumption) (simp add: allowsD)

lemma keeps_gave_up:
  assumes "closed_for A J" and "allows A"
  shows "kept_s (\<lambda>l b. J l) (report_gave_up (watched_server S) st nst e)"
  unfolding report_gave_up_def claim_ref_def record_event_def watched_simps
  by (auto simp: watched_simps split: option.split
      intro!: kept_s_intros keeps_clock [OF assms])

lemma keeps_running:
  assumes "closed_for A J" and "allows A"
  shows "kept_s (\<lambda>l b. J l) (recover_running (watched_server S) infos v st)"
  unfolding recover_running_def watched_simps on_host_def
  by (intro kept_s_intros kept_s_node keeps_ready [OF assms] keeps_rebind [OF assms])

lemma keeps_ended:
  assumes "closed_for A J" and "allows A"
  shows "kept_s (\<lambda>l b. J l) (recover_ended (watched_server S) v st)"
  unfolding recover_ended_def ns_ensure_def watched_simps
  by (auto split: sum.split prod.split option.split manager_error.split
      intro!: kept_s_intros kept_s_node keeps_reports keeps_spec_of [OF assms] keeps_ensure [OF assms]
        keeps_gave_up [OF assms] keeps_clock [OF assms])

lemma keeps_orphan:
  assumes "closed_for (\<lambda>_. True) J"
  shows "kept_s (\<lambda>l b. J l) (delete_orphan (watched_server S) st)"
  unfolding delete_orphan_def ns_delete_def watched_simps
  by (auto split: option.split intro!: kept_s_intros kept_s_node keeps_reports keeps_delete [OF assms])

text \<open>What \<open>Get\<close> answers is what the API did.\<close>

definition read_state :: "('w, 'q) node_server \<Rightarrow> string \<Rightarrow> 'q answer \<Rightarrow> 'q event list \<Rightarrow> bool" where
  "read_state S v a l \<longleftrightarrow>
     (case a of (st, e) \<Rightarrow> e = None \<and> st_phase st \<noteq> PhaseAbsent \<longrightarrow>
        (\<exists>p. GotPod (mount_pod_name (ns_codec S) (ns_node S) v) (Inr p) \<in> set l \<and>
           st_staging st = pod_annotation p annotation_staging_path))"

lemma get_state_spec:
  assumes "closed_for A J" and "allows A"
  shows "spec_s (\<lambda>l b. J l \<and> b = B) (ns_get (watched_server S) v)
    (\<lambda>a l b. J l \<and> b = B \<and> read_state S v a l)"
proof -
  let ?name = "mount_pod_name (ns_codec S) (ns_node S) v"
  have "spec_t (\<lambda>l _. J l) (get_state (watched_cluster S) (ns_codec S) (ns_config S) (ns_node S) v)
      (\<lambda>a l _. J l \<and> read_state S v a l)"
    unfolding get_state_def Let_def watched_fields
  proof (rule spec_bind [OF spec_noting [where Q = "\<lambda>r l _. J l \<and> GotPod ?name r \<in> set l"]])
    fix r :: "api_failure + 'a pod"
    show "spec_t (\<lambda>l _. J l \<and> GotPod ?name r \<in> set l)
        (State_Monad.return (case r of
            Inl ApiNotFound \<Rightarrow> (no_state\<lparr>st_name := ?name, st_phase := PhaseAbsent, st_volume := v,
              st_node := ns_node S\<rparr>, None)
          | Inl e \<Rightarrow> (no_state, Some (ApiFailed e))
          | Inr p \<Rightarrow> (state_of p, None)))
        (\<lambda>a l _. J l \<and> read_state S v a l)"
      by (rule spec_return) (auto simp: read_state_def state_of_fields split: sum.split api_failure.split)
  qed (use closed_forD [OF assms(1) allowsD [OF assms(2)]] in auto)
  from s_conj [OF s_node [OF this] kept_s_marks [unfolded kept_s_def, where P = "\<lambda>b. b = B"]]
  show ?thesis
    unfolding ns_get_def watched_simps by (rule s_weaken) auto
qed

definition before_choice ::
  "('w, 'q) node_server \<Rightarrow> string \<Rightarrow> 'q pod_state \<Rightarrow> 'q event list \<Rightarrow> bool" where
  "before_choice S v st l \<longleftrightarrow> stops_none l \<and>
     (\<exists>p. GotPod (mount_pod_name (ns_codec S) (ns_node S) v) (Inr p) \<in> set l \<and>
        st_staging st = pod_annotation p annotation_staging_path)"

lemma closed_before: "closed_for (\<lambda>e. \<not> graceful e) (before_choice S v st)"
  by (auto simp: closed_for_def before_choice_def stops_none_def)

lemma none_kept:
  assumes "kept_s (\<lambda>l b. stops_none l) m" and "\<And>l b. P l b \<Longrightarrow> stops_none l"
  shows "spec_s P m (\<lambda>_ l b. stops_only_unused S v staged B l)"
  by (rule s_weaken [OF assms(1) [unfolded kept_s_def]]) (auto dest: assms(2) stops_none_only)

lemma none_return: "(\<And>l b. P l b \<Longrightarrow> stops_none l) \<Longrightarrow>
  spec_s P (State_Monad.return x) (\<lambda>_ l b. stops_only_unused S v staged B l)"
  by (rule none_kept [OF kept_s_return])

text \<open>The end of \<open>recoverVolume\<close>, once it is known whether kubelet holds the volume.\<close>

lemma choice_stops:
  assumes unused: "\<And>l b. P l b \<Longrightarrow> \<not> held \<Longrightarrow> binds (is_target (ns_config S)) infos v = [] \<Longrightarrow>
      may_stop S v staged B l"
    and none: "\<And>l b. P l b \<Longrightarrow> stops_none l"
  shows "spec_s P (recover_choice (watched_server S) v st infos held)
    (\<lambda>_ l b. stops_only_unused S v staged B l)"
proof (cases "\<not> held \<and> binds (is_target (ns_config S)) infos v = []")
  case True
  have "kept_s (\<lambda>l b. may_stop S v staged B l) (recover_choice (watched_server S) v st infos held)"
    using True unfolding recover_choice_def watched_simps
    by (auto intro!: kept_s_intros keeps_orphan closed_may_stop)
  moreover have "may_stop S v staged B l" if "P l b" for l b using unused [OF that] True by simp
  ultimately show ?thesis
    unfolding kept_s_def may_stop_def by (rule s_weaken) (assumption, blast)
next
  case False
  note run = keeps_running [OF closed_stops_none] and ended = keeps_ended [OF closed_stops_none]
  show ?thesis
    using False unfolding recover_choice_def watched_simps
    by (auto intro!: none_kept [OF run] none_kept [OF ended] none_return dest: none)
qed

lemma held_spec:
  assumes "closed_for A J" and "allows A"
  shows "spec_s (\<lambda>l b. J l)
    (if staged then State_Monad.return True else kubelet_staged (watched_server S) staging)
    (\<lambda>held l b. J l \<and> (\<not> held \<longrightarrow> \<not> staged \<and> unstaged staging l))"
  by (auto intro!: s_return s_weaken [OF kubelet_staged_spec [OF assms]])

lemma busy_spec:
  assumes "closed_for A J" and "allows A"
  shows "spec_s (\<lambda>l b. J l \<and> b = B) (if staged then State_Monad.return False else is_busy (watched_server S) v)
    (\<lambda>busy l b. J l \<and> (\<not> busy \<longrightarrow> staged \<or> not_busy v B l))"
  by (auto intro!: s_return s_weaken [OF is_busy_spec [OF assms]])

text \<open>What is known of the trace once the table is read, and once the volume is found idle.\<close>

definition seen_table ::
  "('w, 'q) node_server \<Rightarrow> string \<Rightarrow> 'q pod_state \<Rightarrow> mount_info list \<Rightarrow> 'q event list \<Rightarrow> bool" where
  "seen_table S v st infos l \<longleftrightarrow> before_choice S v st l \<and> ReadTable (Inr infos) \<in> set l"

definition seen_idle ::
  "('w, 'q) node_server \<Rightarrow> string \<Rightarrow> 'q pod_state \<Rightarrow> mount_info list \<Rightarrow> bool \<Rightarrow> marks \<Rightarrow> 'q event list \<Rightarrow> bool" where
  "seen_idle S v st infos staged B l \<longleftrightarrow>
     seen_table S v st infos l \<and> (staged \<or> not_busy v B l)"

lemma closed_seen_table: "closed_for (\<lambda>e. \<not> graceful e) (seen_table S v st infos)"
  by (auto simp: closed_for_def seen_table_def intro: closed_forD [OF closed_before])

lemma closed_seen_idle: "closed_for (\<lambda>e. \<not> graceful e) (seen_idle S v st infos staged B)"
  by (auto simp: closed_for_def seen_idle_def intro: not_busy_append closed_forD [OF closed_seen_table])

lemma seen_none:
  "seen_table S v st infos l \<Longrightarrow> stops_none l" "seen_idle S v st infos staged B l \<Longrightarrow> stops_none l"
  by (simp_all add: seen_idle_def seen_table_def before_choice_def)

lemma seen_may_stop:
  "seen_idle S v st infos staged B l \<Longrightarrow> \<not> staged \<and> unstaged (st_staging st) l \<Longrightarrow>
   binds (is_target (ns_config S)) infos v = [] \<Longrightarrow> may_stop S v staged B l"
  using stops_none_only
  by (auto simp: seen_idle_def seen_table_def before_choice_def may_stop_def unused_def bound_nowhere_def)

lemma idle_stops:
  "spec_s (\<lambda>l b. seen_table S v st infos l \<and> b = B) (recover_idle (watched_server S) v staged st infos)
     (\<lambda>_ l b. stops_only_unused S v staged B l)"
  unfolding recover_idle_def
proof (rule s_bind [OF busy_spec [OF closed_seen_table closed_stops_none(2)]])
  fix busy
  have idle: "spec_s (\<lambda>l b. seen_idle S v st infos staged B l) (do {
      held \<leftarrow> (if staged then State_Monad.return True
        else kubelet_staged (watched_server S) (st_staging st));
      recover_choice (watched_server S) v st infos held
    }) (\<lambda>_ l b. stops_only_unused S v staged B l)"
    by (rule s_bind [OF held_spec [OF closed_seen_idle closed_stops_none(2)]], rule choice_stops)
      (auto dest: seen_none seen_may_stop)
  show "spec_s (\<lambda>l b. seen_table S v st infos l \<and> (\<not> busy \<longrightarrow> staged \<or> not_busy v B l))
    (if busy then State_Monad.return (metric_state (st_phase st), zero_time, None)
     else do {
       held \<leftarrow> (if staged then State_Monad.return True
         else kubelet_staged (watched_server S) (st_staging st));
       recover_choice (watched_server S) v st infos held
     }) (\<lambda>_ l b. stops_only_unused S v staged B l)"
    using idle by (cases busy) (auto simp: seen_idle_def intro!: none_return dest: seen_none)
qed

lemma found_stops:
  "spec_s (\<lambda>l b. before_choice S v st l \<and> b = B) (recover_found (watched_server S) v staged st)
     (\<lambda>_ l b. stops_only_unused S v staged B l)"
proof -
  have table: "spec_s (\<lambda>l b. before_choice S v st l \<and> b = B) (on_host (noting ReadTable m))
      (\<lambda>t l b. before_choice S v st l \<and> b = B \<and> ReadTable t \<in> set l)" for m
    by (rule s_noting) (auto intro: closed_forD [OF closed_before])
  show ?thesis
    unfolding recover_found_def watched_simps
  proof (rule s_bind [OF table])
    fix t :: "string + mount_info list"
    show "spec_s (\<lambda>l b. before_choice S v st l \<and> b = B \<and> ReadTable t \<in> set l)
      (case t of
         Inl e \<Rightarrow> State_Monad.return (metric_state (st_phase st), zero_time, Some (TableUnreadable e))
       | Inr infos \<Rightarrow> recover_idle (watched_server S) v staged st infos)
      (\<lambda>_ l b. stops_only_unused S v staged B l)"
      by (cases t)
        (auto simp: before_choice_def seen_table_def intro!: none_return s_weaken [OF idle_stops])
  qed
qed

lemma recover_volume_stops:
  "spec_s (\<lambda>l b. stops_none l \<and> b = B) (recover_volume (watched_server S) v staged)
     (\<lambda>_ l b. stops_only_unused S v staged B l)"
  unfolding recover_volume_def
proof (rule s_bind [OF get_state_spec [OF closed_stops_none]])
  fix a :: "'a answer"
  obtain st e where a: "a = (st, e)" by (cases a)
  show "spec_s (\<lambda>l b. stops_none l \<and> b = B \<and> read_state S v a l)
    (case a of
        (_, Some e) \<Rightarrow> State_Monad.return ([], zero_time, Some (ManagerFailed e))
      | (st, None) \<Rightarrow>
          if st_phase st = PhaseAbsent then State_Monad.return ([], zero_time, None)
          else recover_found (watched_server S) v staged st)
    (\<lambda>_ l b. stops_only_unused S v staged B l)"
    unfolding a by (cases e)
      (auto simp: before_choice_def read_state_def intro!: none_return s_weaken [OF found_stops])
qed

lemma recover_volume_trace:
  "stops_only_unused S v staged (sv_busy s) (server_trace (recover_volume (watched_server S) v staged) s w)"
proof -
  let ?s = "s\<lparr>sv_node := (sv_node s)\<lparr>node_world := (w, [])\<rparr>\<rparr>"
  have "sholds (\<lambda>l b. stops_none l \<and> b = sv_busy s) ?s" by (simp add: sholds_def stops_none_def)
  from tripleD [OF recover_volume_stops [unfolded spec_s_def] this surjective_pairing]
  show ?thesis by (simp add: sholds_def server_trace_def)
qed

text \<open>
  C4. The recovery stops no pod in use. It asks a mount pod to stop only when, earlier in the same
  repair, it read that pod and no \<open>vol_data.json\<close> next to its staging path in a driver directory it
  could list, read a mount table that binds the volume on no pod's target path, and found no stage or
  unstage of the volume marked in the last ten minutes; never for a volume being published. A
  doubt (an error of any of these readings) stops nothing.
\<close>

theorem recovery_stops_only_unused:
  "stops_only_unused S v staged (sv_busy s) (server_trace (recover_volume (watched_server S) v staged) s w)"
  by (rule recover_volume_trace)

end
