(* ===== verification/Node_Service.thy ===== *)
theory Node_Service
  imports Recovery Controller
begin

text \<open>
  The CSI node service (internal/driver/node.go): staging, unstaging, publishing, unpublishing and the
  statistics of a volume. The operations compose the Manager (the mount pods), the host's mounts and
  the marks of \<open>Node_Server\<close>; a stage or unstage runs under the lock of its volume (Key_Lock).
\<close>

subsection \<open>Requests\<close>

datatype node_capability =
    STAGE_UNSTAGE_VOLUME | GET_VOLUME_STATS | VOLUME_CONDITION | SINGLE_NODE_MULTI_WRITER

definition node_get_capabilities :: "node_capability list" where
  "node_get_capabilities =
     [STAGE_UNSTAGE_VOLUME, GET_VOLUME_STATS, VOLUME_CONDITION, SINGLE_NODE_MULTI_WRITER]"

definition node_get_info :: "('w, 'q) node_server \<Rightarrow> string" where
  "node_get_info S = ns_node S"

record stage_request =
  sr_volume :: string
  sr_staging :: string
  sr_capability :: "volume_capability option"
  sr_context :: "string gomap"
  sr_secrets :: "string gomap"

text \<open>\<open>namespaceName\<close>: the expression \<open>[a-z0-9]([-a-z0-9]{0,61}[a-z0-9])?\<close> on the whole string.\<close>

definition name_char :: "char \<Rightarrow> bool" where
  "name_char c \<longleftrightarrow> c \<in> set ''abcdefghijklmnopqrstuvwxyz0123456789''"

definition namespace_name :: "string \<Rightarrow> bool" where
  "namespace_name s \<longleftrightarrow> s \<noteq> [] \<and> length s \<le> 63 \<and> name_char (hd s) \<and> name_char (last s) \<and>
     list_all (\<lambda>c. name_char c \<or> c = CHR ''-'') s"

definition claim_namespace :: "string gomap \<Rightarrow> string" where
  "claim_namespace context =
     (let ns = lookup0 context volume_context_namespace
      in if ns \<noteq> [] \<and> \<not> namespace_name ns then [] else ns)"

subsection \<open>The spec of a stage\<close>

text \<open>The claim of the volume context, and the settings with its annotations over the context.\<close>

definition stage_claim ::
  "('w, 'q) node_server \<Rightarrow> stage_request \<Rightarrow> ('w server, status + claim option) state" where
  "stage_claim S req =
     (let name = lookup0 (sr_context req) volume_context_pvc_name;
          namespace = claim_namespace (sr_context req)
      in if name = [] \<or> namespace = [] then State_Monad.return (Inr None)
         else case ns_kube S of
             None \<Rightarrow> State_Monad.return (Inl (err FailedPrecondition))
           | Some K \<Rightarrow> do {
               r \<leftarrow> on_host (kb_get_claim K namespace name);
               State_Monad.return (case r of
                   Inl ApiNotFound \<Rightarrow> Inl (err NotFound)
                 | Inl _ \<Rightarrow> Inl (err Unavailable)
                 | Inr c \<Rightarrow> Inr (Some c))
             })"

definition stage_settings :: "stage_request \<Rightarrow> claim option \<Rightarrow> settings" where
  "stage_settings req claim =
     map_of (sr_context req) ++ (case claim of None \<Rightarrow> Map.empty | Some c \<Rightarrow> map_of (cl_annotations c))"

text \<open>The credentials: the request's, or the default ones where \<open>checkDefaultIdentity\<close> allows them.\<close>

definition stage_credentials ::
  "('w, 'q) node_server \<Rightarrow> stage_request \<Rightarrow> claim option \<Rightarrow> ('w server, status + credentials) state" where
  "stage_credentials S req claim =
     check (case from_secrets (sr_secrets req) of Inl _ \<Rightarrow> Inl (err InvalidArgument) | Inr c \<Rightarrow> Inr c) (\<lambda>creds.
     attempt (case creds of
         Some c \<Rightarrow> State_Monad.return (Inr (Some c))
       | None \<Rightarrow> attempt (on_host (check_default_identity (ns_kube S) (sr_volume req) claim)) id
           (\<lambda>_. State_Monad.return (Inr (ns_credentials S)))) id (\<lambda>creds.
     State_Monad.return (case creds of
         None \<Rightarrow> Inl (err FailedPrecondition)
       | Some c \<Rightarrow> if token c = [] \<or> passphrase c = [] then Inl (err FailedPrecondition) else Inr c)))"

definition stage_spec ::
  "('w, 'q) node_server \<Rightarrow> stage_request \<Rightarrow> ('w server, status + 'q spec \<times> claim option) state" where
  "stage_spec S req =
     attempt (stage_claim S req) id (\<lambda>claim.
     check (case parse_mount_settings (ns_parsers S) (ns_bool_order S) (stage_settings req claim) of
         Inl _ \<Rightarrow> Inl (err InvalidArgument) | Inr ms \<Rightarrow> Inr ms) (\<lambda>ms.
     attempt (stage_credentials S req claim) id (\<lambda>creds.
     State_Monad.return (Inr
       (\<lparr>volume_id = sr_volume req, node_name = ns_node S,
         pvc_name = lookup0 (sr_context req) volume_context_pvc_name,
         pvc_namespace = claim_namespace (sr_context req), staging_path = sr_staging req,
         spec_credentials = creds, spec_cache = ns_cache S, spec_uid = ms_uid ms, spec_gid = ms_gid ms,
         spec_options = ms_options ms, spec_resources = ms_resources ms\<rparr>, claim)))))"

subsection \<open>Making sure that the volume is mounted\<close>

definition stage_gave_up ::
  "('w, 'q) node_server \<Rightarrow> claim option \<Rightarrow> 'q spec \<Rightarrow> 'q pod_state \<Rightarrow> ('w server, unit) state" where
  "stage_gave_up S claim s st = do {
     now \<leftarrow> ns_clock S;
     reported \<leftarrow> read_server (\<lambda>m. sv_gave_up m (volume_id s) \<noteq> None);
     _ \<leftarrow> set_gave_up (\<lambda>m. m(volume_id s \<mapsto> now));
     (if reported then State_Monad.return ()
      else record_event S (map_option ClaimObject claim)
        (StageGaveUp (volume_id s) (node_name s) (exit_message st)))
   }"

definition recreate :: "('w, 'q) node_server \<Rightarrow> 'q spec \<Rightarrow> ('w server, status + unit) state" where
  "recreate S s = do {
     answer \<leftarrow> on_node (delete_pod (node_cluster S) (ns_codec S) (ns_config S) (node_name s) (volume_id s));
     (case answer of
        (_, Some _) \<Rightarrow> State_Monad.return (Inl (err Unavailable))
      | (st, None) \<Rightarrow>
          if st_phase st = PhaseTerminating then State_Monad.return (Inl (err Aborted))
          else do { _ \<leftarrow> report_exit S st; State_Monad.return (Inr ()) })
   }"

definition restage :: "('w, 'q) node_server \<Rightarrow> 'q spec \<Rightarrow> 'q pod_state \<Rightarrow> ('w server, status + unit) state" where
  "restage S s st =
     attempt (on_host (h_mount_info (ns_host S))) (\<lambda>_. err Unavailable) (\<lambda>infos.
     guarded (top_mount infos (st_staging st) \<noteq> None) (err FailedPrecondition) (
     recreate S s))"

definition check_ready :: "('w, 'q) node_server \<Rightarrow> 'q pod_state \<Rightarrow> ('w server, status + unit) state" where
  "check_ready S st =
     (case st_phase st of
        PhaseRunning \<Rightarrow> do {
          e \<leftarrow> on_node (ready (node_cluster S) (st_pod st));
          State_Monad.return (if e = None then Inr () else Inl (err Aborted))
        }
      | PhaseExited \<Rightarrow> do { _ \<leftarrow> report_exit_early S st; State_Monad.return (Inl (err Aborted)) }
      | PhaseAbsent \<Rightarrow> do { _ \<leftarrow> report_exit_early S st; State_Monad.return (Inl (err Aborted)) }
      | _ \<Rightarrow> State_Monad.return (Inl (err Aborted)))"

text \<open>
  A round of \<open>ensureMounted\<close> ends the call (\<open>Inl\<close>) or is followed by another (\<open>Inr\<close>, \<open>continue\<close>). First the
  pod kept although its settings changed, then the round from the pod that \<open>Ensure\<close> found.
\<close>

type_synonym 'q round = "('q pod_state \<times> (status + unit)) + 'q pod_state"

definition replaced :: "'q pod_state \<Rightarrow> status + unit \<Rightarrow> 'q round" where
  "replaced st r = (case r of Inl e \<Rightarrow> Inl (st, Inl e) | Inr _ \<Rightarrow> Inr st)"

definition round_ready :: "('w, 'q) node_server \<Rightarrow> 'q pod_state \<Rightarrow> ('w server, 'q round) state" where
  "round_ready S st = do {
     r \<leftarrow> check_ready S st;
     State_Monad.return (Inl (st, r))
   }"

definition round_changed ::
  "('w, 'q) node_server \<Rightarrow> 'q spec \<Rightarrow> claim option \<Rightarrow> 'q pod_state \<Rightarrow> ('w server, 'q round) state" where
  "round_changed S s claim st = do {
     published \<leftarrow> published_at S (volume_id s);
     (case published of
        Inl _ \<Rightarrow> State_Monad.return (Inl (st, Inl (err Unavailable)))
      | Inr targets \<Rightarrow>
          if targets \<noteq> [] then do {
            _ \<leftarrow> record_event S (map_option ClaimObject claim) (ConfigChanged (volume_id s) (node_name s) (st_name st));
            round_ready S st
          }
          else do { r \<leftarrow> recreate S s; State_Monad.return (replaced st r) })
   }"

definition round_pod ::
  "('w, 'q) node_server \<Rightarrow> 'q spec \<Rightarrow> claim option \<Rightarrow> 'q pod_state \<Rightarrow> ('w server, 'q round) state" where
  "round_pod S s claim st =
     (let starting = st_phase st = PhasePending \<or> st_phase st = PhaseRunning
      in if st_phase st = PhaseTerminating then do {
           r \<leftarrow> recreate S s;
           State_Monad.return (replaced st r)
         }
         else if starting \<and> st_staging st \<noteq> staging_path s then do {
           r \<leftarrow> restage S s st;
           State_Monad.return (replaced st r)
         }
         else if st_config_changed st \<and> starting then round_changed S s claim st
         else round_ready S st)"

definition ensure_round ::
  "('w, 'q) node_server \<Rightarrow> 'q spec \<Rightarrow> claim option \<Rightarrow> ('w server, 'q round) state" where
  "ensure_round S s claim = do {
     answer \<leftarrow> ns_ensure S s;
     (case answer of
        (st, Some (GaveUpError _ _)) \<Rightarrow>
          (let st' = if exit_message st = [] then st\<lparr>exit_message := last_exit_message (st_backoff st)\<rparr> else st
           in do {
             _ \<leftarrow> stage_gave_up S claim s st';
             State_Monad.return (Inl (st', Inl (err FailedPrecondition)))
           })
      | (st, Some (InvalidSpec _)) \<Rightarrow> State_Monad.return (Inl (st, Inl (err InvalidArgument)))
      | (st, Some _) \<Rightarrow> State_Monad.return (Inl (st, Inl (err Unavailable)))
      | (st, None) \<Rightarrow> do {
          _ \<leftarrow> set_gave_up (\<lambda>m. m(volume_id s := None));
          round_pod S s claim st
        })
   }"

definition max_ensure_rounds :: nat where "max_ensure_rounds = 4"

text \<open>The loop, with the number of rounds left and the pod of the last one.\<close>

primrec ensure_loop ::
  "('w, 'q) node_server \<Rightarrow> 'q spec \<Rightarrow> claim option \<Rightarrow> nat \<Rightarrow> 'q pod_state \<Rightarrow>
   ('w server, 'q pod_state \<times> (status + unit)) state" where
  "ensure_loop S s claim 0 st = State_Monad.return (st, Inl (err Aborted))"
| "ensure_loop S s claim (Suc n) st = do {
     r \<leftarrow> ensure_round S s claim;
     (case r of
        Inl answer \<Rightarrow> State_Monad.return answer
      | Inr st' \<Rightarrow> ensure_loop S s claim n st')
   }"

definition ensure_mounted ::
  "('w, 'q) node_server \<Rightarrow> 'q spec \<Rightarrow> claim option \<Rightarrow> ('w server, 'q pod_state \<times> (status + unit)) state" where
  "ensure_mounted S s claim = ensure_loop S s claim max_ensure_rounds no_state"

definition check_staged :: "('w, 'q) node_server \<Rightarrow> string \<Rightarrow> string \<Rightarrow> ('w server, status + unit) state" where
  "check_staged S volume staging =
     attempt (on_host (h_mount_info (ns_host S))) (\<lambda>_. err Unavailable) (\<lambda>infos.
     guarded (case top_mount infos staging of
         None \<Rightarrow> True | Some t \<Rightarrow> mi_source t \<noteq> mount_source volume) (err Internal) (
     attempt (on_host (mount_state (ns_host S) staging)) (\<lambda>_. err Internal) (\<lambda>(_, corrupted).
     guarded corrupted (err Internal) (
     State_Monad.return (Inr ())))))"

subsection \<open>The calls\<close>

text \<open>\<open>NodeStageVolume\<close> between the mark of the volume and its clearing, then the call.\<close>

definition stage :: "('w, 'q) node_server \<Rightarrow> stage_request \<Rightarrow> ('w server, status + unit) state" where
  "stage S req =
     attempt (stage_spec S req) id (\<lambda>(s, claim).
     attempt (do { r \<leftarrow> ensure_mounted S s claim; State_Monad.return (snd r) }) id (\<lambda>_.
     attempt (check_staged S (sr_volume req) (sr_staging req)) id (\<lambda>_. do {
       _ \<leftarrow> set_gave_up (\<lambda>m. m(sr_volume req := None));
       State_Monad.return (Inr ())
     })))"

definition marked ::
  "('w, 'q) node_server \<Rightarrow> string \<Rightarrow> ('w server, status + 'a) state \<Rightarrow> ('w server, status + 'a) state" where
  "marked S volume m = do {
     _ \<leftarrow> mark_busy S volume;
     r \<leftarrow> m;
     _ \<leftarrow> clear_busy volume r;
     State_Monad.return r
   }"

definition node_stage_volume ::
  "('w, 'q) node_server \<Rightarrow> stage_request \<Rightarrow> ('w server, status + unit) state" where
  "node_stage_volume S req =
     guarded (sr_volume req = [] \<or> sr_staging req = []) (err InvalidArgument) (
     guarded (case sr_capability req of None \<Rightarrow> True | Some c \<Rightarrow> \<not> is_supported_capability c)
       (err InvalidArgument) (
     marked S (sr_volume req) (stage S req)))"

definition unstage :: "('w, 'q) node_server \<Rightarrow> string \<Rightarrow> string \<Rightarrow> ('w server, status + unit) state" where
  "unstage S volume staging = do {
     _ \<leftarrow> published_at S volume;
     answer \<leftarrow> ns_delete S volume;
     (case answer of
        (_, Some _) \<Rightarrow> State_Monad.return (Inl (err Unavailable))
      | (st, None) \<Rightarrow>
          if st_phase st = PhaseTerminating then State_Monad.return (Inl (err Aborted))
          else do {
            _ \<leftarrow> report_exit S st;
            _ \<leftarrow> set_gave_up (\<lambda>m. m(volume := None));
            _ \<leftarrow> on_node (update_backoffs (forget_all volume));
            attempt (on_host (unpublish (ns_host S) staging)) (\<lambda>_. err Internal) (\<lambda>_.
              State_Monad.return (Inr ()))
          })
   }"

definition node_unstage_volume ::
  "('w, 'q) node_server \<Rightarrow> string \<Rightarrow> string \<Rightarrow> ('w server, status + unit) state" where
  "node_unstage_volume S volume staging =
     guarded (volume = [] \<or> staging = []) (err InvalidArgument) (
     marked S volume (unstage S volume staging))"

definition node_publish_volume ::
  "('w, 'q) node_server \<Rightarrow> string \<Rightarrow> string \<Rightarrow> string \<Rightarrow> bool \<Rightarrow> ('w server, status + unit) state" where
  "node_publish_volume S volume source target read_only =
     guarded (source = [] \<or> target = [] \<or> volume = []) (err InvalidArgument) (
     attempt (repair_staging S volume source) (\<lambda>_. err Unavailable) (\<lambda>_.
     attempt (on_host (bind_mount (ns_host S) source target read_only)) (\<lambda>_. err Internal) (\<lambda>_.
     State_Monad.return (Inr ()))))"

definition node_unpublish_volume ::
  "('w, 'q) node_server \<Rightarrow> string \<Rightarrow> ('w server, status + unit) state" where
  "node_unpublish_volume S target =
     guarded (target = []) (err InvalidArgument) (
     attempt (on_host (unpublish (ns_host S) target)) (\<lambda>_. err Internal) (\<lambda>_.
     State_Monad.return (Inr ())))"

subsection \<open>Statistics\<close>

text \<open>The condition of a volume, with the values its message tells.\<close>

datatype condition =
    PodReady string
  | PodNotRunning string phase string
  | PodNotReady manager_error
  | DeadMount string "condition option"
  | NoStatfs string sys_error

definition abnormal :: "condition \<Rightarrow> bool" where
  "abnormal c = (case c of PodReady _ \<Rightarrow> False | _ \<Rightarrow> True)"

record volume_usage =
  vu_total :: int
  vu_available :: int
  vu_used :: int

record stats =
  stats_usage :: "(volume_usage \<times> volume_usage) option"
  stats_condition :: "condition option"

definition to_int64 :: "64 word \<Rightarrow> int" where
  "to_int64 v = min (uint v) (2 ^ 63 - 1)"

definition usage_of :: "statfs \<Rightarrow> volume_usage \<times> volume_usage" where
  "usage_of fs =
     (\<lparr>vu_total = to_int64 (fs_blocks fs * fs_bsize fs),
       vu_available = to_int64 (fs_bavail fs * fs_bsize fs),
       vu_used = to_int64 ((fs_blocks fs - fs_bfree fs) * fs_bsize fs)\<rparr>,
      \<lparr>vu_total = to_int64 (fs_files fs), vu_available = to_int64 (fs_ffree fs),
       vu_used = to_int64 (fs_files fs - fs_ffree fs)\<rparr>)"

definition volume_condition :: "('w, 'q) node_server \<Rightarrow> string \<Rightarrow> ('w server, condition option) state" where
  "volume_condition S volume = do {
     answer \<leftarrow> ns_get S volume;
     (case answer of
        (_, Some _) \<Rightarrow> State_Monad.return None
      | (st, None) \<Rightarrow>
          if st_phase st \<noteq> PhaseRunning then
            State_Monad.return (Some (PodNotRunning (st_name st) (st_phase st) (st_waiting_reason st)))
          else do {
            e \<leftarrow> on_node (ready (node_cluster S) (st_pod st));
            State_Monad.return (Some (case e of None \<Rightarrow> PodReady (st_name st) | Some e \<Rightarrow> PodNotReady e))
          })
   }"

definition node_get_volume_stats ::
  "('w, 'q) node_server \<Rightarrow> string \<Rightarrow> string \<Rightarrow> ('w server, status + stats) state" where
  "node_get_volume_stats S volume p =
     guarded (volume = [] \<or> p = []) (err InvalidArgument) (
     attempt (on_host (mount_state (ns_host S) p)) (\<lambda>_. err Internal) (\<lambda>(mounted, corrupted).
     guarded (\<not> mounted) (err NotFound) (do {
       condition \<leftarrow> volume_condition S volume;
       (if corrupted then
          State_Monad.return (Inr \<lparr>stats_usage = None, stats_condition = Some (DeadMount p condition)\<rparr>)
        else do {
          r \<leftarrow> on_host (h_statfs (ns_host S) p);
          State_Monad.return (case r of
              Inl Enoent \<Rightarrow> Inl (err NotFound)
            | Inl e \<Rightarrow> Inr \<lparr>stats_usage = None, stats_condition = Some (NoStatfs p e)\<rparr>
            | Inr fs \<Rightarrow> Inr \<lparr>stats_usage = Some (usage_of fs), stats_condition = condition\<rparr>)
        })
     })))"

end
