(* ===== verification/Node_Stage.thy ===== *)
theory Node_Stage
  imports Node_Service Recovery_Trace
begin

text \<open>
  What the node service promises kubelet: a tenant's volume is never staged with the driver's identity,
  a staged volume is mounted, a stage or unstage that asks to be retried keeps its volume from the
  recovery, and an unstage unmounts only once the mount pod has drained.
\<close>

subsection \<open>The tenant's identity\<close>

definition claim_reads :: "'w kube \<Rightarrow> bool" where
  "claim_reads K \<longleftrightarrow> (\<forall>ns n w. snd (run_state (kb_get_claim K ns n) w) = w)"

definition clock_reads :: "('w, int) state \<Rightarrow> bool" where
  "clock_reads m \<longleftrightarrow> (\<forall>w. snd (run_state m w) = w)"

lemma run_on_host:
  "run_state (on_host m) s = (case run_state m (node_world (sv_node s)) of
     (x, w) \<Rightarrow> (x, s\<lparr>sv_node := (sv_node s)\<lparr>node_world := w\<rparr>\<rparr>))"
  by (simp add: on_host_def run_on_node run_on_world split: prod.split)

lemma run_on_host_same:
  "snd (run_state m (node_world (sv_node s))) = node_world (sv_node s) \<Longrightarrow>
   run_state (on_host m) s = (fst (run_state m (node_world (sv_node s))), s)"
  by (auto simp: run_on_host split: prod.split)

lemma stage_claim_reads:
  assumes "ns_kube S = Some K" and "claim_reads K"
  shows "\<exists>r. run_state (stage_claim S req) s = (r, s)"
proof -
  have "snd (run_state (kb_get_claim K ns n) w) = w" for ns n w using assms(2) by (simp add: claim_reads_def)
  then show ?thesis
    by (simp add: stage_claim_def Let_def assms(1) run_on_host_same)
qed

definition tenant_volume ::
  "('w \<Rightarrow> api_failure + persistent_volume list) \<Rightarrow> ('w \<Rightarrow> string \<Rightarrow> api_failure + string gomap) \<Rightarrow>
   string \<Rightarrow> 'w \<Rightarrow> bool" where
  "tenant_volume volumes_of class_of volume w \<longleftrightarrow>
     (\<exists>pvs pv. volumes_of w = Inr pvs \<and> pv \<in> set pvs \<and> is_ours volume pv \<and>
        \<not> takes_default_identity (class_of w) pv)"

lemma stage_credentials_refused:
  assumes "ns_kube S = Some K" and "api_reads K volumes_of class_of" and "sr_secrets req = []"
    and "tenant_volume volumes_of class_of (sr_volume req) (node_world (sv_node s))"
  shows "\<exists>e. run_state (stage_credentials S req claim) s = (Inl e, s)"
proof -
  let ?w = "node_world (sv_node s)"
  obtain r w' where r: "run_state (check_default_identity (Some K) (sr_volume req) claim) ?w = (r, w')"
    by fastforce
  have iff: "w' = ?w \<and> (r = Inr () \<longleftrightarrow> (\<exists>pvs. volumes_of ?w = Inr pvs \<and>
      (\<exists>pv \<in> set pvs. is_ours (sr_volume req) pv) \<and>
      (\<forall>pv \<in> set pvs. is_ours (sr_volume req) pv \<longrightarrow> takes_default_identity (class_of ?w) pv)))"
    using assms(2) r by (rule check_default_identity_run)
  then have "r \<noteq> Inr ()" using assms(4) by (auto simp: tenant_volume_def)
  then obtain e where "r = Inl e" by (cases r) auto
  then show ?thesis
    using r iff assms(1,3)
    by (simp add: stage_credentials_def from_secrets_def run_check run_attempt run_on_host)
qed

lemma stage_refused:
  assumes "ns_kube S = Some K" and "claim_reads K" and "api_reads K volumes_of class_of"
    and "sr_secrets req = []"
    and "tenant_volume volumes_of class_of (sr_volume req) (node_world (sv_node s))"
  shows "\<exists>e. run_state (stage S req) s = (Inl e, s)"
proof -
  obtain r where r: "run_state (stage_claim S req) s = (r, s)"
    using stage_claim_reads [OF assms(1,2)] by blast
  have "\<exists>e. run_state (stage_spec S req) s = (Inl e, s)"
  proof (cases r)
    case (Inr claim)
    obtain e where "run_state (stage_credentials S req claim) s = (Inl e, s)"
      using stage_credentials_refused [OF assms(1,3-5)] by blast
    then show ?thesis
      using r Inr by (auto simp: stage_spec_def run_attempt run_check split: sum.split)
  qed (use r in \<open>simp add: stage_spec_def run_attempt\<close>)
  then show ?thesis by (auto simp: stage_def run_attempt)
qed

lemma run_marked:
  "run_state (marked S v m) s =
     (case run_state (mark_busy S v) s of (_, u) \<Rightarrow>
      (case run_state m u of (r, t) \<Rightarrow> (r, snd (run_state (clear_busy v r) t))))"
  by (simp add: marked_def split: prod.split)

lemma run_clear_busy:
  "run_state (clear_busy v r) s =
     ((), case r of Inl e \<Rightarrow> if code_of e = Aborted then s else s\<lparr>sv_busy := (sv_busy s)(v := None)\<rparr>
        | Inr _ \<Rightarrow> s\<lparr>sv_busy := (sv_busy s)(v := None)\<rparr>)"
  by (simp add: clear_busy_def split: sum.split)

lemma run_mark_busy:
  "clock_reads (ns_now S) \<Longrightarrow>
   run_state (mark_busy S v) s = ((), s\<lparr>sv_busy := (sv_busy s)(v \<mapsto> fst (run_state (ns_now S) (node_world (sv_node s))))\<rparr>)"
  by (simp add: mark_busy_def clock_reads_def run_on_host_same)

text \<open>
  C1. A tenant's volume is never mounted with the driver's own identity: when a stage request carries no
  secrets and any volume of the driver with that handle names a node-stage secret or is of a class
  that gives its volumes one, the stage fails, and it has asked the Kubernetes API for nothing but
  readings: no pod, no Secret, no mount, no restart state is touched.
\<close>

theorem tenant_volume_not_staged:
  assumes "ns_kube S = Some K" and "claim_reads K" and "api_reads K volumes_of class_of"
    and "clock_reads (ns_now S)" and "sr_secrets req = []"
    and "tenant_volume volumes_of class_of (sr_volume req) (node_world (sv_node s))"
    and "run_state (node_stage_volume S req) s = (r, t)"
  shows "is_err r \<and> sv_node t = sv_node s \<and> sv_gave_up t = sv_gave_up s"
proof -
  obtain b where mark: "run_state (mark_busy S (sr_volume req)) s = ((), s\<lparr>sv_busy := b\<rparr>)"
    using run_mark_busy [OF assms(4)] by blast
  have "tenant_volume volumes_of class_of (sr_volume req) (node_world (sv_node (s\<lparr>sv_busy := b\<rparr>)))"
    using assms(6) by simp
  from stage_refused [OF assms(1-3,5) this] obtain e
    where "run_state (stage S req) (s\<lparr>sv_busy := b\<rparr>) = (Inl e, s\<lparr>sv_busy := b\<rparr>)" by blast
  then show ?thesis
    using assms(7) mark
    by (auto simp: node_stage_volume_def run_guarded run_marked run_clear_busy split: if_splits)
qed

text \<open>A cluster with one volume of the driver, of a tenant's class.\<close>

definition tenant_kube :: "'w kube" where
  "tenant_kube = \<lparr>kb_get_claim = \<lambda>_ _. State_Monad.return (Inl ApiNotFound),
     kb_list_volumes = State_Monad.return (Inr [demo_volume ''tenant'']),
     kb_class_parameters = \<lambda>c. State_Monad.return (Inr [(node_stage_secret_param, ''s'')])\<rparr>"

definition demo_stage :: stage_request where
  "demo_stage = \<lparr>sr_volume = ''d1'', sr_staging = ''/k/plugins/kubernetes.io/csi/x/h/globalmount'',
     sr_capability = Some \<lparr>cap_block = False, cap_mode = SingleNodeWriter\<rparr>,
     sr_context = [(annotation_uid, ''1000'')], sr_secrets = []\<rparr>"

theorem tenant_volume_not_staged_witness:
  "is_err (fst (run_state (node_stage_volume ((demo_server None [])\<lparr>ns_kube := Some tenant_kube\<rparr>) demo_stage)
     demo_memory))"
proof -
  let ?S = "(demo_server None [])\<lparr>ns_kube := Some tenant_kube\<rparr>"
  let ?V = "\<lambda>w :: notice list. Inr [demo_volume ''tenant'']"
  let ?C = "\<lambda>(w :: notice list) c. Inr [(node_stage_secret_param, ''s'')]"
  have K: "ns_kube ?S = Some tenant_kube" "claim_reads tenant_kube" "api_reads tenant_kube ?V ?C"
    "clock_reads (ns_now ?S)" "sr_secrets demo_stage = []"
    by (simp_all add: claim_reads_def api_reads_def clock_reads_def tenant_kube_def demo_server_def demo_stage_def)
  have "tenant_volume ?V ?C (sr_volume demo_stage) (node_world (sv_node demo_memory))"
    by (simp add: tenant_volume_def is_ours_def demo_volume_def takes_default_identity_def demo_stage_def)
  from tenant_volume_not_staged [OF K this surjective_pairing] show ?thesis by simp
qed

subsection \<open>The mark of a stage or unstage\<close>

text \<open>Nothing but the mark itself and its clearing writes the map of marks.\<close>

abbreviation marks_are :: "(string \<rightharpoonup> int) \<Rightarrow> 'w server \<Rightarrow> bool" where
  "marks_are B \<equiv> (\<lambda>s. sv_busy s = B)"

lemma marks_kept:
  "keeps (marks_are B) (on_node m)" "keeps (marks_are B) (on_host h)" "keeps (marks_are B) (read_server f)"
  "keeps (marks_are B) (set_gave_up g)" "keeps (marks_are B) (set_reported k)"
  by (auto simp: keeps_def triple_def run_on_node run_on_host split: prod.split)

lemma marks_kept_calls:
  "keeps (marks_are B) (ns_ensure S s)" "keeps (marks_are B) (ns_delete S v)"
  "keeps (marks_are B) (ns_clock S)" "keeps (marks_are B) (published_at S v)"
  by (simp_all add: ns_ensure_def ns_delete_def ns_clock_def published_at_def marks_kept wp)

lemma marks_kept_event: "keeps (marks_are B) (record_event S ob n)"
  by (auto simp: record_event_def intro!: wp marks_kept)

lemma marks_kept_reports:
  "keeps (marks_are B) (report_exit S st)" "keeps (marks_are B) (report_exit_early S st)"
proof -
  have "keeps (marks_are B) (emit_exit S st code)" for code
    by (auto simp: emit_exit_def claim_ref_def split: option.split intro!: wp marks_kept marks_kept_event)
  then show "keeps (marks_are B) (report_exit S st)" "keeps (marks_are B) (report_exit_early S st)"
    by (auto simp: report_exit_def report_exit_early_def split: option.split intro!: wp marks_kept)
qed

lemmas marks_rules = wp marks_kept marks_kept_calls marks_kept_event marks_kept_reports

lemma marks_kept_recreate: "keeps (marks_are B) (recreate S s)"
  by (auto simp: recreate_def split: option.split intro!: marks_rules)

lemma marks_kept_round: "keeps (marks_are B) (ensure_round S s claim)"
proof -
  have ready: "keeps (marks_are B) (round_ready S st)" for st
    by (auto simp: round_ready_def check_ready_def split: phase.split intro!: marks_rules)
  have changed: "keeps (marks_are B) (round_changed S s claim st)" for st
    by (auto simp: round_changed_def intro!: marks_rules ready marks_kept_recreate)
  have pod: "keeps (marks_are B) (round_pod S s claim st)" for st
    by (auto simp: round_pod_def restage_def Let_def intro!: marks_rules ready changed marks_kept_recreate)
  show ?thesis
    by (auto simp: ensure_round_def stage_gave_up_def Let_def
        split: option.split manager_error.split intro!: marks_rules pod)
qed

lemma marks_kept_mounted: "keeps (marks_are B) (ensure_mounted S s claim)"
proof -
  have "keeps (marks_are B) (ensure_loop S s claim n st)" for n st
    by (induction n arbitrary: st) (auto intro!: marks_rules marks_kept_round)
  then show ?thesis by (simp add: ensure_mounted_def)
qed

lemma marks_kept_stage: "keeps (marks_are B) (stage S req)"
proof -
  have spec: "keeps (marks_are B) (stage_spec S req)"
    by (auto simp: stage_spec_def stage_claim_def stage_credentials_def Let_def
        split: option.split intro!: marks_rules)
  have staged: "keeps (marks_are B) (check_staged S v p)" for v p
    by (auto simp: check_staged_def intro!: marks_rules)
  show ?thesis
    by (auto simp: stage_def intro!: marks_rules spec staged marks_kept_mounted)
qed

lemma marks_kept_unstage: "keeps (marks_are B) (unstage S v p)"
  by (auto simp: unstage_def split: option.split intro!: marks_rules)

text \<open>So the mark stays exactly while the call asks to be retried.\<close>

lemma marked_marks:
  assumes "\<And>B. keeps (marks_are B) m"
    and "run_state (marked S v m) s = (r, t)"
  shows "sv_busy t = (if \<exists>e. r = Inl e \<and> code_of e = Aborted
    then sv_busy (snd (run_state (mark_busy S v) s)) else (sv_busy s)(v := None))"
proof -
  obtain u where u: "run_state (mark_busy S v) s = ((), u)" by (cases "run_state (mark_busy S v) s") simp
  have "sv_busy (snd (run_state m u)) = sv_busy u" by (rule keepsD [OF assms(1)]) simp
  moreover have "(sv_busy u)(v := None) = (sv_busy s)(v := None)"
    using u by (auto simp: mark_busy_def run_on_host split: prod.splits)
  ultimately show ?thesis
    using assms(2) u
    by (auto simp: run_marked run_clear_busy split: prod.splits sum.splits)
qed

text \<open>
  The trace of a repair after a call that was aborted: a graceful deletion comes only after a reading
  of the clock ten minutes past the mark.
\<close>

definition mark_time :: "('w, 'q) node_server \<Rightarrow> ('w \<times> 'q event list) server \<Rightarrow> int" where
  "mark_time S s = fst (run_state (ns_now S) (fst (node_world (sv_node s))))"

lemma run_mark_watched:
  "sv_busy (snd (run_state (mark_busy (watched_server S) v) s)) = (sv_busy s)(v \<mapsto> mark_time S s)"
  by (simp add: mark_busy_def watched_simps run_on_host noting_def mark_time_def split: prod.split)

lemmas stage_marks = marked_marks [OF marks_kept_stage]
lemmas unstage_marks = marked_marks [OF marks_kept_unstage]

lemma node_call_marks:
  assumes "m = node_stage_volume S req \<and> v = sr_volume req \<or> m = node_unstage_volume S v p"
    and "run_state m s = (Inl e, t)" and "code_of e = Aborted"
  shows "sv_busy t = sv_busy (snd (run_state (mark_busy S v) s))"
  using assms
  by (auto simp: node_stage_volume_def node_unstage_volume_def run_guarded err_def code_of_def
      dest!: stage_marks unstage_marks split: if_splits)

lemma stop_waits_for_mark:
  assumes "sv_busy s v = Some at" and "l = server_trace (recover_volume (watched_server S) v staged) s w"
    and "i < length l" and "graceful (l ! i)"
  shows "\<exists>now. Clock now \<in> set (take i l) \<and> busy_for \<le> time_sub now at"
proof -
  have "stops_only_unused S v staged (sv_busy s) l"
    unfolding assms(2) by (rule recover_volume_trace)
  then have "not_busy v (sv_busy s) (take i l)"
    using assms(3,4) by (auto simp: stops_only_unused_def unused_def list_all_iff)
  then show ?thesis using assms(1) by (auto simp: not_busy_def)
qed

text \<open>
  A pod being started or drained for kubelet is left to kubelet: when a stage or an unstage of a
  volume ends with Aborted, to be retried, a repair of that volume that follows asks its mount pod
  to stop only after the clock shows that ten minutes have passed since the call began.
\<close>

lemma recovery_waits_for_retry:
  assumes "m = node_stage_volume (watched_server S) req \<and> v = sr_volume req \<or>
      m = node_unstage_volume (watched_server S) v p"
    and "run_state m s = (Inl e, t)" and "code_of e = Aborted"
    and "l = server_trace (recover_volume (watched_server S) v staged) t w"
    and "i < length l" and "graceful (l ! i)"
  shows "\<exists>now. Clock now \<in> set (take i l) \<and> busy_for \<le> time_sub now (mark_time S s)"
  by (rule stop_waits_for_mark [OF _ assms(4-6)])
    (use node_call_marks [OF assms(1-3)] in \<open>simp add: run_mark_watched\<close>)

text \<open>A node whose world is its clock, with a pod that has not started.\<close>

definition idle_pod :: "int pod" where
  "idle_pod = demo_pod\<lparr>pod_meta := (pod_meta demo_pod)\<lparr>om_annotations := []\<rparr>, pod_status_of := no_status\<rparr>"

definition clock_server :: "(int, int) node_server" where
  "clock_server =
     \<lparr>ns_node = ''n1'', ns_host = still_host [], ns_cluster = logging_cluster (Some idle_pod),
      ns_codec = demo_codec, ns_config = demo_config, ns_kube = None, ns_record = None, ns_credentials = None,
      ns_cache = \<lparr>redis_url = [], high_confidentiality = False\<rparr>, ns_now = State (\<lambda>w. (w, w)),
      ns_parsers = demo_parsers, ns_bool_order = [], ns_quantity_text = \<lambda>_. []\<rparr>"

definition memory_at :: "'w \<Rightarrow> 'w server" where
  "memory_at w = \<lparr>sv_node = \<lparr>node_backoffs = Map.empty, node_world = w\<rparr>, sv_busy = Map.empty,
     sv_gave_up = Map.empty, sv_exit_reported = {}, sv_dir_unreadable = False\<rparr>"

lemma idle_state:
  "st_phase (state_of idle_pod) = PhasePending" "st_staging (state_of idle_pod) = []"
  "st_pod (state_of idle_pod) = Some idle_pod" "process_gone idle_pod = False" "om_deletion (pod_meta idle_pod) = None"
  by (simp_all add: state_of_def idle_pod_def statuses_def process_gone_def terminated_def no_status_def
      pod_annotation_def lookup0_def demo_pod_def build_pod_def object_meta_of_def Let_def)

lemma watched_pod:
  "k_get_pod (watched_cluster clock_server) ns n = noting (GotPod n) (State_Monad.return (Inr idle_pod))"
  "k_delete_pod (watched_cluster clock_server) ns n uid g = noting (DeletedPod n uid g) (State_Monad.return (Inr ()))"
  by (simp_all add: watched_fields clock_server_def logging_cluster_def)

lemma watched_clock_server:
  "ns_now (watched_server clock_server) = noting Clock (State (\<lambda>w. (w, w)))"
  "h_mount_info (ns_host (watched_server clock_server)) = noting ReadTable (State_Monad.return (Inr []))"
  by (simp_all add: watched_simps clock_server_def still_host_def)

lemma clock_fields:
  "ns_codec clock_server = demo_codec" "ns_config clock_server = demo_config" "ns_node clock_server = ''n1''"
  by (simp_all add: clock_server_def)

lemma run_noting: "run_state (noting f m) (w, l) = (case run_state m w of (x, w') \<Rightarrow> (x, (w', l @ [f x])))"
  by (simp add: noting_def)

lemma delete_idle:
  "\<exists>st uid. st_phase st = PhaseTerminating \<and> run_state (ns_delete (watched_server clock_server) v) s =
     ((st, None), s\<lparr>sv_node := (sv_node s)\<lparr>node_world := (fst (node_world (sv_node s)),
       snd (node_world (sv_node s)) @ [GotPod (mount_pod_name demo_codec ''n1'' v) (Inr idle_pod),
         DeletedPod (st_name (state_of idle_pod)) uid None (Inr ())])\<rparr>\<rparr>)"
  by (cases s, cases "sv_node s", cases "node_world (sv_node s)")
    (auto simp: ns_delete_def delete_pod_def get_state_def finished_def delete_running_def Let_def idle_state
      watched_pod run_on_node run_on_world run_noting watched_simps clock_fields)

lemma aborted_unstage:
  "\<exists>t. run_state (node_unstage_volume (watched_server clock_server) ''d1'' ''/s'') (memory_at (0, [])) = (Inl (err Aborted), t) \<and>
     sv_busy t = [''d1'' \<mapsto> 0]"
proof -
  let ?u = "\<lparr>sv_node = \<lparr>node_backoffs = Map.empty, node_world = (0, [Clock 0, ReadTable (Inr [])])\<rparr>,
     sv_busy = [''d1'' \<mapsto> 0], sv_gave_up = Map.empty, sv_exit_reported = {}, sv_dir_unreadable = False\<rparr> ::
     (int \<times> int event list) server"
  obtain st t where st: "st_phase st = PhaseTerminating" "sv_busy t = sv_busy ?u"
      "run_state (ns_delete (watched_server clock_server) ''d1'') ?u = ((st, None), t)"
    using delete_idle [of "''d1''" ?u] by auto
  then show ?thesis
    by (auto simp: node_unstage_volume_def run_guarded run_marked mark_busy_def unstage_def published_at_def
        run_attempt run_on_host run_noting watched_clock_server memory_at_def run_clear_busy)
qed

lemma swept_trace:
  assumes "sv_busy t = [''d1'' \<mapsto> 0]"
  shows "\<exists>m n uid. server_trace (recover_volume (watched_server clock_server) ''d1'' False) t (seconds 700) =
     [GotPod (mount_pod_name demo_codec ''n1'' ''d1'') (Inr idle_pod), ReadTable (Inr []), Clock (seconds 700),
      GotPod m (Inr idle_pod), DeletedPod n uid None (Inr ())]"
proof -
  let ?s = "t\<lparr>sv_node := (sv_node t)\<lparr>node_world := (seconds 700, [])\<rparr>\<rparr>"
  let ?l = "[GotPod (mount_pod_name demo_codec ''n1'' ''d1'') (Inr idle_pod), ReadTable (Inr []), Clock (seconds 700)]"
  let ?u = "t\<lparr>sv_node := (sv_node t)\<lparr>node_world := (seconds 700, ?l)\<rparr>\<rparr>"
  have idle: "\<not> time_sub (seconds 700) 0 < busy_for" by (simp add: time_sub_def busy_for_def seconds_def)
  have get: "run_state (ns_get (watched_server clock_server) ''d1'') ?s = ((state_of idle_pod, None),
      t\<lparr>sv_node := (sv_node t)\<lparr>node_world := (seconds 700, [hd ?l])\<rparr>\<rparr>)"
    by (simp add: ns_get_def get_state_def Let_def run_on_node run_on_world watched_pod run_noting watched_simps
        clock_fields)
  obtain st uid where d: "st_phase st = PhaseTerminating"
      "run_state (ns_delete (watched_server clock_server) (st_volume (state_of idle_pod))) ?u = ((st, None),
        ?u\<lparr>sv_node := (sv_node ?u)\<lparr>node_world := (seconds 700, ?l @
          [GotPod (mount_pod_name demo_codec ''n1'' (st_volume (state_of idle_pod))) (Inr idle_pod), DeletedPod (st_name (state_of idle_pod)) uid None (Inr ())])\<rparr>\<rparr>)"
    using delete_idle [of "st_volume (state_of idle_pod)" ?u] by auto
  have "run_state (recover_volume (watched_server clock_server) ''d1'' False) ?s =
      run_state (do { r \<leftarrow> delete_orphan (watched_server clock_server) (state_of idle_pod);
        State_Monad.return (fst r, zero_time, snd r) }) ?u"
    using get idle assms
    by (simp add: recover_volume_def recover_found_def recover_idle_def recover_choice_def is_busy_def
        kubelet_staged_def binds_def run_on_host run_noting watched_clock_server idle_state)
  then show ?thesis
    using d by (auto simp: server_trace_def delete_orphan_def report_exit_def)
qed

theorem recovery_waits_for_retry_witness:
  "\<exists>t l. run_state (node_unstage_volume (watched_server clock_server) ''d1'' ''/s'') (memory_at (0, [])) =
       (Inl (err Aborted), t) \<and>
     l = server_trace (recover_volume (watched_server clock_server) ''d1'' False) t (seconds 700) \<and>
     graceful (l ! 4) \<and>
     (\<exists>now. Clock now \<in> set (take 4 l) \<and> busy_for \<le> time_sub now (mark_time clock_server (memory_at (0, []))))"
proof -
  obtain t where t: "run_state (node_unstage_volume (watched_server clock_server) ''d1'' ''/s'') (memory_at (0, [])) =
      (Inl (err Aborted), t)" "sv_busy t = [''d1'' \<mapsto> 0]"
    using aborted_unstage by blast
  define l where "l = server_trace (recover_volume (watched_server clock_server) ''d1'' False) t (seconds 700)"
  have l: "4 < length l" "graceful (l ! 4)"
    using swept_trace [OF t(2)] by (auto simp: l_def)
  from recovery_waits_for_retry [OF disjI2 [OF refl] t(1) _ l_def l] t(1) l_def l(2)
  show ?thesis by (auto simp: err_def code_of_def)
qed

end
