(* ===== verification/Node_Isolation.thy ===== *)
theory Node_Isolation
  imports Node_Stage
begin

text \<open>
  Volumes do not disturb each other on a node: whatever a call of kubelet or a repair does for one volume,
  what the plugin remembers of the others (their marks, their give-ups, their restart states) stays
  as it is. This is what lets the node plugin run them at the same time under one lock per volume,
  and the rounds of the recovery be modelled as a sequence.
\<close>

subsection \<open>What is remembered of a volume\<close>

definition memory_of :: "'w server \<Rightarrow> string \<Rightarrow> int option \<times> int option \<times> backoff_entry option" where
  "memory_of s u = (sv_busy s u, sv_gave_up s u, node_backoffs (sv_node s) u)"

text \<open>
  The pods of the cluster carry the volume they were made for: a pod of the driver's namespace read under the
  name of the volume \<open>v\<close> on this node has the annotation of \<open>v\<close>, and the API returns a pod it created with
  the annotation it was given. The name is a truncated hash, so this is only asked of the volumes that a
  run is about: none of them shares its 64 bits with another volume that has a pod.
\<close>

definition pods_named :: "('w, 'q) node_server \<Rightarrow> string \<Rightarrow> bool" where
  "pods_named S v \<longleftrightarrow>
     (\<forall>w p. fst (run_state (k_get_pod (ns_cluster S) (cfg_namespace (ns_config S))
         (mount_pod_name (ns_codec S) (ns_node S) v)) w) = Inr p \<longrightarrow> pod_annotation p label_volume = v) \<and>
     (\<forall>p w q. fst (run_state (k_create_pod (ns_cluster S) (cfg_namespace (ns_config S)) p) w) = Inr q \<longrightarrow>
        pod_annotation p label_volume = v \<longrightarrow> pod_annotation q label_volume = v)"

definition of_volume :: "string \<Rightarrow> 'q pod option \<Rightarrow> bool" where
  "of_volume v p \<longleftrightarrow> (\<forall>q. p = Some q \<longrightarrow> pod_annotation q label_volume = v)"

subsection \<open>The Manager\<close>

abbreviation entry_is :: "string \<Rightarrow> backoff_entry option \<Rightarrow> 'w node \<Rightarrow> bool" where
  "entry_is u R \<equiv> (\<lambda>n. node_backoffs n u = R)"

lemma entry_world: "keeps (entry_is u R) (on_world m)"
  by (auto simp: keeps_def triple_def on_world_def split: prod.split)

lemma entry_update: "(\<And>m. f m u = m u) \<Longrightarrow> keeps (entry_is u R) (update_backoffs f)"
  by (auto simp: keeps_def triple_def update_backoffs_def on_backoffs_def)

lemma entry_on:
  assumes "\<And>m. snd (f m) u = m u"
  shows "keeps (entry_is u R) (on_backoffs f)"
proof (rule keepsI)
  show "node_backoffs n u = R \<Longrightarrow> node_backoffs (snd (run_state (on_backoffs f) n)) u = R" for n
    using assms [of "node_backoffs n"] by (auto simp: on_backoffs_def split: prod.split)
qed

lemma keeps_prod: "(\<And>a b. x = (a, b) \<Longrightarrow> keeps P (f a b)) \<Longrightarrow> keeps P (case x of (a, b) \<Rightarrow> f a b)"
  by (cases x) simp

lemma other_entries:
  assumes "u \<noteq> v"
  shows "snd (record_exit cfg rnd now v h st uid code msg lasted m) u = m u" "snd (backoff_state v h m) u = m u"
    "reset_backoff v m u = m u" "forget v m u = m u" "start_over v h m u = m u" "forget_all v m u = m u"
  using assms by (auto simp: backoff_ops backoff_for_case Let_def split: option.split)

lemma entry_ops:
  assumes "u \<noteq> v"
  shows "keeps (entry_is u R) (on_backoffs (backoff_state v h))" "keeps (entry_is u R) (update_backoffs (forget v))"
    "keeps (entry_is u R) (update_backoffs (forget_all v))" "keeps (entry_is u R) (update_backoffs (start_over v h))"
    "keeps (entry_is u R) (update_backoffs (reset_backoff v))"
    "keeps (entry_is u R) (count_exit K cfg v h st)"
  unfolding count_exit_def Let_def
  by (intro wp entry_world entry_on entry_update other_entries [OF assms]; simp add: other_entries [OF assms])+

lemma entry_finished: "keeps (entry_is u R) (finished K p)"
  by (auto simp: finished_def split: option.split intro!: wp entry_world)

lemma entry_secrets:
  "keeps (entry_is u R) (delete_secrets K C cfg n v only)" "keeps (entry_is u R) (delete_secret K cfg name)"
  "keeps (entry_is u R) (own_secret K cfg p)"
proof -
  show secret: "keeps (entry_is u R) (delete_secret K cfg name)" for name
    by (auto simp: delete_secret_def intro!: wp entry_world)
  have "keeps (entry_is u R) (delete_loop K cfg skip ss)" for skip ss
    by (induction ss) (auto intro!: wp secret)
  then show "keeps (entry_is u R) (delete_secrets K C cfg n v only)"
    by (auto simp: delete_secrets_def intro!: wp entry_world)
  show "keeps (entry_is u R) (own_secret K cfg p)"
    by (auto simp: own_secret_def Let_def split: sum.split api_failure.split intro!: wp entry_world)
qed

lemma entry_release: "keeps (entry_is u R) (release K cfg p)"
  by (auto simp: release_def remove_finalizer_def Let_def split: option.split intro!: wp entry_world keeps_prod)

lemma entry_get: "keeps (entry_is u R) (get_state K C cfg n v)"
  by (auto simp: get_state_def Let_def intro!: wp entry_world)

lemmas entry_rules = wp keeps_prod entry_world entry_finished entry_secrets entry_release entry_get

lemma entry_ready: "u \<noteq> v \<Longrightarrow> of_volume v p \<Longrightarrow> keeps (entry_is u R) (ready K p)"
  by (auto simp: ready_def of_volume_def Let_def split: option.split intro!: entry_rules entry_ops)

lemma entry_delete: "u \<noteq> v \<Longrightarrow> keeps (entry_is u R) (delete_pod K C cfg n v)"
  by (auto simp: delete_pod_def delete_finished_def delete_running_def split: option.split
      intro!: entry_rules entry_ops entry_update other_entries)

lemma entry_spec_of: "keeps (entry_is u R) (spec_of K C cfg st c)"
  by (auto simp: spec_of_def split: option.split intro!: entry_rules)

lemma entry_ensure:
  assumes "u \<noteq> volume_id s"
  shows "keeps (entry_is u R) (ensure K C cfg s)"
proof -
  note ops = entry_rules entry_ops [OF assms]
  have create: "keeps (entry_is u R) (create_pod K C cfg s h)" for h
    by (auto simp: create_pod_def create_objects_def Let_def split: option.split intro!: ops)
  have switch: "keeps (entry_is u R) (ensure_switch K cfg st b d p)" for st b d p
    by (auto simp: ensure_switch_def replace_finished_def intro!: ops)
  have existing: "keeps (entry_is u R) (ensure_existing K cfg s h p)" for h p
    by (auto simp: ensure_existing_def Let_def intro!: ops switch)
  have new: "keeps (entry_is u R) (ensure_new K C cfg s h)" for h
    by (auto simp: ensure_new_def intro!: ops create)
  show ?thesis
    by (auto simp: ensure_def Let_def split: sum.split option.split intro!: ops existing new)
qed

subsection \<open>Which pod an answer is about\<close>

text \<open>What every value that \<open>m\<close> returns satisfies.\<close>

definition yields :: "('s, 'a) state \<Rightarrow> ('a \<Rightarrow> bool) \<Rightarrow> bool" where
  "yields m Q \<longleftrightarrow> (\<forall>s. Q (fst (run_state m s)))"

lemma yields_bind:
  assumes "yields m P" and "\<And>x. P x \<Longrightarrow> yields (f x) Q"
  shows "yields (State_Monad.bind m f) Q"
proof -
  have "Q (fst (run_state (State_Monad.bind m f) s))" for s
  proof -
    have "P (fst (run_state m s))" using assms(1) by (simp add: yields_def)
    from assms(2) [OF this] show ?thesis by (simp add: yields_def case_prod_beta)
  qed
  then show ?thesis by (simp add: yields_def)
qed

lemma yields_then: "(\<And>x. yields (f x) Q) \<Longrightarrow> yields (State_Monad.bind m f) Q"
  by (rule yields_bind [where P = "\<lambda>_. True"]) (simp_all add: yields_def)

lemma yields_return: "Q x \<Longrightarrow> yields (State_Monad.return x) Q"
  by (simp add: yields_def)

lemma yields_if: "(b \<Longrightarrow> yields m Q) \<Longrightarrow> (\<not> b \<Longrightarrow> yields n Q) \<Longrightarrow> yields (if b then m else n) Q"
  by simp

lemma yields_prod: "(\<And>a b. x = (a, b) \<Longrightarrow> yields (f a b) Q) \<Longrightarrow> yields (case x of (a, b) \<Rightarrow> f a b) Q"
  by (cases x) simp

lemma keeps_yields:
  assumes "keeps P m" and "yields m Q" and "\<And>x. Q x \<Longrightarrow> keeps P (f x)"
  shows "keeps P (State_Monad.bind m f)"
proof (rule keepsI)
  fix s assume "P s"
  then have "P (snd (run_state m s))" by (rule keepsD [OF assms(1)])
  moreover have "Q (fst (run_state m s))" using assms(2) by (simp add: yields_def)
  ultimately show "P (snd (run_state (State_Monad.bind m f) s))"
    using keepsD [OF assms(3)] by (simp add: case_prod_beta)
qed

definition answer_for :: "string \<Rightarrow> 'q answer \<Rightarrow> bool" where
  "answer_for v a \<longleftrightarrow> of_volume v (st_pod (fst a))"

lemma answer_for_simps [simp]:
  "answer_for v (st, e) \<longleftrightarrow> of_volume v (st_pod st)" "of_volume v None"
  "of_volume v (Some p) \<longleftrightarrow> pod_annotation p label_volume = v"
  "of_volume v (st_pod (state_of p)) \<longleftrightarrow> pod_annotation p label_volume = v"
  "st_pod no_state = None"
  by (simp_all add: answer_for_def of_volume_def state_of_fields no_state_def)

lemma yields_read:
  assumes "pods_named S v"
  shows "yields (on_world (k_get_pod (node_cluster S) (cfg_namespace (ns_config S))
      (mount_pod_name (ns_codec S) (ns_node S) v))) (\<lambda>r. \<forall>p. r = Inr p \<longrightarrow> pod_annotation p label_volume = v)"
  using assms by (auto simp: yields_def pods_named_def on_world_def node_cluster_def split: prod.split) (metis fst_conv)

lemma yields_create:
  assumes "pods_named S (volume_id s)"
  shows "yields (on_world (k_create_pod (node_cluster S) (cfg_namespace (ns_config S)) (build_pod C cfg s h sec)))
    (\<lambda>r. \<forall>p. r = Inr p \<longrightarrow> pod_annotation p label_volume = volume_id s)"
proof -
  have "pod_annotation (build_pod C cfg s h sec) label_volume = volume_id s"
    using built_annotations(1) [of C cfg s h sec] by (simp add: pod_annotation_def)
  then have "pod_annotation q label_volume = volume_id s"
    if "fst (run_state (k_create_pod (ns_cluster S) (cfg_namespace (ns_config S)) (build_pod C cfg s h sec)) w) = Inr q" for w q
    using assms that unfolding pods_named_def by blast
  then show ?thesis by (auto simp: yields_def on_world_def node_cluster_def split: prod.split) (metis fst_conv)
qed

lemma yields_release:
  "yields (release K cfg p) (\<lambda>r. om_annotations (pod_meta (fst r)) = om_annotations (pod_meta p))"
proof -
  have fin: "yields (remove_finalizer K p) (\<lambda>r. om_annotations (pod_meta (fst r)) = om_annotations (pod_meta p))"
    by (auto simp: remove_finalizer_def Let_def intro!: yields_then yields_return yields_if split: sum.split)
  show ?thesis
    unfolding release_def
    by (rule yields_bind [OF fin])
      (auto intro!: yields_then yields_return split: option.split sum.split)
qed

lemma yields_get:
  assumes "pods_named S v"
  shows "yields (get_state (node_cluster S) (ns_codec S) (ns_config S) (ns_node S) v)
    (\<lambda>a. answer_for v a \<and> (snd a = None \<longrightarrow> st_volume (fst a) = v))"
  unfolding get_state_def Let_def
  by (rule yields_bind [OF yields_read [OF assms]])
    (auto intro!: yields_return simp: state_of_fields no_state_def split: sum.split api_failure.split)

lemma yields_ensure:
  assumes "pods_named S (volume_id s)" and "node_name s = ns_node S"
  shows "yields (ensure (node_cluster S) (ns_codec S) (ns_config S) s) (answer_for (volume_id s))"
proof -
  let ?K = "node_cluster S" and ?Q = "answer_for (volume_id s)"
  note read = yields_read [OF assms(1), folded assms(2)]
  have absent: "?Q (absent_state C s b, e)" for C b e by (simp add: absent_state_def)
  have objects: "yields (create_objects ?K (ns_codec S) (ns_config S) s h) ?Q" for h
    unfolding create_objects_def Let_def
    by (auto intro!: yields_then yields_return yields_bind [OF yields_create [OF assms(1)]]
        split: sum.split option.split)
  have create: "yields (create_pod ?K (ns_codec S) (ns_config S) s h) ?Q" for h
    unfolding create_pod_def
    by (rule yields_bind [OF read]) (auto intro!: yields_return objects split: sum.split simp: Let_def)
  have new: "yields (ensure_new ?K (ns_codec S) (ns_config S) s h) ?Q" for h
    unfolding ensure_new_def by (auto intro!: yields_then yields_return create absent)
  have switch: "yields (ensure_switch ?K (ns_config S) st b d p) (\<lambda>a. \<forall>x. a = Some x \<longrightarrow> ?Q x)"
    if "st_pod st = Some p" "pod_annotation p label_volume = volume_id s" for st b d p
    unfolding ensure_switch_def replace_finished_def
    using that
    by (auto intro!: yields_then yields_return yields_if yields_bind [OF yields_release]
        simp: pod_annotation_def split: option.splits)
  have existing: "yields (ensure_existing ?K (ns_config S) s h p) (\<lambda>a. \<forall>x. a = Some x \<longrightarrow> ?Q x)"
    if "pod_annotation p label_volume = volume_id s" for h p
    unfolding ensure_existing_def Let_def
    by (intro yields_then switch) (simp_all add: state_of_fields that)
  show ?thesis
    unfolding ensure_def Let_def
    by (auto intro!: yields_return yields_bind [OF read] new yields_bind [OF existing] split: sum.split option.split)
qed

subsection \<open>The server\<close>

type_synonym memory = "int option \<times> int option \<times> backoff_entry option"

abbreviation memory_is :: "string \<Rightarrow> memory \<Rightarrow> 'w server \<Rightarrow> bool" where
  "memory_is u M \<equiv> (\<lambda>s. memory_of s u = M)"

lemma memory_node: "(\<And>R. keeps (entry_is u R) m) \<Longrightarrow> keeps (memory_is u M) (on_node m)"
proof (rule keepsI)
  fix s :: "'a server"
  assume m: "\<And>R. keeps (entry_is u R) m" and s: "memory_of s u = M"
  have "node_backoffs (snd (run_state m (sv_node s))) u = node_backoffs (sv_node s) u"
    by (rule keepsD [OF m]) simp
  then show "memory_of (snd (run_state (on_node m) s)) u = M"
    using s by (simp add: memory_of_def run_on_node case_prod_beta)
qed

lemma memory_host: "keeps (memory_is u M) (on_host m)"
  unfolding on_host_def by (rule memory_node) (rule entry_world)

lemma memory_sets:
  "u \<noteq> v \<Longrightarrow> keeps (memory_is u M) (set_busy (\<lambda>m. m(v \<mapsto> x)))"
  "u \<noteq> v \<Longrightarrow> keeps (memory_is u M) (set_busy (\<lambda>m. m(v := None)))"
  "u \<noteq> v \<Longrightarrow> keeps (memory_is u M) (set_gave_up (\<lambda>m. m(v \<mapsto> x)))"
  "u \<noteq> v \<Longrightarrow> keeps (memory_is u M) (set_gave_up (\<lambda>m. m(v := None)))"
  "keeps (memory_is u M) (set_reported f)" "keeps (memory_is u M) (read_server g)"
  "keeps (memory_is u M) (State (\<lambda>s. ((), s\<lparr>sv_dir_unreadable := h s\<rparr>)))"
  by (auto simp: keeps_def triple_def memory_of_def)

lemmas memory_rules = wp keeps_prod memory_host memory_sets

lemma memory_event: "keeps (memory_is u M) (record_event S ob n)"
  by (auto simp: record_event_def split: option.split intro!: memory_rules)

lemma memory_claim: "keeps (memory_is u M) (claim_ref S ns n)"
  by (auto simp: claim_ref_def split: option.split intro!: memory_rules)

lemma memory_reports:
  "keeps (memory_is u M) (report_exit S st)" "keeps (memory_is u M) (report_exit_early S st)"
proof -
  have "keeps (memory_is u M) (emit_exit S st code)" for code
    by (auto simp: emit_exit_def split: option.split intro!: memory_rules memory_claim memory_event)
  then show "keeps (memory_is u M) (report_exit S st)" "keeps (memory_is u M) (report_exit_early S st)"
    by (auto simp: report_exit_def report_exit_early_def split: option.split intro!: memory_rules)
qed

lemma memory_calls:
  "u \<noteq> v \<Longrightarrow> keeps (memory_is u M) (ns_delete S v)" "keeps (memory_is u M) (ns_get S v)"
  "u \<noteq> volume_id s \<Longrightarrow> keeps (memory_is u M) (ns_ensure S s)" "keeps (memory_is u M) (ns_clock S)"
  "keeps (memory_is u M) (published_at S v)" "keeps (memory_is u M) (is_busy S v)"
  "keeps (memory_is u M) (kubelet_staged S p)" "keeps (memory_is u M) (healthy S p)"
  "u \<noteq> v \<Longrightarrow> of_volume v p' \<Longrightarrow> keeps (memory_is u M) (on_node (ready K p'))"
  "u \<noteq> v \<Longrightarrow> keeps (memory_is u M) (on_node (update_backoffs (forget_all v)))"
  "u \<noteq> v \<Longrightarrow> keeps (memory_is u M) (on_node (delete_pod K C cfg n v))"
  by (auto simp: ns_delete_def ns_get_def ns_ensure_def ns_clock_def published_at_def is_busy_def kubelet_staged_def
      driver_dir_readable_def healthy_def Let_def
      intro!: memory_rules memory_node entry_delete entry_get entry_ensure entry_ready entry_ops)

lemmas memory_ops = memory_rules memory_event memory_claim memory_reports memory_calls

text \<open>What the calls through the Manager answer.\<close>

lemma yields_node: "yields m Q \<Longrightarrow> yields (on_node m) Q"
  by (simp add: yields_def run_on_node case_prod_beta)

lemma yields_ns_get:
  "pods_named S v \<Longrightarrow> yields (ns_get S v) (\<lambda>a. answer_for v a \<and> (snd a = None \<longrightarrow> st_volume (fst a) = v))"
  unfolding ns_get_def by (intro yields_node yields_get)

lemma yields_ns_ensure:
  "pods_named S (volume_id s) \<Longrightarrow> node_name s = ns_node S \<Longrightarrow> yields (ns_ensure S s) (answer_for (volume_id s))"
  unfolding ns_ensure_def by (intro yields_node yields_ensure)

lemma yields_spec_of:
  "yields (spec_of K C cfg st c) (\<lambda>r. \<forall>s. r = Inr s \<longrightarrow> volume_id s = st_volume st)"
  unfolding spec_of_def
  by (auto intro!: yields_then yields_return split: option.split sum.splits)

lemma memory_spec_of: "keeps (memory_is u M) (on_node (spec_of K C cfg st c))"
  by (rule memory_node) (rule entry_spec_of)

subsection \<open>The recovery of a volume\<close>

lemma memory_gave_up: "u \<noteq> st_volume st \<Longrightarrow> keeps (memory_is u M) (report_gave_up S st nst e)"
  by (auto simp: report_gave_up_def intro!: memory_ops)

lemma memory_orphan: "u \<noteq> st_volume st \<Longrightarrow> keeps (memory_is u M) (delete_orphan S st)"
  by (auto simp: delete_orphan_def split: option.split intro!: memory_ops)

lemma memory_running:
  "u \<noteq> v \<Longrightarrow> of_volume v (st_pod st) \<Longrightarrow> keeps (memory_is u M) (recover_running S infos v st)"
  by (auto simp: recover_running_def intro!: memory_ops)

lemma memory_ended:
  assumes "u \<noteq> v" and "st_volume st = v"
  shows "keeps (memory_is u M) (recover_ended S v st)"
proof -
  have rest: "keeps (memory_is u M) (case r of
      Inl e \<Rightarrow> State_Monad.return (metric_state (st_phase st), zero_time, Some (ManagerFailed e))
    | Inr s \<Rightarrow> g s)" if "\<forall>s. r = Inr s \<longrightarrow> volume_id s = st_volume st"
    "\<And>s. volume_id s = v \<Longrightarrow> keeps (memory_is u M) (g s)" for r g
    using that assms by (auto split: sum.split intro: wp)
  show ?thesis
    unfolding recover_ended_def
    by (rule wp memory_ops keeps_yields [OF memory_spec_of yields_node [OF yields_spec_of]] rest | assumption)+
      (use assms in \<open>auto split: option.split manager_error.split intro!: memory_ops memory_gave_up\<close>)
qed

lemma memory_found:
  assumes "u \<noteq> v" and "st_volume st = v" and "of_volume v (st_pod st)"
  shows "keeps (memory_is u M) (recover_found S v staged st)"
  unfolding recover_found_def recover_idle_def recover_choice_def
  using assms
  by (auto split: sum.split intro!: memory_ops memory_orphan memory_running memory_ended)

lemma memory_recover:
  assumes "pods_named S v" and "u \<noteq> v"
  shows "keeps (memory_is u M) (recover_volume S v staged)"
  unfolding recover_volume_def
  by (rule keeps_yields [OF memory_calls(2) yields_ns_get [OF assms(1)]])
    (use assms(2) in \<open>auto split: option.split intro!: memory_ops memory_found\<close>)

subsection \<open>The calls of kubelet\<close>

lemma memory_ready:
  "u \<noteq> v \<Longrightarrow> of_volume v (st_pod st) \<Longrightarrow> keeps (memory_is u M) (check_ready S st)"
  by (auto simp: check_ready_def split: phase.split intro!: memory_ops)

lemma memory_recreate: "u \<noteq> volume_id s \<Longrightarrow> keeps (memory_is u M) (recreate S s)"
  by (auto simp: recreate_def split: option.split intro!: memory_ops)

lemma memory_round:
  assumes "u \<noteq> volume_id s" and "of_volume (volume_id s) (st_pod st)"
  shows "keeps (memory_is u M) (round_pod S s claim st)"
proof -
  have ready: "keeps (memory_is u M) (round_ready S st)"
    unfolding round_ready_def using assms by (auto intro!: memory_ops memory_ready)
  have changed: "keeps (memory_is u M) (round_changed S s claim st)"
    unfolding round_changed_def using assms(1)
    by (auto split: sum.split intro!: memory_ops memory_recreate ready)
  show ?thesis
    unfolding round_pod_def restage_def Let_def using assms(1)
    by (auto intro!: memory_ops memory_recreate ready changed)
qed

lemma memory_stage_gave_up: "u \<noteq> volume_id s \<Longrightarrow> keeps (memory_is u M) (stage_gave_up S claim s st)"
  by (auto simp: stage_gave_up_def intro!: memory_ops)

lemma memory_ensure_round:
  assumes "pods_named S (volume_id s)" and "u \<noteq> volume_id s" and "node_name s = ns_node S"
  shows "keeps (memory_is u M) (ensure_round S s claim)"
  unfolding ensure_round_def
  by (rule keeps_yields [OF memory_calls(3) [OF assms(2)] yields_ns_ensure [OF assms(1,3)]])
    (use assms(2) in \<open>auto simp: Let_def split: option.split manager_error.split
      intro!: memory_ops memory_stage_gave_up memory_round\<close>)

lemma memory_ensure_mounted:
  assumes "pods_named S (volume_id s)" and "u \<noteq> volume_id s" and "node_name s = ns_node S"
  shows "keeps (memory_is u M) (ensure_mounted S s claim)"
proof -
  have "keeps (memory_is u M) (ensure_loop S s claim n st)" for n st
    by (induction n arbitrary: st) (auto split: sum.split intro!: wp memory_ensure_round [OF assms])
  then show ?thesis by (simp add: ensure_mounted_def)
qed

lemma keeps_attempt_yields:
  assumes "keeps P m" and "yields m Q" and "\<And>x. Q (Inr x) \<Longrightarrow> keeps P (k x)"
  shows "keeps P (attempt m f k)"
  unfolding attempt_def
  by (rule keeps_yields [OF assms(1,2)]) (auto split: sum.split intro: wp assms(3))

lemma memory_stage_spec:
  "keeps (memory_is u M) (stage_spec S req)"
  unfolding stage_spec_def stage_claim_def stage_credentials_def Let_def
  by (auto split: option.split intro!: memory_ops)

lemma yields_attempt:
  assumes "\<And>e. Q (Inl e)" and "\<And>x. yields (k x) Q"
  shows "yields (attempt m f k) Q"
  unfolding attempt_def by (rule yields_then) (auto split: sum.split intro: yields_return assms)

lemma yields_stage_spec:
  "yields (stage_spec S req) (\<lambda>r. \<forall>s c. r = Inr (s, c) \<longrightarrow>
     volume_id s = sr_volume req \<and> node_name s = ns_node S)"
  unfolding stage_spec_def
  by (auto simp: check_def intro!: yields_attempt yields_return split: sum.split)

lemma memory_stage:
  assumes "pods_named S (sr_volume req)" and "u \<noteq> sr_volume req"
  shows "keeps (memory_is u M) (stage S req)"
proof -
  have "keeps (memory_is u M) (ensure_mounted S s claim)" if "volume_id s = sr_volume req \<and> node_name s = ns_node S" for s claim
    using memory_ensure_mounted [of S s u] assms that by simp
  then show ?thesis
    unfolding stage_def check_staged_def
    by (intro keeps_attempt_yields [OF memory_stage_spec yields_stage_spec])
      (use assms(2) in \<open>auto split: prod.split intro!: memory_ops\<close>)
qed

lemma memory_marked:
  assumes "u \<noteq> v" and "keeps (memory_is u M) m"
  shows "keeps (memory_is u M) (marked S v m)"
  unfolding marked_def mark_busy_def clear_busy_def using assms
  by (auto split: sum.split intro!: memory_ops)

lemma memory_unstage: "u \<noteq> v \<Longrightarrow> keeps (memory_is u M) (unstage S v staging)"
  by (auto simp: unstage_def split: option.split intro!: memory_ops)

lemma memory_repair:
  "pods_named S v \<Longrightarrow> u \<noteq> v \<Longrightarrow> keeps (memory_is u M) (repair_staging S v staging)"
  by (auto simp: repair_staging_def split: option.split intro!: memory_ops memory_recover)

lemma memory_prune: "u \<noteq> v \<Longrightarrow> keeps (memory_is u M) (prune_volume S v staging)"
  by (auto simp: prune_volume_def split: option.split intro!: memory_ops)

lemma memory_stats:
  assumes "pods_named S v" and "u \<noteq> v"
  shows "keeps (memory_is u M) (node_get_volume_stats S v p)"
proof -
  have "keeps (memory_is u M) (volume_condition S v)"
    unfolding volume_condition_def
    by (rule keeps_yields [OF memory_calls(2) yields_ns_get [OF assms(1)]])
      (use assms(2) in \<open>auto split: option.split intro!: memory_ops\<close>)
  then show ?thesis
    unfolding node_get_volume_stats_def by (auto split: prod.split intro!: memory_ops)
qed

subsection \<open>Every operation\<close>

datatype node_op =
    Stage stage_request
  | Unstage string
  | Publish string string bool
  | Unpublish string
  | Stats string
  | Recover_pod
  | Prune string

text \<open>What an operation on the volume \<open>v\<close> leaves of the server.\<close>

definition node_step :: "('w, 'q) node_server \<Rightarrow> string \<Rightarrow> node_op \<Rightarrow> 'w server \<Rightarrow> 'w server" where
  "node_step S v x s =
     (case x of
        Stage req \<Rightarrow> snd (run_state (node_stage_volume S (req\<lparr>sr_volume := v\<rparr>)) s)
      | Unstage staging \<Rightarrow> snd (run_state (node_unstage_volume S v staging) s)
      | Publish source target read_only \<Rightarrow> snd (run_state (node_publish_volume S v source target read_only) s)
      | Unpublish target \<Rightarrow> snd (run_state (node_unpublish_volume S target) s)
      | Stats p \<Rightarrow> snd (run_state (node_get_volume_stats S v p) s)
      | Recover_pod \<Rightarrow> snd (run_state (recover_volume S v False) s)
      | Prune staging \<Rightarrow> snd (run_state (prune_volume S v staging) s))"

lemma memory_kept: "(\<And>M. keeps (memory_is u M) m) \<Longrightarrow> memory_of (snd (run_state m s)) u = memory_of s u"
  using keepsD [of "memory_is u (memory_of s u)" m s] by simp

lemma node_step_frame:
  assumes "pods_named S v" and "v \<noteq> u"
  shows "memory_of (node_step S v x s) u = memory_of s u"
proof -
  note uv = assms(2) [symmetric]
  have "keeps (memory_is u M) (node_stage_volume S (req\<lparr>sr_volume := v\<rparr>))" for M req
    using uv by (auto simp: node_stage_volume_def intro!: memory_ops memory_marked memory_stage assms(1))
  moreover have "keeps (memory_is u M) (node_unstage_volume S v staging)" for M staging
    using uv by (auto simp: node_unstage_volume_def intro!: memory_ops memory_marked memory_unstage)
  moreover have "keeps (memory_is u M) (node_publish_volume S v p q ro)" for M p q ro
    using uv by (auto simp: node_publish_volume_def intro!: memory_ops memory_repair assms(1))
  moreover have "keeps (memory_is u M) (node_unpublish_volume S p)" for M p
    by (auto simp: node_unpublish_volume_def intro!: memory_ops)
  ultimately show ?thesis
    by (cases x) (simp_all add: node_step_def memory_kept memory_stats memory_recover memory_prune assms(1) uv)
qed

interpretation node: volume_frame pods_named node_step memory_of
  by unfold_locales (rule node_step_frame)

subsection \<open>The retries of kubelet\<close>

text \<open>Only a stage or an unstage of a volume touches its mark: the recovery, the publishes and the prunes read it.\<close>

fun is_call :: "node_op \<Rightarrow> bool" where
  "is_call (Stage _) \<longleftrightarrow> True"
| "is_call (Unstage _) \<longleftrightarrow> True"
| "is_call _ \<longleftrightarrow> False"

lemma marks_kept_readers:
  "keeps (marks_are B) (ns_get S v)" "keeps (marks_are B) (is_busy S v)" "keeps (marks_are B) (kubelet_staged S p)"
  "keeps (marks_are B) (healthy S p)"
proof -
  have dir: "keeps (marks_are B) (State (\<lambda>s. ((), s\<lparr>sv_dir_unreadable := h s\<rparr>)))" for h
    by (simp add: keeps_def triple_def)
  show "keeps (marks_are B) (ns_get S v)" "keeps (marks_are B) (is_busy S v)" "keeps (marks_are B) (kubelet_staged S p)"
    "keeps (marks_are B) (healthy S p)"
    by (auto simp: ns_get_def is_busy_def kubelet_staged_def driver_dir_readable_def healthy_def Let_def
        split: option.split intro!: marks_rules dir)
qed

lemmas marks_ops = marks_rules marks_kept_readers

lemma marks_kept_recover: "keeps (marks_are B) (recover_volume S v staged)"
proof -
  have gave_up: "keeps (marks_are B) (report_gave_up S st nst e)" for st nst e
    by (auto simp: report_gave_up_def claim_ref_def split: option.split intro!: marks_ops marks_kept_event)
  have ended: "keeps (marks_are B) (recover_ended S v st)" for st
    by (auto simp: recover_ended_def split: sum.split option.split manager_error.split prod.split
        intro!: marks_ops gave_up)
  have running: "keeps (marks_are B) (recover_running S infos v st)" for infos st
    by (auto simp: recover_running_def intro!: marks_ops)
  have orphan: "keeps (marks_are B) (delete_orphan S st)" for st
    by (auto simp: delete_orphan_def split: option.split prod.split intro!: marks_ops)
  show ?thesis
    by (auto simp: recover_volume_def recover_found_def recover_idle_def recover_choice_def
        split: option.split sum.split prod.split intro!: marks_ops ended running orphan)
qed

lemma marks_kept_others:
  "keeps (marks_are B) (node_publish_volume S v p q ro)" "keeps (marks_are B) (node_unpublish_volume S p)"
  "keeps (marks_are B) (node_get_volume_stats S v p)" "keeps (marks_are B) (prune_volume S v p)"
proof -
  have "keeps (marks_are B) (repair_staging S v q)" for q
    by (auto simp: repair_staging_def split: option.split sum.split prod.split
        intro!: marks_ops marks_kept_recover)
  then show "keeps (marks_are B) (node_publish_volume S v p q ro)"
    by (auto simp: node_publish_volume_def intro!: marks_ops)
  show "keeps (marks_are B) (node_unpublish_volume S p)" "keeps (marks_are B) (prune_volume S v p)"
    by (auto simp: node_unpublish_volume_def prune_volume_def split: option.split prod.split intro!: marks_ops)
  show "keeps (marks_are B) (node_get_volume_stats S v p)"
    by (auto simp: node_get_volume_stats_def volume_condition_def split: option.split prod.split intro!: marks_ops)
qed

lemma marked_other:
  assumes "\<And>B. keeps (marks_are B) m" and "u \<noteq> v"
  shows "sv_busy (snd (run_state (marked S u m) s)) v = sv_busy s v"
proof -
  obtain r t where "run_state (marked S u m) s = (r, t)" by fastforce
  moreover have "sv_busy (snd (run_state (mark_busy S u) s)) v = sv_busy s v"
    using assms(2) by (simp add: mark_busy_def run_on_host split: prod.split)
  ultimately show ?thesis using marked_marks [OF assms(1)] assms(2) by fastforce
qed

lemma marks_after: "(\<And>B. keeps (marks_are B) m) \<Longrightarrow> sv_busy (snd (run_state m s)) = sv_busy s"
  using keepsD [of "marks_are (sv_busy s)" m s] by simp

lemma node_step_marks: "\<not> is_call x \<Longrightarrow> sv_busy (node_step S u x s) = sv_busy s"
  by (cases x) (simp_all add: node_step_def marks_after marks_kept_others marks_kept_recover)

lemma node_step_mark:
  assumes "u \<noteq> v \<or> \<not> is_call x"
  shows "sv_busy (node_step S u x s) v = sv_busy s v"
proof (cases "is_call x")
  case False
  then show ?thesis by (simp add: node_step_marks)
next
  case True
  then show ?thesis
    using assms
    by (cases x) (auto simp: node_step_def node_stage_volume_def node_unstage_volume_def run_guarded
        intro!: marked_other marks_kept_stage marks_kept_unstage)
qed

lemma mark_stays:
  "(\<And>x. (v, x) \<in> set ops \<Longrightarrow> \<not> is_call x) \<Longrightarrow> sv_busy (run_ops (node_step S) ops s) v = sv_busy s v"
proof (induction ops arbitrary: s)
  case (Cons p ops)
  obtain u x where p: "p = (u, x)" by (cases p)
  have "sv_busy (node_step S u x s) v = sv_busy s v"
    by (rule node_step_mark) (use Cons.prems p in auto)
  then show ?case using Cons p by simp
qed simp

text \<open>
  C16. A pod being started or drained for kubelet is left to kubelet, whatever else happens on the node: when a
  stage or an unstage of a volume ends with Aborted, to be retried, then after any sequence of recoveries,
  publishes and prunes of any volumes and of stages and unstages of the others, a repair of the volume
  asks its mount pod to stop only after the clock shows ten minutes since the call began.
\<close>

theorem retry_window:
  assumes "m = node_stage_volume (watched_server S) req \<and> v = sr_volume req \<or>
      m = node_unstage_volume (watched_server S) v p"
    and "run_state m s = (Inl e, t)" and "code_of e = Aborted"
    and "\<And>x. (v, x) \<in> set ops \<Longrightarrow> \<not> is_call x"
    and "l = server_trace (recover_volume (watched_server S) v staged) (run_ops (node_step (watched_server S)) ops t) w"
    and "i < length l" and "graceful (l ! i)"
  shows "\<exists>now. Clock now \<in> set (take i l) \<and> busy_for \<le> time_sub now (mark_time S s)"
proof -
  let ?u = "run_ops (node_step (watched_server S)) ops t"
  have "sv_busy ?u v = sv_busy t v" using assms(4) by (rule mark_stays)
  then have "sv_busy ?u v = Some (mark_time S s)"
    using node_call_marks [OF assms(1-3)] by (simp add: run_mark_watched)
  then show ?thesis by (rule stop_waits_for_mark) (use assms(5-7) in auto)
qed

theorem retry_window_witness:
  "\<exists>t l. run_state (node_unstage_volume (watched_server clock_server) ''d1'' ''/s'') (memory_at (0, [])) =
       (Inl (err Aborted), t) \<and>
     l = server_trace (recover_volume (watched_server clock_server) ''d1'' False)
       (run_ops (node_step (watched_server clock_server)) [(''d1'', Recover_pod), (''d2'', Prune ''/t'')] t) (seconds 700) \<and>
     graceful (l ! 4) \<and>
     (\<exists>now. Clock now \<in> set (take 4 l) \<and> busy_for \<le> time_sub now (mark_time clock_server (memory_at (0, []))))"
proof -
  let ?ops = "[(''d1'', Recover_pod), (''d2'', Prune ''/t'')]"
  obtain t where t: "run_state (node_unstage_volume (watched_server clock_server) ''d1'' ''/s'') (memory_at (0, [])) =
      (Inl (err Aborted), t)" "sv_busy t = [''d1'' \<mapsto> 0]"
    using aborted_unstage by blast
  define u where "u = run_ops (node_step (watched_server clock_server)) ?ops t"
  define l where "l = server_trace (recover_volume (watched_server clock_server) ''d1'' False) u (seconds 700)"
  have "sv_busy u = [''d1'' \<mapsto> 0]" using t(2) by (simp add: u_def node_step_marks)
  then have l: "4 < length l" "graceful (l ! 4)" using swept_trace [of u] by (auto simp: l_def)
  have "(''d1'', x) \<in> set ?ops \<Longrightarrow> \<not> is_call x" for x by auto
  from retry_window [OF disjI2 [OF refl] t(1) _ this l_def [unfolded u_def] l] t(1) l_def l(2)
  show ?thesis by (auto simp: err_def code_of_def u_def)
qed

subsection \<open>Volumes do not disturb each other\<close>

text \<open>
  C17. What the node plugin remembers of a volume (that a call on it is under way, that its mount was
  given up, its restart delay and the exits counted) is not changed by anything done for other
  volumes: any sequence of stages, unstages, publishes, unpublishes, statistics, recoveries and prunes
  of them, whatever they meet, leaves it as it was. The cluster is only assumed to answer, for the
  volumes of the sequence, with pods that carry the volume asked for.
\<close>

theorem volumes_do_not_disturb:
  assumes "\<forall>v \<in> fst ` set ops. pods_named S v" and "u \<notin> fst ` set ops"
  shows "memory_of (run_ops (node_step S) ops s) u = memory_of s u"
  using assms by (rule node.others_leave)

text \<open>A node whose cluster has the pod of one volume, running, while another volume is being staged.\<close>

definition mounted_pod :: "int pod" where
  "mounted_pod = (build_pod demo_codec demo_config demo_spec [] [])
     \<lparr>pod_status_of := no_status\<lparr>pst_phase := ''Running'', pst_ip := ''10.0.0.7'',
        pst_containers := [\<lparr>cs_name = container_name, cs_terminated = None, cs_waiting = None, cs_running = Some 0\<rparr>]\<rparr>\<rparr>"

definition busy_memory :: "notice list server" where
  "busy_memory = demo_memory\<lparr>sv_busy := [''v'' \<mapsto> 7], sv_gave_up := [''v'' \<mapsto> 9]\<rparr>"

lemma mounted_pods_named: "pods_named (demo_server (Some mounted_pod) infos) ''d1''"
proof -
  have "pod_annotation mounted_pod label_volume = ''d1''"
    using built_annotations(1) [of demo_codec demo_config demo_spec "[]" "[]"]
    by (simp add: pod_annotation_def mounted_pod_def) (simp add: demo_spec_def)
  then show ?thesis by (simp add: pods_named_def demo_server_def logging_cluster_def)
qed

theorem volumes_do_not_disturb_witness:
  "memory_of (run_ops (node_step (demo_server (Some mounted_pod) []))
     [(''d1'', Recover_pod), (''d1'', Unstage ''/s''), (''d1'', Prune ''/t'')] busy_memory) ''v'' =
   (Some 7, Some 9, None)"
  using volumes_do_not_disturb [of "[(''d1'', Recover_pod), (''d1'', Unstage ''/s''), (''d1'', Prune ''/t'')]"
      "demo_server (Some mounted_pod) []" "''v''" busy_memory] mounted_pods_named
  by (simp add: busy_memory_def demo_memory_def memory_of_def)

end
