(* ===== verification/Node_Restage.thy ===== *)
theory Node_Restage
  imports Node_Stage
begin

text \<open>
  A stage that finds the mount pod there: what the host and the cluster show of a volume that is mounted or
  about to be, and what the repeated call of kubelet does then.
\<close>

subsection \<open>What the host shows\<close>

definition host_reads ::
  "'w host \<Rightarrow> ('w \<Rightarrow> string + mount_info list) \<Rightarrow> ('w \<Rightarrow> string \<Rightarrow> check_error + bool) \<Rightarrow> bool" where
  "host_reads H table point \<longleftrightarrow> (\<forall>w. run_state (h_mount_info H) w = (table w, w)) \<and>
     (\<forall>w p. run_state (h_is_mount_point H p) w = (point w p, w))"

definition serves ::
  "('w \<Rightarrow> string + mount_info list) \<Rightarrow> ('w \<Rightarrow> string \<Rightarrow> check_error + bool) \<Rightarrow> string \<Rightarrow> string \<Rightarrow> 'w \<Rightarrow> bool" where
  "serves table point volume staging w \<longleftrightarrow>
     (\<exists>infos i. table w = Inr infos \<and> top_mount infos staging = Some i \<and> mi_source i = mount_source volume) \<and>
     (is_ok (point w staging) \<or> point w staging = Inl PathMissing)"

lemma run_snd_Inr:
  "run_state (do { r \<leftarrow> m; State_Monad.return (snd r) }) s = (Inr x, t) \<longleftrightarrow> (\<exists>a. run_state m s = ((a, Inr x), t))"
  by (cases "run_state m s"; cases "fst (run_state m s)") auto

lemma check_staged_serves:
  assumes "host_reads (ns_host S) table point" and "run_state (check_staged S v p) s = (Inr (), t)"
  shows "t = s \<and> serves table point v p (node_world (sv_node s))"
proof -
  have "run_state (h_mount_info (ns_host S)) w = (table w, w)"
    "run_state (h_is_mount_point (ns_host S) q) w = (point w q, w)" for w q
    using assms(1) by (simp_all add: host_reads_def)
  then show ?thesis
    using assms(2)
    by (auto simp: check_staged_def serves_def mount_state_def run_attempt run_guarded run_on_host
        split: sum.splits option.splits if_splits check_error.splits)
qed

subsection \<open>Staging again\<close>

text \<open>
  A pod that starts or runs for the spec \<open>sp\<close>: the one read under its name, with its configuration and
  staging path, the owner of its Secret. \<open>answers\<close> is what its readiness endpoint says, when it can be asked.
\<close>

definition pod_up ::
  "('w, 'q) node_server \<Rightarrow> 'q spec \<Rightarrow> 'q pod \<Rightarrow> string + int \<Rightarrow> 'w \<Rightarrow> bool" where
  "pod_up S sp p answers w \<longleftrightarrow>
     (let K = ns_cluster S; cfg = ns_config S; name = pod_annotation p annotation_secret in
     run_state (k_get_pod K (cfg_namespace cfg) (mount_pod_name (ns_codec S) (node_name sp) (volume_id sp))) w = (Inr p, w) \<and>
     (st_phase (state_of p) = PhasePending \<or> st_phase (state_of p) = PhaseRunning) \<and>
     pod_annotation p annotation_config_hash = spec_config_hash (ns_codec S) cfg sp \<and>
     pod_annotation p annotation_staging_path = staging_path sp \<and>
     (name \<noteq> [] \<longrightarrow> (\<exists>sec. run_state (k_get_secret K (cfg_namespace cfg) name) w = (Inr sec, w) \<and>
        list_ex (\<lambda>ow. ow_uid ow = om_uid (pod_meta p)) (om_owners (sec_meta sec)))) \<and>
     run_state (k_http_status K (ready_url p)) w = (answers, w))"

definition serves_reads :: "'q pod \<Rightarrow> string + int \<Rightarrow> bool" where
  "serves_reads p answers \<longleftrightarrow> st_phase (state_of p) = PhaseRunning \<and> pst_ip (pod_status_of p) \<noteq> [] \<and>
     metrics_port p \<noteq> 0 \<and> answers = Inr 200"

lemma up_not_finished:
  assumes "st_phase (state_of p) = PhasePending \<or> st_phase (state_of p) = PhaseRunning"
  shows "om_deletion (pod_meta p) = None" "\<not> process_gone p"
  using assms by (auto simp: state_of_def Let_def split: prod.splits if_splits)

lemma up_ensure:
  assumes "pod_up S sp p a (node_world n)"
    and "validate_spec sp = Inr ()" "check_staging_path (ns_config S) (staging_path sp) = Inr ()"
  shows "\<exists>st b. st_phase st = st_phase (state_of p) \<and> st_pod st = Some p \<and> st_staging st = staging_path sp \<and>
    \<not> st_config_changed st \<and>
    run_state (ensure (node_cluster S) (ns_codec S) (ns_config S) sp) n = ((st, None), n\<lparr>node_backoffs := b\<rparr>)"
proof -
  note up = assms(1) [unfolded pod_up_def Let_def]
  have phase: "st_phase (state_of p) = PhasePending \<or> st_phase (state_of p) = PhaseRunning" using up by blast
  have secret: "run_state (own_secret (node_cluster S) (ns_config S) p) m = (None, m)" if "node_world m = node_world n" for m
    using up that by (auto simp: own_secret_def node_cluster_def run_on_world Let_def)
  show ?thesis
    using up phase assms(2,3) up_not_finished [OF phase] secret
    by (auto simp: ensure_def ensure_existing_def finished_def node_cluster_def on_backoffs_def
        ensure_switch_def Let_def run_on_world state_of_fields split: prod.splits)
qed

text \<open>What the rest of a stage needs: the request is readable as \<open>sp\<close>, and the volume is mounted on its path.\<close>

definition request_for ::
  "('w, 'q) node_server \<Rightarrow> stage_request \<Rightarrow> 'q spec \<Rightarrow> claim option \<Rightarrow> 'w \<Rightarrow> bool" where
  "request_for S req sp claim w \<longleftrightarrow>
     (\<forall>s. node_world (sv_node s) = w \<longrightarrow> run_state (stage_spec S req) s = (Inr (sp, claim), s)) \<and>
     (\<exists>c. sr_capability req = Some c \<and> is_supported_capability c) \<and> sr_volume req \<noteq> [] \<and> sr_staging req \<noteq> [] \<and>
     validate_spec sp = Inr () \<and> check_staging_path (ns_config S) (staging_path sp) = Inr ()"

lemma stage_spec_fields:
  assumes "run_state (stage_spec S req) s = (Inr (sp, claim), t)"
  shows "volume_id sp = sr_volume req" "staging_path sp = sr_staging req" "node_name sp = ns_node S"
    "pvc_name sp = lookup0 (sr_context req) volume_context_pvc_name"
    "pvc_namespace sp = claim_namespace (sr_context req)"
  using assms by (auto simp: stage_spec_def attempt_Inr check_Inr)

lemma up_round:
  assumes "pod_up S sp p a (node_world (sv_node s))"
    and "validate_spec sp = Inr ()" "check_staging_path (ns_config S) (staging_path sp) = Inr ()"
  shows "\<exists>st t. run_state (ensure_mounted S sp claim) s =
      ((st, if serves_reads p a then Inr () else Inl (err Aborted)), t) \<and>
    node_world (sv_node t) = node_world (sv_node s) \<and> sv_busy t = sv_busy s"
proof -
  obtain st b where st: "st_phase st = st_phase (state_of p)" "st_pod st = Some p" "st_staging st = staging_path sp"
      "\<not> st_config_changed st"
      "run_state (ensure (node_cluster S) (ns_codec S) (ns_config S) sp) (sv_node s) =
        ((st, None), (sv_node s)\<lparr>node_backoffs := b\<rparr>)"
    using up_ensure [OF assms] by blast
  have http: "run_state (k_http_status (ns_cluster S) (ready_url p)) (node_world (sv_node s)) = (a, node_world (sv_node s))"
    and phase: "st_phase (state_of p) = PhasePending \<or> st_phase (state_of p) = PhaseRunning"
    using assms(1) by (simp_all add: pod_up_def Let_def)
  show ?thesis
    using phase st http
    by (auto simp: ensure_mounted_def max_ensure_rounds_def numeral_eq_Suc ensure_round_def ns_ensure_def run_on_node
        round_pod_def round_ready_def check_ready_def ready_def serves_reads_def node_cluster_def run_on_world
        update_backoffs_def on_backoffs_def Let_def split: sum.splits)
qed

text \<open>
  What a stage answers for a ready pod: OK when the mount of the volume is the topmost one on the staging
  path and answers, Internal when it is not there or is dead, Unavailable when the mount table cannot be
  read.
\<close>

definition ready_answer ::
  "('w \<Rightarrow> string + mount_info list) \<Rightarrow> ('w \<Rightarrow> string \<Rightarrow> check_error + bool) \<Rightarrow> string \<Rightarrow> string \<Rightarrow> 'w \<Rightarrow> status + unit" where
  "ready_answer table point volume staging w =
     (if \<not> is_ok (table w) then Inl (err Unavailable)
      else if serves table point volume staging w then Inr () else Inl (err Internal))"

lemma check_staged_answer:
  assumes "host_reads (ns_host S) table point"
  shows "run_state (check_staged S v p) s = (ready_answer table point v p (node_world (sv_node s)), s)"
proof -
  have "run_state (h_mount_info (ns_host S)) w = (table w, w)"
    "run_state (h_is_mount_point (ns_host S) q) w = (point w q, w)" for w q
    using assms by (simp_all add: host_reads_def)
  then show ?thesis
    by (auto simp: check_staged_def ready_answer_def serves_def mount_state_def run_attempt run_guarded run_on_host
        is_ok_def split: sum.splits option.splits check_error.splits)
qed

text \<open>What a repeated stage answers, for a pod that starts or runs.\<close>

definition restage_answer ::
  "('w \<Rightarrow> string + mount_info list) \<Rightarrow> ('w \<Rightarrow> string \<Rightarrow> check_error + bool) \<Rightarrow> 'q pod \<Rightarrow> string + int \<Rightarrow>
   string \<Rightarrow> string \<Rightarrow> 'w \<Rightarrow> status + unit" where
  "restage_answer table point p answers volume staging w =
     (if serves_reads p answers then ready_answer table point volume staging w else Inl (err Aborted))"

lemma restage_answer_Aborted:
  "restage_answer table point p answers v q w = Inl e \<Longrightarrow> code_of e = Aborted \<longleftrightarrow> \<not> serves_reads p answers"
  by (auto simp: restage_answer_def ready_answer_def split: if_splits)

lemma stage_up:
  assumes "host_reads (ns_host S) table point"
    and "request_for S req sp claim (node_world (sv_node u))" and "pod_up S sp p answers (node_world (sv_node u))"
  shows "\<exists>t. run_state (stage S req) u =
      (restage_answer table point p answers (sr_volume req) (sr_staging req) (node_world (sv_node u)), t) \<and>
    node_world (sv_node t) = node_world (sv_node u) \<and> sv_busy t = sv_busy u"
proof -
  note req = assms(2) [unfolded request_for_def]
  obtain st t where t: "run_state (ensure_mounted S sp claim) u =
      ((st, if serves_reads p answers then Inr () else Inl (err Aborted)), t)"
      "node_world (sv_node t) = node_world (sv_node u)" "sv_busy t = sv_busy u"
    using up_round [of S sp p answers u claim] assms(3) req by auto
  have "run_state (check_staged S (sr_volume req) (sr_staging req)) t =
      (ready_answer table point (sr_volume req) (sr_staging req) (node_world (sv_node u)), t)"
    using check_staged_answer [OF assms(1)] t(2) by simp
  moreover have "run_state (stage_spec S req) u = (Inr (sp, claim), u)" using req by blast
  ultimately show ?thesis
    using t by (auto simp: stage_def run_attempt restage_answer_def split: sum.splits)
qed

text \<open>A node on which the pod of the volume serves it.\<close>

definition served_spec :: "int spec" where
  "served_spec = demo_spec\<lparr>pvc_name := [], pvc_namespace := [], spec_options := no_options,
     spec_resources := no_resources\<rparr>"

definition served_pod :: "int pod" where
  "served_pod = (build_pod demo_codec demo_config served_spec (spec_config_hash demo_codec demo_config served_spec) [])
     \<lparr>pod_status_of := no_status\<lparr>pst_phase := ''Running'', pst_ip := ''10.0.0.7'',
        pst_containers := [\<lparr>cs_name = container_name, cs_terminated = None, cs_waiting = None, cs_running = Some 0\<rparr>]\<rparr>\<rparr>"

definition served_table :: "mount_info list" where
  "served_table = [\<lparr>mi_source = ''retyc://d1'', mi_point = staging_path demo_spec, mi_root = ''/'',
     mi_device = (0, 50), mi_options = []\<rparr>]"

definition served_server :: "(int, int) node_server" where
  "served_server = clock_server\<lparr>ns_host := still_host served_table, ns_cluster := logging_cluster (Some served_pod)\<rparr>"

definition served_request :: stage_request where
  "served_request = \<lparr>sr_volume = ''d1'', sr_staging = staging_path demo_spec,
     sr_capability = Some \<lparr>cap_block = False, cap_mode = SingleNodeWriter\<rparr>,
     sr_context = [(annotation_uid, ''7''), (annotation_gid, ''8'')],
     sr_secrets = [(token_key, ''t''), (passphrase_key, ''p'')]\<rparr>"

lemma served_stage_spec: "run_state (stage_spec served_server served_request) s = (Inr (served_spec, None), s)"
proof -
  have id: "parse_uint ''7'' 32 = Some 7" "parse_uint ''8'' 32 = Some 8"
    by (simp_all add: parse_uint_def is_digit_def read_nat_def digit_val_def)
  have settings: "parse_mount_settings demo_parsers [] (map_of (sr_context served_request)) =
      Inr \<lparr>ms_uid = 7, ms_gid = 8, ms_options = no_options, ms_resources = no_resources\<rparr>"
    by (simp add: parse_mount_settings_def claim_owner_def parse_id_def id parse_cache_ttl_def served_request_def
        annotation_defs parse_local_file_def parse_mount_resources_def resource_annotations_def no_options_def)
  have creds: "from_secrets (sr_secrets served_request) = Inr (Some \<lparr>token = ''t'', passphrase = ''p''\<rparr>)"
    by (simp add: from_secrets_def served_request_def lookup0_def token_key_def passphrase_key_def)
  have nopvc: "lookup0 (sr_context served_request) volume_context_pvc_name = []"
    "lookup0 (sr_context served_request) volume_context_namespace = []"
    by (simp_all add: served_request_def lookup0_def annotation_defs volume_context_pvc_name_def
        volume_context_namespace_def)
  show ?thesis
    using settings creds nopvc
    by (simp add: stage_spec_def stage_claim_def stage_credentials_def stage_settings_def claim_namespace_def Let_def
        run_attempt run_check served_server_def clock_server_def served_spec_def demo_spec_def served_request_def)
qed

lemma served_state:
  "st_phase (state_of served_pod) = PhaseRunning" "process_gone served_pod = False"
  "om_deletion (pod_meta served_pod) = None"
  by (simp_all add: state_of_def served_pod_def statuses_def process_gone_def terminated_def no_status_def
      build_pod_def object_meta_of_def Let_def status_step_def)

lemma served_annotations:
  "pod_annotation served_pod annotation_config_hash = spec_config_hash demo_codec demo_config served_spec"
  "pod_annotation served_pod annotation_staging_path = staging_path served_spec"
  "pod_annotation served_pod annotation_secret = []" "pod_annotation served_pod label_volume = ''d1''"
  using built_annotations [of demo_codec demo_config served_spec
      "spec_config_hash demo_codec demo_config served_spec" "[]"]
  by (simp_all add: pod_annotation_def served_pod_def) (simp add: served_spec_def demo_spec_def)

lemma served_checks: "validate_spec served_spec = Inr ()" "check_staging_path demo_config (staging_path served_spec) = Inr ()"
  by (simp_all add: validate_spec_def served_spec_def demo_spec_def check_staging_path_def demo_config_def Let_def
      path_is_abs_def path_join_def path_clean_def path_dir_def dot_def dotdot_def has_prefix_def)

lemma served_cluster:
  "k_get_pod (node_cluster served_server) ns n = State_Monad.return (Inr served_pod)"
  "k_http_status (node_cluster served_server) u = State_Monad.return (Inr 200)"
  "ns_codec served_server = demo_codec" "ns_config served_server = demo_config"
  "ns_host served_server = still_host served_table"
  by (simp_all add: node_cluster_def served_server_def clock_server_def logging_cluster_def)

lemma served_up: "pst_ip (pod_status_of served_pod) \<noteq> []" "metrics_port served_pod \<noteq> 0"
  by (simp_all add: metrics_port_def served_pod_def build_pod_def Let_def wrap32_def demo_config_def
      metrics_port_name_def container_name_def)

lemma served_host: "host_reads (ns_host served_server) (\<lambda>_. Inr served_table) (\<lambda>_ _. Inr True)"
  by (simp add: host_reads_def served_cluster still_host_def)

lemma served_clock: "clock_reads (ns_now served_server)"
  by (simp add: clock_reads_def served_server_def clock_server_def)

lemma served_path: "staging_path demo_spec \<noteq> []"
  by (simp add: demo_spec_def)

lemma served_facts:
  "request_for served_server served_request served_spec None w"
  "pod_up served_server served_spec served_pod (Inr 200) w"
  "serves (\<lambda>_. Inr served_table) (\<lambda>_ _. Inr True) (sr_volume served_request) (sr_staging served_request) w"
  "serves_reads served_pod (Inr 200)"
proof -
  show "request_for served_server served_request served_spec None w"
    using served_stage_spec served_checks served_path
    by (simp add: request_for_def served_cluster) (simp add: served_request_def is_supported_capability_def)
  show "pod_up served_server served_spec served_pod (Inr 200) w"
    using served_cluster by (simp add: pod_up_def node_cluster_def served_state served_annotations)
  show "serves (\<lambda>_. Inr served_table) (\<lambda>_ _. Inr True) (sr_volume served_request) (sr_staging served_request) w"
    using served_path
    by (simp add: serves_def served_request_def served_table_def top_mount_def top_step_def mount_source_def is_ok_def)
  show "serves_reads served_pod (Inr 200)"
    by (simp add: serves_reads_def served_state served_up)
qed

lemma served_answer:
  "restage_answer (\<lambda>_. Inr served_table) (\<lambda>_ _. Inr True) served_pod (Inr 200) (sr_volume served_request)
     (sr_staging served_request) (w :: int) = Inr ()"
  using served_facts(3,4) by (simp add: restage_answer_def ready_answer_def is_ok_def)

lemma served_stage:
  "\<exists>t. run_state (node_stage_volume served_server served_request) (memory_at 0) = (Inr (), t)"
proof -
  let ?v = "sr_volume served_request"
  obtain u where u: "run_state (mark_busy served_server ?v) (memory_at 0) = ((), u)"
    by (cases "run_state (mark_busy served_server ?v) (memory_at 0)") simp
  obtain t where "run_state (stage served_server served_request) u = (Inr (), t)"
    using stage_up [OF served_host served_facts(1,2), of u] served_answer by auto
  with u show ?thesis
    using served_facts(1) [of 0]
    by (auto simp: node_stage_volume_def run_guarded run_marked run_clear_busy request_for_def)
qed

text \<open>
  C10. NodeStageVolume is idempotent, and safe to retry while the mount comes up. Called for a volume whose
  mount pod starts or runs, with the wanted configuration, on the requested path and as the owner of its
  Secret, it changes nothing in the cluster or on the host, whatever is mounted. It answers Aborted until the pod's
  readiness endpoint answers 200; then OK exactly when the volume's mount is the topmost one on the staging path and answers,
  Internal when it is missing or dead there, and Unavailable when the mount table cannot be read. The mark
  of a call under way is left exactly by Aborted, the answer after which kubelet calls again.
\<close>

theorem restage_idempotent:
  assumes "clock_reads (ns_now S)" and "host_reads (ns_host S) table point"
    and "request_for S req sp claim (node_world (sv_node s))" and "pod_up S sp p answers (node_world (sv_node s))"
  shows "\<exists>t. run_state (node_stage_volume S req) s =
      (if \<not> serves_reads p answers then Inl (err Aborted)
       else if \<not> is_ok (table (node_world (sv_node s))) then Inl (err Unavailable)
       else if serves table point (sr_volume req) (sr_staging req) (node_world (sv_node s)) then Inr ()
       else Inl (err Internal), t) \<and>
    node_world (sv_node t) = node_world (sv_node s) \<and>
    (sv_busy t (sr_volume req) = None \<longleftrightarrow> serves_reads p answers)"
proof -
  let ?answer = "restage_answer table point p answers (sr_volume req) (sr_staging req) (node_world (sv_node s))"
  define u where "u = snd (run_state (mark_busy S (sr_volume req)) s)"
  have mark: "run_state (mark_busy S (sr_volume req)) s = ((), u)" "node_world (sv_node u) = node_world (sv_node s)"
    "sv_busy u (sr_volume req) \<noteq> None"
    by (simp_all add: u_def run_mark_busy [OF assms(1)])
  obtain t where t: "run_state (stage S req) u = (?answer, t)"
      "node_world (sv_node t) = node_world (sv_node s)" "sv_busy t = sv_busy u"
    using stage_up [OF assms(2), of req sp claim u p answers] assms(3,4) mark(2) by auto
  have "?answer = Inr () \<Longrightarrow> serves_reads p answers"
    by (simp add: restage_answer_def split: if_splits)
  with mark assms(3) t have "\<exists>t. run_state (node_stage_volume S req) s = (?answer, t) \<and>
      node_world (sv_node t) = node_world (sv_node s) \<and>
      (sv_busy t (sr_volume req) = None \<longleftrightarrow> serves_reads p answers)"
    using restage_answer_Aborted [of table point p answers "sr_volume req" "sr_staging req" "node_world (sv_node s)"]
    by (cases ?answer) (auto simp: node_stage_volume_def run_guarded run_marked run_clear_busy request_for_def)
  moreover have "(if \<not> serves_reads p answers then Inl (err Aborted)
       else if \<not> is_ok (table (node_world (sv_node s))) then Inl (err Unavailable)
       else if serves table point (sr_volume req) (sr_staging req) (node_world (sv_node s)) then Inr ()
       else Inl (err Internal)) = ?answer"
    by (simp add: restage_answer_def ready_answer_def)
  ultimately show ?thesis by simp
qed

theorem restage_idempotent_witness:
  "\<exists>t. run_state (node_stage_volume served_server served_request) (memory_at 0) = (Inr (), t) \<and>
     node_world (sv_node t) = 0 \<and> sv_busy t ''d1'' = None"
proof -
  have "node_world (sv_node (memory_at 0 :: int server)) = 0" "sr_volume served_request = ''d1''"
    by (simp_all add: memory_at_def served_request_def)
  then show ?thesis
    using restage_idempotent [OF served_clock served_host served_facts(1,2), of "memory_at 0"] served_facts(3,4)
    by (simp add: is_ok_def)
qed

end
