(* ===== verification/Node_Calls.thy ===== *)
theory Node_Calls
  imports Node_Restage
begin

text \<open>
  What the answers of the node service mean for the host and the cluster: OK to a stage, each answer to an
  unstage, the numbers of the statistics; and how long a give-up that kubelet keeps meeting lasts.
\<close>

subsection \<open>Staged is mounted\<close>

text \<open>
  C12. When NodeStageVolume answers OK the volume is mounted for its pods: the top mount of the staging
  path is the volume's own file system, the path answers, and no mark of a stage under way and no
  give-up is left for it.
\<close>

theorem staged_is_mounted:
  assumes "host_reads (ns_host S) table point" and "run_state (node_stage_volume S req) s = (Inr (), t)"
  shows "serves table point (sr_volume req) (sr_staging req) (node_world (sv_node t)) \<and>
    sv_busy t (sr_volume req) = None \<and> sv_gave_up t (sr_volume req) = None"
proof -
  let ?v = "sr_volume req"
  obtain u m where u: "run_state (stage S req) m = (Inr (), u)" and t: "t = u\<lparr>sv_busy := (sv_busy u)(?v := None)\<rparr>"
    using assms(2)
    by (auto simp: node_stage_volume_def guarded_Inr run_marked run_clear_busy split: prod.splits sum.splits)
  then obtain x y where x: "run_state (check_staged S ?v (sr_staging req)) x = (Inr (), y)"
      and "u = y\<lparr>sv_gave_up := (sv_gave_up y)(?v := None)\<rparr>"
    unfolding stage_def by (auto simp: attempt_Inr run_snd_Inr)
  then show ?thesis using check_staged_serves [OF assms(1) x] t by simp
qed

theorem staged_is_mounted_witness:
  "\<exists>t. run_state (node_stage_volume served_server served_request) (memory_at 0) = (Inr (), t) \<and>
     serves (\<lambda>_. Inr served_table) (\<lambda>_ _. Inr True) ''d1'' (staging_path demo_spec) (node_world (sv_node t))"
proof -
  obtain t where "run_state (node_stage_volume served_server served_request) (memory_at 0) = (Inr (), t)"
    using served_stage by blast
  with staged_is_mounted [OF served_host this] show ?thesis by (auto simp: served_request_def)
qed

subsection \<open>Unstaging\<close>

text \<open>What an unstage does before it knows whether the mount pod has drained.\<close>

definition stop_pod :: "('w, 'q) node_server \<Rightarrow> string \<Rightarrow> ('w server, 'q answer) state" where
  "stop_pod S volume = do {
     _ \<leftarrow> mark_busy S volume;
     _ \<leftarrow> published_at S volume;
     ns_delete S volume
   }"

text \<open>
  C11. An unstage unmounts nothing before the mount pod has drained. While the pod cannot be stopped it answers
  Unavailable, while the pod drains Aborted, and has then done nothing but ask the pod to stop; an
  Aborted call leaves the mark for the retry. Once the pod is gone its restart state and its give-up
  are forgotten and the call answers OK only with nothing left mounted on the staging path.
\<close>

theorem unstage_after_drain:
  assumes "mount_law (ns_host S) staging depth" and "volume \<noteq> []" and "staging \<noteq> []"
    and stop: "run_state (stop_pod S volume) s = ((st, e), u)"
    and run: "run_state (node_unstage_volume S volume staging) s = (r, t)"
  shows "if e \<noteq> None then r = Inl (err Unavailable) \<and> sv_node t = sv_node u \<and> sv_gave_up t = sv_gave_up u
    else if st_phase st = PhaseTerminating then r = Inl (err Aborted) \<and> t = u
    else node_backoffs (sv_node t) volume = None \<and> sv_gave_up t volume = None \<and> sv_busy t volume = None \<and>
      (r = Inr () \<and> depth (node_world (sv_node t)) = 0 \<or> r = Inl (err Internal))"
proof -
  obtain a where a: "run_state (mark_busy S volume) s = ((), a)" by (cases "run_state (mark_busy S volume) s") simp
  obtain p b where b: "run_state (published_at S volume) a = (p, b)" by fastforce
  have d: "run_state (ns_delete S volume) b = ((st, e), u)" using stop a b by (simp add: stop_pod_def)
  show ?thesis
  proof (cases "e = None \<and> st_phase st \<noteq> PhaseTerminating")
    case False
    then show ?thesis
      using run a b d assms(2,3)
      by (auto simp: node_unstage_volume_def run_guarded run_marked unstage_def run_clear_busy)
  next
    case True
    obtain c where c: "run_state (report_exit S st) u = ((), c)" by (cases "run_state (report_exit S st) u") simp
    define f where "f = c\<lparr>sv_gave_up := (sv_gave_up c)(volume := None),
      sv_node := (sv_node c)\<lparr>node_backoffs := forget_all volume (node_backoffs (sv_node c))\<rparr>\<rparr>"
    obtain q w where q: "run_state (unpublish (ns_host S) staging) (node_world (sv_node f)) = (q, w)" by fastforce
    have "run_state (on_node (update_backoffs (forget_all volume))) (c\<lparr>sv_gave_up := (sv_gave_up c)(volume := None)\<rparr>) = ((), f)"
      by (simp add: run_on_node update_backoffs_def on_backoffs_def f_def)
    then have "run_state (unstage S volume staging) a =
        (case q of Inl _ \<Rightarrow> Inl (err Internal) | Inr _ \<Rightarrow> Inr (), f\<lparr>sv_node := (sv_node f)\<lparr>node_world := w\<rparr>\<rparr>)"
      using True b d c q by (auto simp: unstage_def run_attempt run_on_host split: sum.split)
    then show ?thesis
      using run a assms(2,3) True unpublish_layers [OF assms(1) q]
      by (auto simp: node_unstage_volume_def run_guarded run_marked run_clear_busy f_def forget_all_def
          split: sum.splits)
  qed
qed

text \<open>A node without the pod, whose world is the number of layers on the path.\<close>

definition layered_server :: "(nat, int) node_server" where
  "layered_server =
     \<lparr>ns_node = ''n1'', ns_host = demo_host, ns_cluster = logging_cluster None,
      ns_codec = demo_codec, ns_config = demo_config, ns_kube = None, ns_record = None, ns_credentials = None,
      ns_cache = \<lparr>redis_url = [], high_confidentiality = False\<rparr>, ns_now = State_Monad.return 0,
      ns_parsers = demo_parsers, ns_bool_order = [], ns_quantity_text = \<lambda>_. []\<rparr>"

lemma layered_stop:
  "\<exists>st u. st_phase st = PhaseAbsent \<and> run_state (stop_pod layered_server ''d1'') (memory_at 3) = ((st, None), u) \<and>
     node_world (sv_node u) = 3"
  by (simp add: stop_pod_def mark_busy_def published_at_def ns_delete_def delete_pod_def get_state_def
      delete_secrets_def update_backoffs_def on_backoffs_def node_cluster_def logging_cluster_def demo_host_def
      layered_server_def memory_at_def run_attempt run_on_host run_on_node run_on_world Let_def)

theorem unstage_after_drain_witness:
  "\<exists>t. run_state (node_unstage_volume layered_server ''d1'' ''/s'') (memory_at 3) = (Inr (), t) \<and>
     node_world (sv_node t) = 0"
proof -
  obtain st u where stop: "st_phase st = PhaseAbsent" "node_world (sv_node u) = 3"
      "run_state (stop_pod layered_server ''d1'') (memory_at 3) = ((st, None), u)"
    using layered_stop by blast
  obtain r t where run: "run_state (node_unstage_volume layered_server ''d1'' ''/s'') (memory_at 3) = (r, t)"
    by fastforce
  have law: "mount_law (ns_host layered_server) ''/s'' id" by (simp add: layered_server_def demo_host_law)
  note unstaged = unstage_after_drain [OF law _ _ stop(3) run]
  have "r \<noteq> Inl (err Internal)"
  proof -
    have "run_state (unpublish demo_host ''/s'') 3 = (Inr (), 0)"
      by (simp add: unpublish_def demo_loop max_stacked_mounts_def)
    then show ?thesis
      using run stop
      by (auto simp: node_unstage_volume_def run_guarded run_marked unstage_def stop_pod_def run_attempt run_on_host
          report_exit_def run_on_node update_backoffs_def on_backoffs_def layered_server_def split: prod.splits sum.splits)
  qed
  then show ?thesis using unstaged stop run by auto
qed

subsection \<open>Statistics\<close>

lemma to_int64_bounds: "0 \<le> to_int64 v \<and> to_int64 v < 2 ^ 63"
  by (simp add: to_int64_def)

lemma to_int64_exact: "uint v < 2 ^ 63 \<Longrightarrow> to_int64 v = uint v"
  by (simp add: to_int64_def)

lemma uint_times: "uint a * uint b < 2 ^ 63 \<Longrightarrow> uint (a * b) = uint a * uint (b :: 64 word)"
  by (simp add: uint_word_ariths)

lemma uint_minus: "b \<le> a \<Longrightarrow> uint (a - b) = uint a - uint (b :: 64 word)"
  by (simp add: uint_sub_if' word_le_def)

text \<open>The numbers of a file system whose bytes a signed 64-bit integer can count.\<close>

definition sane_statfs :: "statfs \<Rightarrow> bool" where
  "sane_statfs fs \<longleftrightarrow> fs_bavail fs \<le> fs_bfree fs \<and> fs_bfree fs \<le> fs_blocks fs \<and> fs_ffree fs \<le> fs_files fs \<and>
     uint (fs_blocks fs) * uint (fs_bsize fs) < 2 ^ 63 \<and> uint (fs_files fs) < 2 ^ 63"

definition usage_exact :: "statfs \<Rightarrow> volume_usage \<Rightarrow> volume_usage \<Rightarrow> bool" where
  "usage_exact fs b i \<longleftrightarrow>
     vu_total b = uint (fs_blocks fs) * uint (fs_bsize fs) \<and>
     vu_available b = uint (fs_bavail fs) * uint (fs_bsize fs) \<and>
     vu_used b = (uint (fs_blocks fs) - uint (fs_bfree fs)) * uint (fs_bsize fs) \<and>
     vu_used b + vu_available b \<le> vu_total b \<and>
     vu_total i = uint (fs_files fs) \<and> vu_used i + vu_available i = vu_total i"

lemma usage_of_exact:
  assumes "sane_statfs fs"
  shows "usage_exact fs (fst (usage_of fs)) (snd (usage_of fs))"
proof -
  let ?n = "uint (fs_blocks fs)" and ?f = "uint (fs_bfree fs)" and ?a = "uint (fs_bavail fs)" and ?s = "uint (fs_bsize fs)"
  have le: "?a \<le> ?f" "?f \<le> ?n" "uint (fs_ffree fs) \<le> uint (fs_files fs)" "0 \<le> ?s" "0 \<le> ?f" "0 \<le> ?a"
    using assms by (simp_all add: sane_statfs_def word_le_def)
  have total: "?n * ?s < 2 ^ 63" using assms by (simp add: sane_statfs_def)
  have diff: "uint (fs_blocks fs - fs_bfree fs) = ?n - ?f" "uint (fs_files fs - fs_ffree fs) = uint (fs_files fs) - uint (fs_ffree fs)"
    using assms by (simp_all add: sane_statfs_def uint_minus)
  have av: "?a * ?s \<le> ?f * ?s" and fr: "?f * ?s \<le> ?n * ?s" using le by (simp_all add: mult_right_mono)
  have used: "(?n - ?f) * ?s = ?n * ?s - ?f * ?s" by (simp add: left_diff_distrib)
  have "0 \<le> ?f * ?s" using le by simp
  then have "(?n - ?f) * ?s < 2 ^ 63" "?a * ?s < 2 ^ 63" unfolding used using total av fr by linarith+
  then have "to_int64 (fs_blocks fs * fs_bsize fs) = ?n * ?s"
    "to_int64 (fs_bavail fs * fs_bsize fs) = ?a * ?s"
    "to_int64 ((fs_blocks fs - fs_bfree fs) * fs_bsize fs) = (?n - ?f) * ?s"
    using total by (simp_all add: to_int64_exact uint_times diff)
  moreover have files: "uint (fs_files fs) < 2 ^ 63" using assms by (simp add: sane_statfs_def)
  then have "uint (fs_files fs - fs_ffree fs) < 2 ^ 63" unfolding diff using le(3) uint_ge_0 [of "fs_ffree fs"] by linarith
  then have "to_int64 (fs_files fs) = uint (fs_files fs)" "to_int64 (fs_ffree fs) = uint (fs_ffree fs)"
    "to_int64 (fs_files fs - fs_ffree fs) = uint (fs_files fs) - uint (fs_ffree fs)"
    using files le(3) by (simp_all add: to_int64_exact diff)
  ultimately show ?thesis
    using av fr used by (simp add: usage_exact_def usage_of_def)
qed

text \<open>
  C38. The statistics of a volume are numbers that gRPC can carry, and exact: whenever usage is answered the
  path was mounted and alive, every number is in the range of a non-negative int64, and for a file
  system whose size in bytes fits one, total, available and used are the file system's, with used
  and available within the total.
\<close>

theorem stats_exact:
  assumes "run_state (node_get_volume_stats S volume p) s = (Inr a, t)" and "stats_usage a = Some (b, i)"
  shows "\<exists>fs. (\<exists>w w'. run_state (h_statfs (ns_host S) p) w = (Inr fs, w')) \<and>
    (\<exists>w w'. run_state (mount_state (ns_host S) p) w = (Inr (True, False), w')) \<and>
    (\<forall>u \<in> {b, i}. {vu_total u, vu_available u, vu_used u} \<subseteq> {0..<2 ^ 63}) \<and>
    (sane_statfs fs \<longrightarrow> usage_exact fs b i)"
proof -
  obtain c u where c: "run_state (on_host (mount_state (ns_host S) p)) s = (Inr (True, c), u)"
    and rest: "run_state (do {
       condition \<leftarrow> volume_condition S volume;
       (if c then State_Monad.return (Inr \<lparr>stats_usage = None, stats_condition = Some (DeadMount p condition)\<rparr>)
        else do {
          r \<leftarrow> on_host (h_statfs (ns_host S) p);
          State_Monad.return (case r of
              Inl Enoent \<Rightarrow> Inl (err NotFound)
            | Inl e \<Rightarrow> Inr \<lparr>stats_usage = None, stats_condition = Some (NoStatfs p e)\<rparr>
            | Inr fs \<Rightarrow> Inr \<lparr>stats_usage = Some (usage_of fs), stats_condition = condition\<rparr>)
        })}) u = (Inr a, t)"
    using assms(1) unfolding node_get_volume_stats_def by (auto simp: guarded_Inr attempt_Inr)
  obtain fs x y where fs: "\<not> c" "run_state (on_host (h_statfs (ns_host S) p)) x = (Inr fs, y)" "usage_of fs = (b, i)"
    using rest assms(2) by (auto split: prod.splits if_splits sum.splits sys_error.splits)
  have "usage_exact fs b i" if "sane_statfs fs" using usage_of_exact [OF that] fs(3) by simp
  moreover have "\<forall>u \<in> {b, i}. {vu_total u, vu_available u, vu_used u} \<subseteq> {0..<2 ^ 63}"
    using fs(3) to_int64_bounds by (auto simp: usage_of_def)
  moreover have "\<exists>w w'. run_state (h_statfs (ns_host S) p) w = (Inr fs, w')"
    using fs(2) by (auto simp: run_on_host split: prod.splits)
  moreover have "\<exists>w w'. run_state (mount_state (ns_host S) p) w = (Inr (True, False), w')"
    using c fs(1) by (auto simp: run_on_host split: prod.splits)
  ultimately show ?thesis by blast
qed

definition sized_server :: "(int, int) node_server" where
  "sized_server = served_server\<lparr>ns_host := (still_host served_table)\<lparr>h_statfs := \<lambda>_. State_Monad.return
     (Inr \<lparr>fs_bsize = 4096, fs_blocks = 1000, fs_bfree = 600, fs_bavail = 500, fs_files = 9, fs_ffree = 4\<rparr>)\<rparr>\<rparr>"

theorem stats_exact_witness:
  "\<exists>t a b i. run_state (node_get_volume_stats sized_server ''d1'' ''/s'') (memory_at 0) = (Inr a, t) \<and>
     stats_usage a = Some (b, i) \<and> vu_total b < 2 ^ 63 \<and> 0 \<le> vu_used b"
proof -
  obtain c u where "run_state (volume_condition sized_server ''d1'') (memory_at 0) = (c, u)" by fastforce
  then have "\<exists>t a b i. run_state (node_get_volume_stats sized_server ''d1'' ''/s'') (memory_at 0) = (Inr a, t) \<and>
      stats_usage a = Some (b, i)"
    by (simp add: node_get_volume_stats_def sized_server_def still_host_def mount_state_def run_attempt run_guarded
        run_on_host usage_of_def memory_at_def)
  then obtain t a b i where run: "run_state (node_get_volume_stats sized_server ''d1'' ''/s'') (memory_at 0) = (Inr a, t)"
      "stats_usage a = Some (b, i)" by blast
  from stats_exact [OF this] run show ?thesis by fastforce
qed

text \<open>
  The bound of \<open>toInt64\<close> comes after the product, which wraps: a file system of 2^64 bytes is reported
  with a total of 0.
\<close>

lemma stats_wrap:
  "vu_total (fst (usage_of \<lparr>fs_bsize = 4096, fs_blocks = 2 ^ 52, fs_bfree = 0, fs_bavail = 0, fs_files = 0,
     fs_ffree = 0\<rparr>)) = 0"
  by (simp add: usage_of_def to_int64_def)

subsection \<open>A give-up outlives the sweep\<close>

text \<open>The give-up of a volume that a stage met at \<open>at\<close>, with its restart state.\<close>

definition gave_up_at :: "string \<Rightarrow> backoff_entry option \<Rightarrow> int \<Rightarrow> 'w server \<Rightarrow> bool" where
  "gave_up_at v b at s \<longleftrightarrow> node_backoffs (sv_node s) v = b \<and> sv_gave_up s v = Some at"

lemma gave_up_host: "keeps (gave_up_at v b at) (on_host m)"
  by (auto simp: keeps_def triple_def gave_up_at_def run_on_host split: prod.split)

lemma gave_up_read: "keeps (gave_up_at v b at) (read_server f)"
  by (simp add: keepsI)

lemma gave_up_ops:
  "keeps (gave_up_at v b at) (is_busy S u)"
  "keeps (gave_up_at v b at) (ns_clock S)" "keeps (gave_up_at v b at) (kubelet_staged S p)"
proof -
  have flag: "keeps (gave_up_at v b at) (State (\<lambda>s. ((), s\<lparr>sv_dir_unreadable := f s\<rparr>)))" for f :: "'a server \<Rightarrow> bool"
    by (rule keepsI) (simp add: gave_up_at_def)
  show "keeps (gave_up_at v b at) (is_busy S u)"
    by (auto simp: is_busy_def intro!: wp gave_up_read gave_up_host)
  show "keeps (gave_up_at v b at) (ns_clock S)" by (simp add: ns_clock_def gave_up_host)
  show "keeps (gave_up_at v b at) (kubelet_staged S p)"
    by (auto simp: kubelet_staged_def driver_dir_readable_def Let_def intro!: wp gave_up_host flag)
qed

lemma gave_up_get: "keeps (gave_up_at v b at) (ns_get S u)"
proof -
  have "keeps (backoffs_are c) (get_state K C cfg n u)" for c K C cfg n
    by (auto simp: get_state_def Let_def intro!: keeps_bind world_keeps)
  then show ?thesis
    by (fastforce simp: ns_get_def keeps_def triple_def gave_up_at_def backoffs_are_def run_on_node split: prod.splits)
qed

lemma gave_up_recent:
  assumes "\<And>w. time_sub (fst (run_state (k_clock (ns_cluster S)) w)) at < orphan_grace"
  shows "triple (gave_up_at v b at) (do {
      x \<leftarrow> read_server (\<lambda>s. sv_gave_up s v);
      recent \<leftarrow> (case x of
          None \<Rightarrow> State_Monad.return False
        | Some t \<Rightarrow> do { now \<leftarrow> ns_clock S; State_Monad.return (time_sub now t < orphan_grace) });
      (if recent then State_Monad.return () else m)
    }) (\<lambda>_. gave_up_at v b at)"
proof -
  have read: "triple (gave_up_at v b at) (read_server (\<lambda>s. sv_gave_up s v)) (\<lambda>x s. gave_up_at v b at s \<and> x = Some at)"
    by (simp add: triple_def gave_up_at_def)
  have clock: "triple (gave_up_at v b at) (ns_clock S)
      (\<lambda>now s. gave_up_at v b at s \<and> time_sub now at < orphan_grace)"
  proof (rule tripleI)
    fix s :: "'a server" and now t
    assume at: "gave_up_at v b at s" and run: "run_state (ns_clock S) s = (now, t)"
    then have "now = fst (run_state (k_clock (ns_cluster S)) (node_world (sv_node s)))"
      by (simp add: ns_clock_def run_on_host split: prod.splits)
    moreover have "gave_up_at v b at t" using keepsD [OF gave_up_ops(2) at, of S] run by simp
    ultimately show "gave_up_at v b at t \<and> time_sub now at < orphan_grace" using assms by simp
  qed
  have recent: "triple (gave_up_at v b at)
      (do { now \<leftarrow> ns_clock S; State_Monad.return (time_sub now at < orphan_grace) })
      (\<lambda>r s. gave_up_at v b at s \<and> r)"
    by (rule triple_bind [OF clock]) (auto intro: triple_return)
  have "triple (gave_up_at v b at) (do {
      recent \<leftarrow> (do { now \<leftarrow> ns_clock S; State_Monad.return (time_sub now at < orphan_grace) });
      (if recent then State_Monad.return () else m)
    }) (\<lambda>_. gave_up_at v b at)"
  proof (rule triple_bind [OF recent])
    show "triple (\<lambda>s. gave_up_at v b at s \<and> r) (if r then State_Monad.return () else m) (\<lambda>_. gave_up_at v b at)" for r
      by (rule triple_pure) (simp add: triple_return)
  qed
  then have "triple (\<lambda>s. gave_up_at v b at s \<and> x = Some at) (do {
      recent \<leftarrow> (case x of
          None \<Rightarrow> State_Monad.return False
        | Some t \<Rightarrow> do { now \<leftarrow> ns_clock S; State_Monad.return (time_sub now t < orphan_grace) });
      (if recent then State_Monad.return () else m)
    }) (\<lambda>_. gave_up_at v b at)" for x
    by (intro triple_pure) simp
  then show ?thesis by (rule triple_bind [OF read])
qed

text \<open>
  C29. kubelet's retries keep a give-up: a sweep of the restart states, in whatever order and whatever pods it
  saw, leaves a volume's restart state and its give-up as they are when a stage met the give-up less
  than half an hour ago on the clock of the sweep.
\<close>

theorem sweep_keeps_give_up:
  assumes "gave_up_at v b at s"
    and "\<And>w. time_sub (fst (run_state (k_clock (ns_cluster S)) w)) at < orphan_grace"
    and "run_state (prune_backoffs S order states) s = ((), t)"
  shows "gave_up_at v b at t"
proof -
  note ops = wp gave_up_read gave_up_ops gave_up_get
  have other: "keeps (gave_up_at v b at) (on_node (update_backoffs (forget_all u)))"
    "keeps (gave_up_at v b at) (set_gave_up (\<lambda>m. m(u := None)))" if "u \<noteq> v" for u
    using that by (auto simp: keeps_def triple_def gave_up_at_def run_on_node update_backoffs_def on_backoffs_def forget_all_def)
  have volume: "keeps (gave_up_at v b at) (prune_volume S u p)" for u p
  proof (cases "u = v")
    case False
    then show ?thesis
      by (auto simp: prune_volume_def split: option.split intro!: ops other)
  next
    case True
    show ?thesis
      unfolding prune_volume_def True
    proof (rule keeps_bind [OF gave_up_ops(1)], rule keeps_bind)
      show "keeps (gave_up_at v b at) (if busy then State_Monad.return True else kubelet_staged S p)" for busy
        by (simp add: gave_up_ops(3))
    qed (rule keeps_if [OF keeps_return], unfold keeps_def, rule gave_up_recent [OF assms(2)])
  qed
  have "keeps (gave_up_at v b at) (prune_loop S known vs)" for known vs
  proof (induction vs)
    case (Cons x vs)
    then show ?case by (cases x) (auto intro!: ops volume)
  qed simp
  then have "keeps (gave_up_at v b at) (prune_backoffs S order states)"
    by (auto simp: prune_backoffs_def intro!: ops)
  from keepsD [OF this assms(1)] show ?thesis using assms(3) by simp
qed

theorem sweep_keeps_give_up_witness:
  "gave_up_at ''d1'' (Some (fresh_entry ''h'')) 0 (snd (run_state
     (prune_backoffs layered_server (\<lambda>_. [(''d1'', [])]) [])
     (memory_at 0\<lparr>sv_gave_up := [''d1'' \<mapsto> 0],
        sv_node := \<lparr>node_backoffs = [''d1'' \<mapsto> fresh_entry ''h''], node_world = 0\<rparr>\<rparr>)))"
proof -
  let ?s = "memory_at 0\<lparr>sv_gave_up := [''d1'' \<mapsto> 0],
     sv_node := \<lparr>node_backoffs = [''d1'' \<mapsto> fresh_entry ''h''], node_world = 0\<rparr>\<rparr> :: nat server"
  have "gave_up_at ''d1'' (Some (fresh_entry ''h'')) 0 ?s" by (simp add: gave_up_at_def)
  moreover have "time_sub (fst (run_state (k_clock (ns_cluster layered_server)) w)) 0 < orphan_grace" for w
    by (simp add: layered_server_def logging_cluster_def time_sub_def orphan_grace_def seconds_def)
  moreover have "run_state (prune_backoffs layered_server (\<lambda>_. [(''d1'', [])]) []) ?s =
      ((), snd (run_state (prune_backoffs layered_server (\<lambda>_. [(''d1'', [])]) []) ?s))"
    by (rule prod_eqI) simp_all
  ultimately show ?thesis by (rule sweep_keeps_give_up)
qed

end
