(* ===== verification/Secret_Store.thy ===== *)
theory Secret_Store
  imports Node_Calls
begin

text \<open>
  The Secrets that hold the credentials of the mounts, and what \<open>Delete\<close> leaves of them: the API's Secrets of the
  driver's namespace as an abstract store, and the Manager's calls as operations on it.
\<close>

subsection \<open>The store\<close>

abbreviation secret_name :: "secret \<Rightarrow> string" where
  "secret_name s \<equiv> om_name (sec_meta s)"

definition selected :: "string gomap \<Rightarrow> secret \<Rightarrow> bool" where
  "selected sel s \<longleftrightarrow> list_all (\<lambda>(k, v). map_of (om_labels (sec_meta s)) k = Some v) sel"

text \<open>
  A deletion may fail: the API then says why, and the Secret may be there or not (a request that timed
  out). \<open>refuses\<close> holds of the names whose deletion the API can answer with such an error.
\<close>

definition deleted :: "api_failure + unit \<Rightarrow> bool" where
  "deleted r \<longleftrightarrow> r = Inr () \<or> r = Inl ApiNotFound"

definition refuses :: "('w, 'q) cluster \<Rightarrow> string \<Rightarrow> string \<Rightarrow> bool" where
  "refuses K ns name \<longleftrightarrow> (\<exists>w. \<not> deleted (fst (run_state (k_delete_secret K ns name) w)))"

text \<open>
  What the API promises of the Secrets \<open>secrets w\<close>: a listing that succeeds has exactly those the selector
  matches; a deletion leaves the others, and the Secret is gone when it answers success or that there
  is none; the calls on pods leave them all (the garbage collector runs on its own).
\<close>

definition secret_law :: "('w, 'q) cluster \<Rightarrow> string \<Rightarrow> ('w \<Rightarrow> secret list) \<Rightarrow> bool" where
  "secret_law K ns secrets \<longleftrightarrow>
     (\<forall>sel w. secrets (snd (run_state (k_list_secrets K ns sel) w)) = secrets w \<and>
        (\<forall>ss. fst (run_state (k_list_secrets K ns sel) w) = Inr ss \<longrightarrow> ss = filter (selected sel) (secrets w))) \<and>
     (\<forall>n w r w'. run_state (k_delete_secret K ns n) w = (r, w') \<longrightarrow>
        secrets w' = filter (\<lambda>s. secret_name s \<noteq> n) (secrets w) \<or> \<not> deleted r \<and> secrets w' = secrets w) \<and>
     (\<forall>n w. secrets (snd (run_state (k_get_pod K ns n) w)) = secrets w) \<and>
     (\<forall>n uid g w. secrets (snd (run_state (k_delete_pod K ns n uid g) w)) = secrets w) \<and>
     (\<forall>m n a b w. secrets (snd (run_state (k_patch_finalizers K m n a b) w)) = secrets w) \<and>
     (\<forall>w. secrets (snd (run_state (k_clock K) w)) = secrets w)"

text \<open>The Secrets of a volume on a node: by the labels, which may be truncated, and by the annotations.\<close>

definition secret_of :: "'q codec \<Rightarrow> string \<Rightarrow> string \<Rightarrow> secret \<Rightarrow> bool" where
  "secret_of C node volume s \<longleftrightarrow>
     selected [(label_managed_by, managed_by), (label_node, label_value C node), (label_volume, label_value C volume)] s \<and>
     lookup0 (om_annotations (sec_meta s)) label_node = node \<and>
     lookup0 (om_annotations (sec_meta s)) label_volume = volume"

lemma built_secret_of: "secret_of C (node_name s) (volume_id s) (build_secret C cfg draw s hash)"
  by (simp add: secret_of_def selected_def build_secret_def object_meta_of_def Let_def lookup0_def key_defs)

text \<open>Another volume's Secret is never taken for this one's, even when the labels of the two are the same.\<close>

lemma built_secret_iff:
  "secret_of C node volume (build_secret C cfg draw s hash) \<longleftrightarrow> node = node_name s \<and> volume = volume_id s"
proof -
  have "secret_of C node volume (build_secret C cfg draw s hash) \<Longrightarrow> node = node_name s \<and> volume = volume_id s"
    by (simp add: secret_of_def build_secret_def object_meta_of_def Let_def lookup0_def key_defs)
  then show ?thesis using built_secret_of [of C s cfg draw hash] by blast
qed

subsection \<open>The calls\<close>

abbreviation secrets_are :: "('w \<Rightarrow> secret list) \<Rightarrow> secret list \<Rightarrow> 'w node \<Rightarrow> bool" where
  "secrets_are secrets L \<equiv> (\<lambda>n. secrets (node_world n) = L)"

lemma secrets_world:
  "(\<And>w. secrets (snd (run_state m w)) = secrets w) \<Longrightarrow> keeps (secrets_are secrets L) (on_world m)"
  by (auto simp: keeps_def triple_def on_world_def split: prod.split) (metis snd_conv)

lemma secrets_backoffs: "keeps (secrets_are secrets L) (update_backoffs f)"
  by (auto simp: keeps_def triple_def update_backoffs_def on_backoffs_def)

lemma secrets_pods:
  assumes "secret_law K (cfg_namespace cfg) secrets"
  shows "keeps (secrets_are secrets L) (get_state K C cfg n v)" "keeps (secrets_are secrets L) (finished K p)"
    "keeps (secrets_are secrets L) (release K cfg p)" "keeps (secrets_are secrets L) (delete_running K cfg st p)"
proof -
  note world = secrets_world [where secrets = secrets]
  show "keeps (secrets_are secrets L) (get_state K C cfg n v)"
    unfolding get_state_def Let_def using assms by (auto simp: secret_law_def intro!: wp world)
  show "keeps (secrets_are secrets L) (finished K p)"
    unfolding finished_def using assms by (auto simp: secret_law_def split: option.split intro!: wp world)
  show "keeps (secrets_are secrets L) (delete_running K cfg st p)"
    unfolding delete_running_def using assms by (auto simp: secret_law_def intro!: wp world)
  have "keeps (secrets_are secrets L) (remove_finalizer K p)"
    unfolding remove_finalizer_def Let_def using assms by (auto simp: secret_law_def intro!: wp world)
  then show "keeps (secrets_are secrets L) (release K cfg p)"
    unfolding release_def using assms
    by (auto simp: secret_law_def split: option.split prod.split intro!: wp world)
qed

text \<open>What a deletion of some names leaves: the others, and those the API refuses to delete.\<close>

definition cut_down :: "('w, 'q) cluster \<Rightarrow> string \<Rightarrow> string set \<Rightarrow> secret list \<Rightarrow> secret list \<Rightarrow> bool" where
  "cut_down K ns N L L' \<longleftrightarrow>
     (\<exists>D \<subseteq> N. L' = filter (\<lambda>s. secret_name s \<notin> D) L \<and> (\<forall>x \<in> N - D. refuses K ns x))"

lemma cut_down_refl: "cut_down K ns {} L L"
  by (simp add: cut_down_def)

lemma cut_down_trans:
  assumes "cut_down K ns N L L'" and "cut_down K ns M L' L''"
  shows "cut_down K ns (N \<union> M) L L''"
proof -
  obtain D where D: "D \<subseteq> N" "L' = filter (\<lambda>s. secret_name s \<notin> D) L" "\<forall>x \<in> N - D. refuses K ns x"
    using assms(1) by (auto simp: cut_down_def)
  obtain E where E: "E \<subseteq> M" "L'' = filter (\<lambda>s. secret_name s \<notin> E) L'" "\<forall>x \<in> M - E. refuses K ns x"
    using assms(2) by (auto simp: cut_down_def)
  have "D \<union> E \<subseteq> N \<union> M" "L'' = filter (\<lambda>s. secret_name s \<notin> D \<union> E) L"
      "\<forall>x \<in> (N \<union> M) - (D \<union> E). refuses K ns x"
    using D E by (auto intro: filter_cong)
  then show ?thesis unfolding cut_down_def by blast
qed

lemma run_delete_secret:
  assumes "secret_law K (cfg_namespace cfg) secrets"
  shows "cut_down K (cfg_namespace cfg) {x} (secrets (node_world n))
    (secrets (node_world (snd (run_state (delete_secret K cfg x) n))))"
proof -
  obtain r w where r: "run_state (k_delete_secret K (cfg_namespace cfg) x) (node_world n) = (r, w)" by fastforce
  have w: "secrets w = filter (\<lambda>s. secret_name s \<noteq> x) (secrets (node_world n)) \<or>
      \<not> deleted r \<and> secrets w = secrets (node_world n)"
    using assms r by (auto simp: secret_law_def)
  have ref: "\<not> deleted r \<Longrightarrow> refuses K (cfg_namespace cfg) x"
    using r by (auto simp: refuses_def intro!: exI [of _ "node_world n"])
  have run: "node_world (snd (run_state (delete_secret K cfg x) n)) = w"
    using r by (simp add: delete_secret_def run_on_world)
  from w show ?thesis
  proof
    assume "secrets w = filter (\<lambda>s. secret_name s \<noteq> x) (secrets (node_world n))"
    then show ?thesis unfolding cut_down_def run by (intro exI [of _ "{x}"]) simp
  next
    assume "\<not> deleted r \<and> secrets w = secrets (node_world n)"
    then show ?thesis unfolding cut_down_def run using ref by (intro exI [of _ "{}"]) simp
  qed
qed

lemma run_delete_loop:
  assumes "secret_law K (cfg_namespace cfg) secrets"
  shows "cut_down K (cfg_namespace cfg) (secret_name ` set (filter (\<lambda>s. \<not> skip s) ss)) (secrets (node_world n))
    (secrets (node_world (snd (run_state (delete_loop K cfg skip ss) n))))"
proof (induction ss arbitrary: n)
  case Nil
  show ?case by (simp add: cut_down_refl)
next
  case (Cons a ss)
  show ?case
  proof (cases "skip a")
    case True
    then show ?thesis using Cons by simp
  next
    case False
    then show ?thesis
      using cut_down_trans [OF run_delete_secret [OF assms, of "secret_name a" n] Cons] by (simp add: case_prod_beta)
  qed
qed

text \<open>
  The Secrets of a volume swept: those of other volumes are all there, in order, and of the volume's own
  only some whose deletion the API refuses.
\<close>

definition swept ::
  "('w, 'q) cluster \<Rightarrow> string \<Rightarrow> 'q codec \<Rightarrow> string \<Rightarrow> string \<Rightarrow> secret list \<Rightarrow> secret list \<Rightarrow> bool" where
  "swept K ns C node volume L L' \<longleftrightarrow>
     filter (\<lambda>s. \<not> secret_of C node volume s) L' = filter (\<lambda>s. \<not> secret_of C node volume s) L \<and>
     (\<forall>s \<in> set L'. secret_of C node volume s \<longrightarrow> s \<in> set L \<and> refuses K ns (secret_name s))"

lemma cut_down_swept:
  assumes "cut_down K ns (secret_name ` set (filter (secret_of C node volume) L)) L L'"
    and "distinct (map secret_name L)"
  shows "swept K ns C node volume L L'"
proof -
  let ?P = "secret_of C node volume"
  obtain D where D: "D \<subseteq> secret_name ` set (filter ?P L)" "L' = filter (\<lambda>s. secret_name s \<notin> D) L"
      "\<forall>x \<in> secret_name ` set (filter ?P L) - D. refuses K ns x"
    using assms(1) by (auto simp: cut_down_def)
  have "?P s" if "s \<in> set L" "secret_name s \<in> D" for s
    using that D(1) assms(2) by (auto simp: distinct_map inj_on_def)
  then have "filter (\<lambda>s. \<not> ?P s) L' = filter (\<lambda>s. \<not> ?P s) L"
    unfolding D(2) filter_filter by (intro filter_cong) auto
  then show ?thesis using D(2,3) by (auto simp: swept_def)
qed

lemma run_delete_secrets:
  assumes "secret_law K (cfg_namespace cfg) secrets" and "distinct (map secret_name L)"
  shows "triple (secrets_are secrets L) (delete_secrets K C cfg node volume False)
    (\<lambda>e n. if e = None then swept K (cfg_namespace cfg) C node volume L (secrets (node_world n)) else secrets_are secrets L n)"
proof (rule tripleI)
  fix n e n'
  assume L: "secrets_are secrets L n" and run: "run_state (delete_secrets K C cfg node volume False) n = (e, n')"
  let ?sel = "[(label_managed_by, managed_by), (label_node, label_value C node), (label_volume, label_value C volume)]"
  let ?skip = "\<lambda>s. lookup0 (om_annotations (sec_meta s)) label_node \<noteq> node \<or>
    lookup0 (om_annotations (sec_meta s)) label_volume \<noteq> volume \<or> False \<and> om_owners (sec_meta s) \<noteq> []"
  obtain r w where r: "run_state (k_list_secrets K (cfg_namespace cfg) ?sel) (node_world n) = (r, w)" by fastforce
  have w: "secrets w = L" "\<And>ss. r = Inr ss \<Longrightarrow> ss = filter (selected ?sel) L"
    using assms(1) L r unfolding secret_law_def by (metis snd_conv, metis fst_conv)
  show "if e = None then swept K (cfg_namespace cfg) C node volume L (secrets (node_world n')) else secrets_are secrets L n'"
  proof (cases r)
    case (Inl x)
    then show ?thesis using run r w by (auto simp: delete_secrets_def run_on_world)
  next
    case (Inr ss)
    have "filter (\<lambda>s. \<not> ?skip s) ss = filter (secret_of C node volume) L"
      using w(2) [OF Inr] by (auto simp: secret_of_def intro: filter_cong)
    moreover have "e = None" "n' = snd (run_state (delete_loop K cfg ?skip ss) (n\<lparr>node_world := w\<rparr>))"
      using run r Inr by (auto simp: delete_secrets_def run_on_world case_prod_beta)
    ultimately show ?thesis
      using run_delete_loop [OF assms(1), of ?skip ss "n\<lparr>node_world := w\<rparr>"] w(1)
        cut_down_swept [OF _ assms(2)] by simp
  qed
qed

definition left_by_delete ::
  "('w, 'q) cluster \<Rightarrow> string \<Rightarrow> 'q codec \<Rightarrow> string \<Rightarrow> string \<Rightarrow> ('w \<Rightarrow> secret list) \<Rightarrow> secret list \<Rightarrow>
   'q answer \<Rightarrow> 'w node \<Rightarrow> bool" where
  "left_by_delete K ns C node volume secrets L a n \<longleftrightarrow>
     (if snd a = None \<and> st_phase (fst a) \<noteq> PhaseTerminating then swept K ns C node volume L (secrets (node_world n))
      else secrets_are secrets L n)"

lemma left_by_delete_kept:
  "snd a \<noteq> None \<or> st_phase (fst a) = PhaseTerminating \<Longrightarrow> secrets_are secrets L n \<Longrightarrow>
   left_by_delete K ns C node volume secrets L a n"
  by (auto simp: left_by_delete_def)

lemma left_by_delete_error:
  "triple (secrets_are secrets L) (State_Monad.return (st, Some e)) (left_by_delete K ns C node volume secrets L)"
  by (rule triple_return) (simp add: left_by_delete_kept)

lemma left_by_delete_swept:
  "st_phase st \<noteq> PhaseTerminating \<Longrightarrow>
   triple (\<lambda>n. if e = None then swept K ns C node volume L (secrets (node_world n)) else secrets_are secrets L n)
     (State_Monad.return (st, e)) (left_by_delete K ns C node volume secrets L)"
  by (rule triple_return) (auto simp: left_by_delete_def split: if_splits)

text \<open>
  C13. Deleting a mount pod takes the credentials with it, and no others. When \<open>Delete\<close> finds the pod gone
  or releases it and reports no error, the Secrets of other volumes and nodes are all there, even those
  whose truncated labels are the same, and of the volume's own Secrets on the node, orphans of earlier
  attempts included, none is left but those the API refused to delete (the driver logs the refusal: the
  garbage collector or the next sweep retries). While the pod drains, or on an error, all of them stay.
\<close>

theorem delete_removes_credentials:
  assumes "secret_law K (cfg_namespace cfg) secrets"
    and "distinct (map secret_name (secrets (node_world n)))"
    and "run_state (delete_pod K C cfg node volume) n = ((st, e), n')"
  shows "if e = None \<and> st_phase st \<noteq> PhaseTerminating then
      filter (\<lambda>s. \<not> secret_of C node volume s) (secrets (node_world n')) =
        filter (\<lambda>s. \<not> secret_of C node volume s) (secrets (node_world n)) \<and>
      (\<forall>s \<in> set (secrets (node_world n')). secret_of C node volume s \<longrightarrow>
        s \<in> set (secrets (node_world n)) \<and> refuses K (cfg_namespace cfg) (secret_name s))
    else secrets (node_world n') = secrets (node_world n)"
proof -
  let ?L = "secrets (node_world n)"
  let ?post = "left_by_delete K (cfg_namespace cfg) C node volume secrets ?L"
  note pods = secrets_pods [OF assms(1), of ?L, unfolded keeps_def]
  note sweep = run_delete_secrets [OF assms(1,2), of C node volume]
  note kept = secrets_backoffs [of secrets ?L, unfolded keeps_def]
  have fin: "triple (secrets_are secrets ?L) (delete_finished K C cfg node volume st p) ?post" for st p
    unfolding delete_finished_def
    by (rule triple_bind [OF pods(3)])
      (auto split: prod.split option.split
        intro!: triple_bind [OF kept] triple_bind [OF sweep] left_by_delete_swept left_by_delete_error)
  have run: "triple (secrets_are secrets ?L) (delete_running K cfg st p) ?post" for st p
  proof (rule tripleI)
    fix m x m' assume m: "secrets_are secrets ?L m" and r: "run_state (delete_running K cfg st p) m = (x, m')"
    have "secrets_are secrets ?L m'" using tripleD [OF pods(4) m r] .
    moreover have "snd x = None \<Longrightarrow> st_phase (fst x) = PhaseTerminating"
      using r by (auto simp: delete_running_def run_on_world split: if_splits prod.splits sum.splits)
    ultimately show "?post x m'" by (intro left_by_delete_kept) auto
  qed
  have absent: "triple (secrets_are secrets ?L) (do { _ \<leftarrow> update_backoffs (forget volume);
      e \<leftarrow> delete_secrets K C cfg node volume False; State_Monad.return (st, e) }) ?post"
    if "st_phase st = PhaseAbsent" for st :: "'b pod_state"
    using that
    by (auto intro!: triple_bind [OF kept] triple_bind [OF sweep] left_by_delete_swept)
  have "triple (secrets_are secrets ?L) (delete_pod K C cfg node volume) ?post"
    unfolding delete_pod_def
    by (rule triple_bind [OF pods(1)])
      (auto split: prod.split option.split
        intro!: absent triple_return triple_bind [OF pods(2)] fin run left_by_delete_kept)
  then have "?post (st, e) n'" by (rule tripleD [OF _ _ assms(3)]) simp
  then show ?thesis unfolding left_by_delete_def swept_def fst_conv snd_conv .
qed

text \<open>A cluster whose world is its Secrets, with those of two volumes; it refuses to delete one name.\<close>

definition secret_cluster :: "(secret list, int) cluster" where
  "secret_cluster = (logging_cluster None)
     \<lparr>k_list_secrets := \<lambda>_ sel. State (\<lambda>w. (Inr (filter (selected sel) w), w)),
      k_delete_secret := \<lambda>_ n. State (\<lambda>w.
        if n = ''c'' then (Inl ApiOther, w) else (Inr (), filter (\<lambda>s. secret_name s \<noteq> n) w))\<rparr>"

lemma secret_cluster_law: "secret_law secret_cluster ns (\<lambda>w. w)"
  by (auto simp: secret_law_def secret_cluster_def logging_cluster_def deleted_def split: if_splits)

lemma secret_cluster_refuses: "refuses secret_cluster ns x \<longleftrightarrow> x = ''c''"
  by (simp add: refuses_def secret_cluster_def deleted_def)

definition demo_secret :: "string \<Rightarrow> string \<Rightarrow> secret" where
  "demo_secret volume name =
     (let s = build_secret demo_codec demo_config (\<lambda>_. 0) (demo_spec\<lparr>volume_id := volume\<rparr>) []
      in s\<lparr>sec_meta := (sec_meta s)\<lparr>om_name := name\<rparr>\<rparr>)"

lemma demo_secret_name: "secret_name (demo_secret volume name) = name"
  by (simp add: demo_secret_def Let_def)

lemma demo_secret_of: "secret_of demo_codec ''n1'' v (demo_secret volume name) \<longleftrightarrow> v = volume"
proof -
  have "secret_of demo_codec ''n1'' v (demo_secret volume name) =
      secret_of demo_codec ''n1'' v (build_secret demo_codec demo_config (\<lambda>_. 0) (demo_spec\<lparr>volume_id := volume\<rparr>) [])"
    by (simp add: demo_secret_def Let_def secret_of_def selected_def)
  also have "\<dots> \<longleftrightarrow> v = volume" by (simp add: built_secret_iff) (simp add: demo_spec_def)
  finally show ?thesis .
qed

theorem delete_removes_credentials_witness:
  "\<exists>st n'. run_state (delete_pod secret_cluster demo_codec demo_config ''n1'' ''d1'')
       \<lparr>node_backoffs = Map.empty, node_world = [demo_secret ''d1'' ''a'', demo_secret ''d2'' ''b'', demo_secret ''d1'' ''c'']\<rparr> =
       ((st, None), n') \<and> demo_secret ''d2'' ''b'' \<in> set (node_world n') \<and> demo_secret ''d1'' ''a'' \<notin> set (node_world n')"
proof -
  let ?w = "[demo_secret ''d1'' ''a'', demo_secret ''d2'' ''b'', demo_secret ''d1'' ''c'']"
  let ?P = "secret_of demo_codec ''n1'' ''d1''"
  have names: "distinct (map secret_name (id (node_world \<lparr>node_backoffs = Map.empty, node_world = ?w\<rparr>)))"
    by (simp add: demo_secret_name)
  obtain st e n' where run: "run_state (delete_pod secret_cluster demo_codec demo_config ''n1'' ''d1'')
      \<lparr>node_backoffs = Map.empty, node_world = ?w\<rparr> = ((st, e), n')"
    by (metis prod.exhaust)
  have ok: "e = None" "st_phase st = PhaseAbsent"
    using run by (auto simp: delete_pod_def get_state_def secret_cluster_def logging_cluster_def run_on_world
        update_backoffs_def on_backoffs_def delete_secrets_def Let_def split: prod.splits)
  have "filter (\<lambda>s. \<not> ?P s) (node_world n') = [demo_secret ''d2'' ''b''] \<and>
      (\<forall>s \<in> set (node_world n'). ?P s \<longrightarrow> s \<in> set ?w \<and> secret_name s = ''c'')"
    using delete_removes_credentials [where secrets = "\<lambda>w. w", OF secret_cluster_law _ run] names ok
    by (simp add: demo_secret_of demo_secret_name secret_cluster_refuses)
  moreover from this have "demo_secret ''d2'' ''b'' \<in> set (node_world n')"
    by (metis filter_is_subset list.set_intros(1) subsetD)
  moreover have "demo_secret ''d1'' ''a'' \<notin> set (node_world n')"
    using calculation(1) [THEN conjunct2, rule_format, of "demo_secret ''d1'' ''a''"]
    by (auto simp: demo_secret_of demo_secret_name)
  ultimately show ?thesis using run ok by blast
qed

subsection \<open>No Secret without a pod\<close>


















end
