(* ===== verification/Volume_Life.thy ===== *)
theory Volume_Life
  imports Node_Calls
begin

text \<open>
  A volume from its creation to its mount: how the answers of the controller feed the node service.
\<close>

subsection \<open>From the creation to the stage\<close>

text \<open>
  What the API answers for a claim: the controller reads its annotations, the node the whole claim; the two
  clients speak to the same cluster when they read the same annotations under every name.
\<close>

definition same_claims :: "'v controller \<Rightarrow> ('w, 'q) node_server \<Rightarrow> (string \<Rightarrow> string \<Rightarrow> claim option) \<Rightarrow> bool" where
  "same_claims C S claims \<longleftrightarrow>
     (\<forall>g ns n w r. cs_kube C = Some g \<longrightarrow> fst (run_state (g ns n) w) = Inr r \<longrightarrow>
        (\<exists>c. claims ns n = Some c \<and> r = map_of (cl_annotations c))) \<and>
     (\<forall>K ns n w c. ns_kube S = Some K \<longrightarrow> fst (run_state (kb_get_claim K ns n) w) = Inr c \<longrightarrow> claims ns n = Some c)"

abbreviation created_for :: "create_request \<Rightarrow> string \<times> string" where
  "created_for req \<equiv> (lookup0 (cv_parameters req) pvc_namespace_parameter, lookup0 (cv_parameters req) pvc_name_parameter)"

definition context_of :: "string \<times> string \<Rightarrow> string gomap" where
  "context_of nn = [(volume_context_pvc_name, snd nn), (volume_context_namespace, fst nn)]"

lemma created_context:
  assumes "run_state (create_volume X C req) w = (Inr vol, w')"
  shows "vol_context vol = context_of (created_for req)"
proof -
  have reuse: "reuse_dataroom req capacity dr = Inr vol \<Longrightarrow> vol_context vol = context_of (created_for req)" for capacity dr
    by (auto simp: reuse_dataroom_def create_volume_response_def context_of_def Let_def split: option.splits if_splits)
  have fresh: "run_state (provision_dataroom X retyc req capacity versioning) u = (Inr vol, w') \<Longrightarrow>
      vol_context vol = context_of (created_for req)" for retyc capacity versioning u
    by (auto simp: provision_dataroom_def attempt_Inr guarded_Inr create_volume_response_def context_of_def)
  show ?thesis
    using assms
    by (auto simp: create_volume_def guarded_Inr check_Inr attempt_Inr split: option.splits dest: reuse fresh)
qed

lemma same_claims_read:
  "same_claims C S claims \<Longrightarrow> cs_kube C = Some g \<Longrightarrow> fst (run_state (g ns n) w) = Inr r \<Longrightarrow>
   \<exists>c. claims ns n = Some c \<and> r = map_of (cl_annotations c)"
  unfolding same_claims_def by blast

lemma claim_owner_cong:
  "s annotation_uid = t annotation_uid \<Longrightarrow> s annotation_gid = t annotation_gid \<Longrightarrow> claim_owner s = claim_owner t"
  by (simp add: claim_owner_def cong: option.case_cong sum.case_cong)

lemma checked_claim:
  assumes "run_state (check_claim C ns n) u = (Inr (), u')"
  shows "ns \<noteq> [] \<and> n \<noteq> [] \<and>
    (\<exists>g a v x. cs_kube C = Some g \<and> claim_owner a = Inr v \<and> fst (run_state (g ns n) x) = Inr a)"
proof -
  obtain g a x where g: "cs_kube C = Some g" "ns \<noteq> []" "n \<noteq> []" "run_state (g ns n) u = (Inr a, x)"
      "run_state (case claim_owner a of Inl _ \<Rightarrow> State_Monad.return (Inl (err InvalidArgument))
        | Inr _ \<Rightarrow> State_Monad.return (Inr ())) x = (Inr (), u')"
    using assms by (auto simp: check_claim_def guarded_Inr attempt_Inr split: option.splits)
  obtain v where "claim_owner a = Inr v" using g(5) by (cases "claim_owner a") simp_all
  moreover have "fst (run_state (g ns n) u) = Inr a" using g(4) by simp
  ultimately show ?thesis using g(1-3) by blast
qed

lemma created_claim:
  assumes "run_state (create_volume X C req) w = (Inr vol, w')" and "same_claims C S claims"
  shows "\<exists>ns n c v. created_for req = (ns, n) \<and> ns \<noteq> [] \<and> n \<noteq> [] \<and> claims ns n = Some c \<and>
    claim_owner (map_of (cl_annotations c)) = Inr v"
proof -
  obtain u u' where "run_state (check_claim C (fst (created_for req)) (snd (created_for req))) u = (Inr (), u')"
    using assms(1) by (auto simp: create_volume_def guarded_Inr check_Inr attempt_Inr)
  from checked_claim [OF this] obtain g a v x where g: "cs_kube C = Some g" "claim_owner a = Inr v"
      "fst (run_state (g (fst (created_for req)) (snd (created_for req))) x) = Inr a"
      and named: "fst (created_for req) \<noteq> []" "snd (created_for req) \<noteq> []"
    by blast
  then obtain c where "claims (fst (created_for req)) (snd (created_for req)) = Some c" "a = map_of (cl_annotations c)"
    using same_claims_read [OF assms(2) g(1,3)] by blast
  then show ?thesis using g named by auto
qed

lemma stage_spec_claim:
  assumes "run_state (stage_spec S req) s = (Inr (sp, claim), t)" and "same_claims C S claims"
    and "pvc_name sp \<noteq> []" and "pvc_namespace sp \<noteq> []"
  shows "claim = claims (pvc_namespace sp) (pvc_name sp) \<and> claim \<noteq> None \<and>
    claim_owner (stage_settings req claim) = Inr (spec_uid sp, spec_gid sp)"
proof -
  note sp = stage_spec_fields [OF assms(1)]
  obtain u where u: "run_state (stage_claim S req) s = (Inr claim, u)"
    and owner: "claim_owner (stage_settings req claim) = Inr (spec_uid sp, spec_gid sp)"
    using assms(1)
    by (auto simp: stage_spec_def attempt_Inr check_Inr parse_mount_settings_def split: sum.splits)
  obtain K x c where "ns_kube S = Some K" "claim = Some c"
      "fst (run_state (kb_get_claim K (pvc_namespace sp) (pvc_name sp)) x) = Inr c"
    using u assms(3,4) sp(4,5)
    by (auto simp: stage_claim_def Let_def run_on_host split: option.splits sum.splits prod.splits api_failure.splits)
      (metis fst_conv)
  then show ?thesis using assms(2) owner by (auto simp: same_claims_def)
qed

text \<open>
  C15. A volume is staged for the claim it was created for, and its files belong to the owner that this claim
  names: the volume context that CreateVolume answers leads NodeStageVolume to the same claim, whatever
  keys the provisioner adds to it, and the mount takes the user and group of the claim's annotations, which
  the controller had checked before it created anything.
\<close>

theorem staged_for_created_claim:
  assumes "run_state (create_volume X C creq) w = (Inr vol, w')" and "same_claims C S claims"
    and "namespace_name (lookup0 (cv_parameters creq) pvc_namespace_parameter)"
    and "sr_context req = vol_context vol @ extra" and "annotation_uid \<notin> fst ` set extra" "annotation_gid \<notin> fst ` set extra"
    and "run_state (stage_spec S req) s = (Inr (sp, claim), t)"
  shows "(pvc_namespace sp, pvc_name sp) = created_for creq \<and>
    (\<exists>c. claim = Some c \<and> claims (pvc_namespace sp) (pvc_name sp) = Some c \<and>
       claim_owner (map_of (cl_annotations c)) = Inr (spec_uid sp, spec_gid sp))"
proof -
  have ctx: "sr_context req = context_of (created_for creq) @ extra"
    using assms(4) created_context [OF assms(1)] by simp
  have keys: "volume_context_pvc_name \<noteq> volume_context_namespace"
    "annotation_uid \<notin> {volume_context_pvc_name, volume_context_namespace}"
    "annotation_gid \<notin> {volume_context_pvc_name, volume_context_namespace}"
    by (simp_all add: volume_context_pvc_name_def volume_context_namespace_def annotation_defs)
  have names: "pvc_name sp = snd (created_for creq)" "pvc_namespace sp = fst (created_for creq)"
    using stage_spec_fields(4,5) [OF assms(7)] assms(3) keys(1)
    by (simp_all add: ctx context_of_def lookup0_def claim_namespace_def)
  have "pvc_name sp \<noteq> []" "pvc_namespace sp \<noteq> []"
    using created_claim [OF assms(1,2)] names by auto
  note found = stage_spec_claim [OF assms(7,2) this]
  have "map_of (sr_context req) annotation_uid = None" "map_of (sr_context req) annotation_gid = None"
    using keys assms(5,6) by (auto simp: ctx context_of_def map_of_eq_None_iff)
  then have "claim_owner (stage_settings req claim) = claim_owner (map_of (cl_annotations c))" if "claim = Some c" for c
  proof -
    have "(m ++ n) k = n k" if "m k = None" for m n :: settings and k
      using that by (simp add: map_add_def split: option.split)
    then have "stage_settings req claim annotation_uid = map_of (cl_annotations c) annotation_uid"
      "stage_settings req claim annotation_gid = map_of (cl_annotations c) annotation_gid"
      using \<open>map_of (sr_context req) annotation_uid = None\<close> \<open>map_of (sr_context req) annotation_gid = None\<close> that
      by (simp_all add: stage_settings_def)
    then show ?thesis by (rule claim_owner_cong)
  qed
  then show ?thesis using found names by auto
qed

text \<open>The claim of the concrete controller, as the node of the served pod reads it.\<close>

definition data_claim :: claim where
  "data_claim = \<lparr>cl_namespace = ''default'', cl_name = ''data'', cl_annotations = [(annotation_uid, ''7'')],
     cl_volume_name = ''pv''\<rparr>"

definition claim_server :: "(int, int) node_server" where
  "claim_server = served_server\<lparr>ns_kube := Some
     \<lparr>kb_get_claim = \<lambda>_ _. State_Monad.return (Inr data_claim),
      kb_list_volumes = State_Monad.return (Inr []), kb_class_parameters = \<lambda>_. State_Monad.return (Inr [])\<rparr>\<rparr>"

definition created_request :: stage_request where
  "created_request = served_request\<lparr>sr_context := vol_context (created demo_request ''d1'' (30 * 2 ^ 30))\<rparr>"

lemma created_request_context: "sr_context created_request = context_of (''default'', ''data'')"
  by (simp add: created_request_def created_def create_volume_response_def context_of_def demo_request_def lookup0_def
      pvc_name_parameter_def pvc_namespace_parameter_def)

lemma created_stage_spec:
  "\<exists>sp. run_state (stage_spec claim_server created_request) s = (Inr (sp, Some data_claim), s)"
proof -
  have id: "parse_uint ''7'' 32 = Some 7" by (simp add: parse_uint_def is_digit_def read_nat_def digit_val_def)
  have named: "lookup0 (sr_context created_request) volume_context_pvc_name = ''data''"
    "lookup0 (sr_context created_request) volume_context_namespace = ''default''"
    "namespace_name ''default''"
    by (simp_all add: created_request_context context_of_def lookup0_def volume_context_pvc_name_def
        volume_context_namespace_def namespace_name_def name_char_def)
  have settings: "\<exists>m. parse_mount_settings demo_parsers [] (stage_settings created_request (Some data_claim)) = Inr m"
    by (simp add: parse_mount_settings_def claim_owner_def parse_id_def id parse_cache_ttl_def stage_settings_def
        created_request_context context_of_def data_claim_def volume_context_pvc_name_def volume_context_namespace_def
        annotation_defs parse_local_file_def parse_mount_resources_def resource_annotations_def no_options_def)
  have creds: "from_secrets (sr_secrets created_request) = Inr (Some \<lparr>token = ''t'', passphrase = ''p''\<rparr>)"
    by (simp add: from_secrets_def created_request_def served_request_def lookup0_def token_key_def passphrase_key_def)
  show ?thesis
    using settings creds named
    by (auto simp: stage_spec_def stage_claim_def stage_credentials_def claim_namespace_def Let_def run_on_host
        run_attempt run_check claim_server_def served_server_def clock_server_def)
qed

theorem staged_for_created_claim_witness:
  "\<exists>sp. run_state (stage_spec claim_server created_request) (memory_at 0) = (Inr (sp, Some data_claim), memory_at 0) \<and>
     (pvc_namespace sp, pvc_name sp) = (''default'', ''data'') \<and> (spec_uid sp, spec_gid sp) = (7, 7)"
proof -
  obtain sp where sp: "run_state (stage_spec claim_server created_request) (memory_at 0) = (Inr (sp, Some data_claim), memory_at 0)"
    using created_stage_spec by blast
  have claims: "same_claims demo_controller claim_server (\<lambda>_ _. Some data_claim)"
    by (simp add: same_claims_def demo_controller_def claim_server_def data_claim_def)
  have named: "created_for demo_request = (''default'', ''data'')" "namespace_name ''default''"
    by (simp_all add: demo_request_def lookup0_def pvc_name_parameter_def pvc_namespace_parameter_def
        namespace_name_def name_char_def)
  have owner: "claim_owner (map_of (cl_annotations data_claim)) = Inr (7, 7)"
    by (simp add: claim_owner_def parse_id_def data_claim_def annotation_defs parse_uint_def is_digit_def
        read_nat_def digit_val_def)
  have ctx: "sr_context created_request = vol_context (created demo_request ''d1'' (30 * 2 ^ 30)) @ []"
    by (simp add: created_request_def)
  have "namespace_name (lookup0 (cv_parameters demo_request) pvc_namespace_parameter)" using named by simp
  from staged_for_created_claim [OF demo_created claims this ctx _ _ sp] show ?thesis
    using sp named(1) owner by simp
qed

end
