(* ===== verification/Plugin.thy ===== *)
theory Plugin
  imports Node_Service
begin

text \<open>
  The process around the two services: the mount pod configuration file
  (internal/mountpod/config.go), the health endpoints (internal/health/health.go), the CSI identity
  service (internal/driver/identity.go) and the decisions of main.go: what the plugin is started as
  and with what. JSON, the environment, files and sockets are parameters.
\<close>

subsection \<open>The configuration file\<close>

record 'q file_config =
  fc_image :: string
  fc_cli_version :: string
  fc_pull_policy :: string
  fc_pull_secrets :: "string list"
  fc_extra_env :: "env_var list"
  fc_host_aliases :: "(string \<times> string list) list"
  fc_host_pid :: bool
  fc_resources :: "'q resource_requirements"
  fc_priority_class :: string
  fc_kubelet_dir :: string
  fc_spool_dir :: string
  fc_drain_timeout :: string
  fc_metrics_port :: int
  fc_redis_url :: string
  fc_redis_confidential :: bool

datatype config_error = BadJson | NoImage | BadDrainTimeout string | FileUnreadable string

text \<open>\<open>decode\<close> is the JSON decoder with \<open>DisallowUnknownFields\<close>, \<open>duration\<close> is \<open>time.ParseDuration\<close>.\<close>

definition parse_config ::
  "(string \<Rightarrow> 'q file_config option) \<Rightarrow> (string \<Rightarrow> int option) \<Rightarrow> string \<Rightarrow> config_error + 'q config \<times> cache" where
  "parse_config decode duration data =
     (case decode data of
        None \<Rightarrow> Inl BadJson
      | Some fc \<Rightarrow>
          if fc_image fc = [] then Inl NoImage
          else
            let cfg = \<lparr>restart_backoff = 0, max_restart_backoff = 0, stable_after = 0, max_fatal_exits = 0,
                  cfg_namespace = [], cfg_image = fc_image fc, cfg_cli_version = fc_cli_version fc,
                  cfg_pull_policy = fc_pull_policy fc, cfg_pull_secrets = fc_pull_secrets fc,
                  cfg_extra_env = fc_extra_env fc, cfg_host_aliases = fc_host_aliases fc,
                  cfg_host_pid = fc_host_pid fc, cfg_resources = fc_resources fc,
                  cfg_priority_class = fc_priority_class fc, cfg_kubelet_dir = fc_kubelet_dir fc,
                  cfg_spool_root = fc_spool_dir fc, cfg_drain_timeout = 0,
                  cfg_metrics_port = fc_metrics_port fc\<rparr>;
                cache_settings = \<lparr>redis_url = fc_redis_url fc, high_confidentiality = fc_redis_confidential fc\<rparr>
            in if fc_drain_timeout fc = [] then Inr (cfg, cache_settings)
               else (case duration (fc_drain_timeout fc) of
                   None \<Rightarrow> Inl (BadDrainTimeout (fc_drain_timeout fc))
                 | Some d \<Rightarrow>
                     if d \<le> 0 then Inl (BadDrainTimeout (fc_drain_timeout fc))
                     else Inr (cfg\<lparr>cfg_drain_timeout := d\<rparr>, cache_settings)))"

definition load_config ::
  "(string \<Rightarrow> string + string) \<Rightarrow> (string \<Rightarrow> 'q file_config option) \<Rightarrow> (string \<Rightarrow> int option) \<Rightarrow> string \<Rightarrow>
   config_error + 'q config \<times> cache" where
  "load_config read_file decode duration p =
     (case read_file p of
        Inl e \<Rightarrow> Inl (FileUnreadable e)
      | Inr data \<Rightarrow> parse_config decode duration data)"

text \<open>With the defaults of \<open>New\<close>, the drain timeout is always a positive one: pods get time to drain.\<close>

lemma drain_timeout_positive:
  "parse_config decode duration data = Inr (cfg, c) \<Longrightarrow> 0 < cfg_drain_timeout (new_config res cfg)"
  by (auto simp: parse_config_def Let_def new_config_def set_default_def seconds_def
      split: option.splits if_splits)

subsection \<open>Health\<close>

text \<open>
  \<open>Cached\<close>: the last result and when it was found (the zero time: never), with the clock read before
  and after a check.
\<close>

record 'e cached_check =
  cc_last :: "'e option"
  cc_checked :: "int option"

definition never_checked :: "'e cached_check" where
  "never_checked = \<lparr>cc_last = None, cc_checked = None\<rparr>"

definition fresh_at :: "int \<Rightarrow> int \<Rightarrow> 'e cached_check \<Rightarrow> bool" where
  "fresh_at ttl now c = (case cc_checked c of None \<Rightarrow> False | Some t \<Rightarrow> now - t < ttl)"

definition cached ::
  "('w, int) state \<Rightarrow> ('w, 'e option) state \<Rightarrow> int \<Rightarrow> ('w \<times> 'e cached_check, 'e option) state" where
  "cached clock checker ttl = State (\<lambda>(w, c).
     case run_state clock w of (now, w) \<Rightarrow>
       if fresh_at ttl now c then (cc_last c, (w, c))
       else case run_state checker w of (r, w) \<Rightarrow>
         case run_state clock w of (now, w) \<Rightarrow> (r, (w, \<lparr>cc_last = r, cc_checked = Some now\<rparr>)))"

text \<open>
  \<open>n\<close> calls in a row over a world that counts the checks run (\<open>snd\<close>) and whose clock stays within
  \<open>ttl\<close> of the first check: at most one check is run.
\<close>

primrec repeat_calls :: "nat \<Rightarrow> ('s, 'a) state \<Rightarrow> ('s, unit) state" where
  "repeat_calls 0 m = State_Monad.return ()"
| "repeat_calls (Suc n) m = do { _ \<leftarrow> m; repeat_calls n m }"

definition counted :: "('w, 'a) state \<Rightarrow> ('w \<times> nat, 'a) state" where
  "counted m = State (\<lambda>(w, n). case run_state m w of (x, w') \<Rightarrow> (x, (w', Suc n)))"

definition uncounted :: "('w, 'a) state \<Rightarrow> ('w \<times> nat, 'a) state" where
  "uncounted m = State (\<lambda>(w, n). case run_state m w of (x, w') \<Rightarrow> (x, (w', n)))"

lemma cached_fresh:
  assumes "cc_checked c = Some t" and "\<And>w. fst (run_state clock w) - t < ttl"
  shows "\<exists>w'. run_state (cached (uncounted clock) (counted checker) ttl) ((w, k), c) = (cc_last c, ((w', k), c))"
proof -
  obtain now w' where "run_state clock w = (now, w')" by fastforce
  moreover have "now - t < ttl" using assms(2) [of w] calculation by simp
  ultimately show ?thesis using assms(1) by (simp add: cached_def uncounted_def fresh_at_def)
qed

lemma cached_fresh_calls:
  assumes "cc_checked c = Some t" and "\<And>w. fst (run_state clock w) - t < ttl"
  shows "\<exists>w'. run_state (repeat_calls n (cached (uncounted clock) (counted checker) ttl)) ((w, k), c) = ((), ((w', k), c))"
proof (induction n arbitrary: w)
  case (Suc n)
  obtain v where "run_state (cached (uncounted clock) (counted checker) ttl) ((w, k), c) = (cc_last c, ((v, k), c))"
    using cached_fresh [OF assms] by blast
  then show ?case using Suc [of v] by simp
qed simp

lemma cached_once:
  assumes window: "\<And>w. t0 \<le> fst (run_state clock w) \<and> fst (run_state clock w) < t0 + ttl"
  shows "\<exists>w' c. run_state (repeat_calls (Suc n) (cached (uncounted clock) (counted checker) ttl)) ((w, k), never_checked) =
    ((), ((w', Suc k), c))"
proof -
  obtain x a where a: "run_state clock w = (x, a)" by fastforce
  obtain r b where b: "run_state checker a = (r, b)" by fastforce
  obtain t d where d: "run_state clock b = (t, d)" by fastforce
  have step: "run_state (cached (uncounted clock) (counted checker) ttl) ((w, k), never_checked) =
      (r, ((d, Suc k), \<lparr>cc_last = r, cc_checked = Some t\<rparr>))"
    using a b d by (simp add: cached_def uncounted_def counted_def fresh_at_def never_checked_def)
  have "t0 \<le> t" using window [of b] d by simp
  then have "fst (run_state clock w) - t < ttl" for w using window [of w] by linarith
  then have "\<exists>w'. run_state (repeat_calls n (cached (uncounted clock) (counted checker) ttl))
      ((d, Suc k), \<lparr>cc_last = r, cc_checked = Some t\<rparr>) = ((), ((w', Suc k), \<lparr>cc_last = r, cc_checked = Some t\<rparr>))"
    by (intro cached_fresh_calls) simp_all
  then show ?thesis using step by auto
qed

text \<open>\<open>/readyz\<close>: the status and, as in the body, the error; without a checker it succeeds.\<close>

definition healthz :: nat where "healthz = 200"

definition readyz :: "('w, 'e option) state option \<Rightarrow> ('w, nat \<times> 'e option) state" where
  "readyz checker =
     (case checker of
        None \<Rightarrow> State_Monad.return (200, None)
      | Some m \<Rightarrow> do {
          r \<leftarrow> m;
          State_Monad.return (case r of None \<Rightarrow> (200, None) | Some e \<Rightarrow> (503, Some e))
        })"

text \<open>\<open>Probe\<close> says the same, and is never an error.\<close>

definition probe :: "('w, 'e option) state option \<Rightarrow> ('w, bool) state" where
  "probe checker =
     (case checker of
        None \<Rightarrow> State_Monad.return True
      | Some m \<Rightarrow> do {
          r \<leftarrow> m;
          State_Monad.return (r = None)
        })"

lemma probe_is_readyz:
  "run_state (probe c) w = (b, w') \<longleftrightarrow> (\<exists>e. run_state (readyz c) w = ((if b then 200 else 503, e), w'))"
  by (auto simp: probe_def readyz_def split: option.splits prod.splits)

datatype plugin_capability = CONTROLLER_SERVICE | ONLINE_EXPANSION

definition get_plugin_info :: "string \<Rightarrow> string \<times> string" where
  "get_plugin_info version = (plugin_name, version)"

definition get_plugin_capabilities :: "plugin_capability list" where
  "get_plugin_capabilities = [CONTROLLER_SERVICE, ONLINE_EXPANSION]"

subsection \<open>Starting the plugin\<close>

record options =
  op_mode :: string
  op_endpoint :: string
  op_retyc_bin :: string
  op_node_id :: string
  op_mount_config :: string
  op_namespace :: string
  op_http_endpoint :: string

datatype start_error =
    NoHostname string
  | NoNamespace
  | BadConfig config_error
  | NoKubernetes string
  | BadMode string
  | BadEndpoint string

text \<open>
  The node ID and the namespace of \<open>nodeServer\<close>: the flag, then the variables in their order, then the
  host name. \<open>env\<close> is \<open>os.Getenv\<close>, which reads a missing variable as empty.
\<close>

definition first_set :: "(string \<Rightarrow> string) \<Rightarrow> string \<Rightarrow> string list \<Rightarrow> string" where
  "first_set env flag vars = foldl (\<lambda>x v. if x = [] then env v else x) flag vars"

definition node_id :: "(string \<Rightarrow> string) \<Rightarrow> string + string \<Rightarrow> options \<Rightarrow> start_error + string" where
  "node_id env hostname opts =
     (let x = first_set env (op_node_id opts) [''NODE_ID'', ''NODE_NAME'']
      in if x = [] then (case hostname of Inl e \<Rightarrow> Inl (NoHostname e) | Inr h \<Rightarrow> Inr h) else Inr x)"

definition driver_namespace :: "(string \<Rightarrow> string) \<Rightarrow> options \<Rightarrow> start_error + string" where
  "driver_namespace env opts =
     (let ns = first_set env (op_namespace opts) [''POD_NAMESPACE'']
      in if ns = [] then Inl NoNamespace else Inr ns)"

text \<open>
  \<open>nodeServer\<close>: the node ID, the Manager's configuration (\<open>mountpod.New\<close> applied) and the cache; the
  clients, the event broadcaster and the mounter are those of the libraries.
\<close>

definition node_setup ::
  "'q resource_requirements \<Rightarrow> (string \<Rightarrow> string) \<Rightarrow> string + string \<Rightarrow> (string \<Rightarrow> config_error + 'q config \<times> cache) \<Rightarrow>
   string option \<Rightarrow> options \<Rightarrow> start_error + string \<times> 'q config \<times> cache" where
  "node_setup default_resources env hostname load kube_error opts =
     (case node_id env hostname opts of Inl e \<Rightarrow> Inl e | Inr node \<Rightarrow>
      (case driver_namespace env opts of Inl e \<Rightarrow> Inl e | Inr ns \<Rightarrow>
       (case load (op_mount_config opts) of Inl e \<Rightarrow> Inl (BadConfig e) | Inr (cfg, c) \<Rightarrow>
         let url = env ''RETYC_CACHE_REDIS_URL'';
             c = (if url \<noteq> [] then c\<lparr>redis_url := url\<rparr> else c)
         in (case kube_error of
             Some e \<Rightarrow> Inl (NoKubernetes e)
           | None \<Rightarrow> Inr (node, new_config default_resources (cfg\<lparr>cfg_namespace := ns\<rparr>), c)))))"

text \<open>
  The switch of \<open>run\<close> over the mode, from the environment of the process: the controller runs the CLI with
  the key cache off, and is ready as its own identity is, when it has one; the node plugin depends
  on no check.
\<close>

datatype 'q plugin =
    ControllerPlugin client bool
  | NodePlugin string "'q config" cache "credentials option"

definition child_env :: "string list \<Rightarrow> string list" where
  "child_env environ = merge_env environ [(keyring_enabled_key, ''false'')]"

definition start ::
  "string list \<Rightarrow> string option \<Rightarrow> (options \<Rightarrow> start_error + string \<times> 'q config \<times> cache) \<Rightarrow> options \<Rightarrow>
   start_error + 'q plugin" where
  "start environ kube_error setup opts =
     (let env = child_env environ; identity = from_env env
      in if op_mode opts = ''controller'' then
           (case kube_error of
              Some e \<Rightarrow> Inl (NoKubernetes e)
            | None \<Rightarrow> Inr (ControllerPlugin (new_client (op_retyc_bin opts) env) (identity \<noteq> None)))
         else if op_mode opts = ''node'' then
           (case setup opts of
              Inl e \<Rightarrow> Inl e
            | Inr (node, cfg, c) \<Rightarrow> Inr (NodePlugin node cfg c identity))
         else Inl (BadMode (op_mode opts)))"

definition endpoint_socket :: "string \<Rightarrow> start_error + string" where
  "endpoint_socket endpoint =
     (if has_prefix endpoint ''unix://'' then Inr (drop 7 endpoint) else Inl (BadEndpoint endpoint))"

text \<open>
  What \<open>run\<close> does to the outside once it knows what it is: the endpoints over HTTP, the first round of
  the recovery and the watch (node mode), the CSI socket. Goroutines are the calls that start them.
\<close>

record 'w process =
  pr_serve_http :: "string \<Rightarrow> ('w, unit) state"
  pr_recover :: "('w, unit) state"
  pr_watch :: "('w, unit) state"
  pr_remove :: "string \<Rightarrow> ('w, sys_error + unit) state"
  pr_listen :: "string \<Rightarrow> ('w, string + unit) state"
  pr_serve :: "('w, string option) state"

datatype run_error = NotStarted start_error | StaleSocket sys_error | NoListener string | Served string

definition listen :: "'w process \<Rightarrow> string \<Rightarrow> ('w, run_error + unit) state" where
  "listen P endpoint =
     (case endpoint_socket endpoint of
        Inl e \<Rightarrow> State_Monad.return (Inl (NotStarted e))
      | Inr addr \<Rightarrow> do {
          r \<leftarrow> pr_remove P addr;
          (case r of
             Inr _ \<Rightarrow> attempt (pr_listen P addr) NoListener (\<lambda>_. State_Monad.return (Inr ()))
           | Inl Enoent \<Rightarrow> attempt (pr_listen P addr) NoListener (\<lambda>_. State_Monad.return (Inr ()))
           | Inl e \<Rightarrow> State_Monad.return (Inl (StaleSocket e)))
        })"

definition before_socket :: "'w process \<Rightarrow> 'q plugin \<Rightarrow> options \<Rightarrow> ('w, unit) state" where
  "before_socket P plugin opts = do {
     _ \<leftarrow> (if op_http_endpoint opts \<noteq> [] then pr_serve_http P (op_http_endpoint opts) else State_Monad.return ());
     (case plugin of
        NodePlugin _ _ _ _ \<Rightarrow> do { _ \<leftarrow> pr_recover P; pr_watch P }
      | ControllerPlugin _ _ \<Rightarrow> State_Monad.return ())
   }"

definition run_plugin :: "'w process \<Rightarrow> start_error + 'q plugin \<Rightarrow> options \<Rightarrow> ('w, run_error option) state" where
  "run_plugin P started opts =
     (case started of
        Inl e \<Rightarrow> State_Monad.return (Some (NotStarted e))
      | Inr plugin \<Rightarrow> do {
          _ \<leftarrow> before_socket P plugin opts;
          l \<leftarrow> listen P (op_endpoint opts);
          (case l of
             Inl e \<Rightarrow> State_Monad.return (Some e)
           | Inr _ \<Rightarrow> do { e \<leftarrow> pr_serve P; State_Monad.return (map_option Served e) })
        })"

text \<open>A process that records its steps, in front of any other.\<close>

datatype process_step = ServeHttp | RecoverRound | StartWatch | RemoveSocket string | Listen string | Serve

definition noting_step :: "process_step \<Rightarrow> ('w, 'a) state \<Rightarrow> ('w \<times> process_step list, 'a) state" where
  "noting_step x m = State (\<lambda>(w, l). case run_state m w of (a, w') \<Rightarrow> (a, (w', l @ [x])))"

definition recorded_process :: "'w process \<Rightarrow> ('w \<times> process_step list) process" where
  "recorded_process P =
     \<lparr>pr_serve_http = \<lambda>a. noting_step ServeHttp (pr_serve_http P a), pr_recover = noting_step RecoverRound (pr_recover P),
      pr_watch = noting_step StartWatch (pr_watch P), pr_remove = \<lambda>a. noting_step (RemoveSocket a) (pr_remove P a),
      pr_listen = \<lambda>a. noting_step (Listen a) (pr_listen P a), pr_serve = noting_step Serve (pr_serve P)\<rparr>"

lemma run_noting_step [simp]:
  "run_state (noting_step x m) (w, l) = (case run_state m w of (a, w') \<Rightarrow> (a, (w', l @ [x])))"
  by (simp add: noting_step_def)

text \<open>
  Kubelet's first call finds the mounts repaired: in node mode the socket is opened and served only after a
  round of the recovery, which in controller mode does not exist.
\<close>

lemma listen_steps:
  "\<exists>k. snd (snd (run_state (listen (recorded_process P) endpoint) (w, l))) = l @ k \<and> RecoverRound \<notin> set k"
  by (auto simp: listen_def recorded_process_def run_attempt
      split: sum.splits sys_error.splits prod.splits)

definition steps_before :: "'q plugin \<Rightarrow> options \<Rightarrow> process_step list" where
  "steps_before plugin opts = (if op_http_endpoint opts \<noteq> [] then [ServeHttp] else []) @
     (case plugin of NodePlugin _ _ _ _ \<Rightarrow> [RecoverRound, StartWatch] | ControllerPlugin _ _ \<Rightarrow> [])"

lemma before_steps:
  "\<exists>v. run_state (before_socket (recorded_process P) plugin opts) (w, []) = ((), (v, steps_before plugin opts))"
  by (cases plugin) (auto simp: before_socket_def steps_before_def recorded_process_def split: prod.split)

lemma run_steps:
  assumes "run_state (run_plugin (recorded_process P) (Inr plugin) opts) (w, []) = (r, (w', l))"
  shows "\<exists>rest. l = steps_before plugin opts @ rest \<and> RecoverRound \<notin> set rest"
proof -
  obtain v where v: "run_state (before_socket (recorded_process P) plugin opts) (w, []) = ((), (v, steps_before plugin opts))"
    using before_steps [of P plugin opts w] by blast
  obtain k where "snd (snd (run_state (listen (recorded_process P) (op_endpoint opts)) (v, steps_before plugin opts))) =
      steps_before plugin opts @ k" "RecoverRound \<notin> set k"
    using listen_steps [of P "op_endpoint opts" v "steps_before plugin opts"] by blast
  with v assms show ?thesis
    by (auto simp: run_plugin_def recorded_process_def split: prod.splits sum.splits)
qed

end
