(* ===== verification/Process_Start.thy ===== *)
theory Process_Start
  imports Plugin "HOL-Library.Multiset"
begin

text \<open>
  The edges of the process: the command line of main.go, read as the flag package reads it, its exit status and the
  clients, the gauges of internal/driver/metrics.go, and the HTTP server of internal/health/health.go.
\<close>

subsection \<open>Flags\<close>

definition default_options :: options where
  "default_options =
     \<lparr>op_mode = [], op_endpoint = ''unix:///csi/csi.sock'', op_retyc_bin = ''retyc'', op_node_id = [],
      op_mount_config = ''/etc/retycfs-csi/mount.json'', op_namespace = [], op_http_endpoint = '':9808''\<rparr>"

text \<open>The variable behind a flag of the plugin, as the name tells it.\<close>

definition option_setter :: "string \<Rightarrow> (string \<Rightarrow> options \<Rightarrow> options) option" where
  "option_setter name =
     map_of
       [(''mode'', \<lambda>v o'. o'\<lparr>op_mode := v\<rparr>),
        (''endpoint'', \<lambda>v o'. o'\<lparr>op_endpoint := v\<rparr>),
        (''retyc-bin'', \<lambda>v o'. o'\<lparr>op_retyc_bin := v\<rparr>),
        (''node-id'', \<lambda>v o'. o'\<lparr>op_node_id := v\<rparr>),
        (''mount-config'', \<lambda>v o'. o'\<lparr>op_mount_config := v\<rparr>),
        (''namespace'', \<lambda>v o'. o'\<lparr>op_namespace := v\<rparr>),
        (''http-endpoint'', \<lambda>v o'. o'\<lparr>op_http_endpoint := v\<rparr>)] name"

text \<open>A flag that klog registers: whether it is a boolean one, and the values it takes.\<close>

record klog_flag =
  kf_bool :: bool
  kf_accepts :: "string \<Rightarrow> bool"

datatype flag_error = BadFlagSyntax string | UndefinedFlag string | MissingArgument string | BadFlagValue string string | HelpAsked

text \<open>The name and, after the first \<open>=\<close> that is not in front, the value of a flag.\<close>

definition split_flag :: "string \<Rightarrow> string \<times> string option" where
  "split_flag s =
     (case dropWhile (\<lambda>c. c \<noteq> CHR ''='') (tl s) of
        [] \<Rightarrow> (s, None)
      | _ # v \<Rightarrow> (hd s # takeWhile (\<lambda>c. c \<noteq> CHR ''='') (tl s), Some v))"

text \<open>\<open>flag.Parse\<close> over the remaining arguments.\<close>

fun parse_flags :: "(string \<Rightarrow> klog_flag option) \<Rightarrow> string list \<Rightarrow> options \<Rightarrow> flag_error + options" where
  "parse_flags klog [] opts = Inr opts"
| "parse_flags klog (s # args) opts =
     (if length s < 2 \<or> hd s \<noteq> CHR ''-'' then Inr opts
      else if s = ''--'' then Inr opts
      else
        (let name = (if s ! 1 = CHR ''-'' then drop 2 s else drop 1 s)
         in if name = [] \<or> hd name = CHR ''-'' \<or> hd name = CHR ''='' then Inl (BadFlagSyntax s)
            else case split_flag name of (name, value) \<Rightarrow>
              (case option_setter name of
                 Some put \<Rightarrow>
                   (case value of
                      Some v \<Rightarrow> parse_flags klog args (put v opts)
                    | None \<Rightarrow> (case args of
                          [] \<Rightarrow> Inl (MissingArgument name)
                        | v # rest \<Rightarrow> parse_flags klog rest (put v opts)))
               | None \<Rightarrow>
                   (case klog name of
                      None \<Rightarrow> Inl (if name = ''help'' \<or> name = ''h'' then HelpAsked else UndefinedFlag name)
                    | Some f \<Rightarrow>
                        if kf_bool f then
                          (let v = (case value of None \<Rightarrow> ''true'' | Some v \<Rightarrow> v)
                           in if kf_accepts f v then parse_flags klog args opts else Inl (BadFlagValue name v))
                        else
                          (case value of
                             Some v \<Rightarrow> if kf_accepts f v then parse_flags klog args opts else Inl (BadFlagValue name v)
                           | None \<Rightarrow> (case args of
                                 [] \<Rightarrow> Inl (MissingArgument name)
                               | v # rest \<Rightarrow>
                                   if kf_accepts f v then parse_flags klog rest opts else Inl (BadFlagValue name v)))))))"

text \<open>
  \<open>main\<close>: the exit status of the process. \<open>flag.Parse\<close> exits with 2 on an error and with 0 after the help;
  \<open>klog.Fatal\<close> exits with 255.
\<close>

definition main_status ::
  "(string \<Rightarrow> klog_flag option) \<Rightarrow> (options \<Rightarrow> ('w, 'e option) state) \<Rightarrow> string list \<Rightarrow> ('w, nat) state" where
  "main_status klog run args =
     (case parse_flags klog args default_options of
        Inl e \<Rightarrow> State_Monad.return (if e = HelpAsked then 0 else 2)
      | Inr opts \<Rightarrow> do {
          r \<leftarrow> run opts;
          State_Monad.return (case r of None \<Rightarrow> 0 | Some _ \<Rightarrow> 255)
        })"

text \<open>The command line that sets every flag, and what is read from it.\<close>

definition option_values :: "options \<Rightarrow> (string \<times> string) list" where
  "option_values opts =
     [(''mode'', op_mode opts), (''endpoint'', op_endpoint opts), (''retyc-bin'', op_retyc_bin opts),
      (''node-id'', op_node_id opts), (''mount-config'', op_mount_config opts), (''namespace'', op_namespace opts),
      (''http-endpoint'', op_http_endpoint opts)]"

definition flag_args :: "(string \<times> string) \<Rightarrow> bool \<Rightarrow> string list" where
  "flag_args nv joined =
     (case nv of (n, v) \<Rightarrow> if joined then [''--'' @ n @ CHR ''='' # v] else [''--'' @ n, v])"

definition flag_names :: "string list" where
  "flag_names = [''mode'', ''endpoint'', ''retyc-bin'', ''node-id'', ''mount-config'', ''namespace'', ''http-endpoint'']"

definition assign_options :: "(string \<times> string) list \<Rightarrow> options \<Rightarrow> options" where
  "assign_options nvs opts = foldl (\<lambda>opts (n, v). case option_setter n of None \<Rightarrow> opts | Some put \<Rightarrow> put v opts) opts nvs"

lemma split_flag_joined:
  assumes "n \<noteq> []" "CHR ''='' \<notin> set n"
  shows "split_flag (n @ CHR ''='' # v) = (n, Some v)"
proof -
  obtain c t where n: "n = c # t" using assms(1) by (cases n) auto
  have "dropWhile (\<lambda>c. c \<noteq> CHR ''='') (t @ CHR ''='' # v) = CHR ''='' # v"
      "takeWhile (\<lambda>c. c \<noteq> CHR ''='') (t @ CHR ''='' # v) = t"
    using assms(2) n by (subst dropWhile_append2 takeWhile_append2, auto)+
  then show ?thesis using n by (simp add: split_flag_def)
qed

lemma split_flag_plain:
  assumes "CHR ''='' \<notin> set n"
  shows "split_flag n = (n, None)"
proof -
  have "dropWhile (\<lambda>c. c \<noteq> CHR ''='') (tl n) = []" using assms by (cases n) auto
  then show ?thesis unfolding split_flag_def by (simp only: list.case)
qed

lemma flag_name_ok:
  "n \<in> set flag_names \<Longrightarrow> n \<noteq> [] \<and> CHR ''='' \<notin> set n \<and> hd n \<noteq> CHR ''-'' \<and> hd n \<noteq> CHR ''='' \<and>
     (\<exists>put. option_setter n = Some put)"
  by (auto simp: flag_names_def option_setter_def)

text \<open>One flag, in either form and whatever its value looks like, sets its variable and no other.\<close>

lemma parse_flag:
  assumes n: "n \<in> set flag_names"
  shows "parse_flags klog (flag_args (n, v) joined @ args) opts = parse_flags klog args (assign_options [(n, v)] opts)"
proof -
  obtain put where ok: "n \<noteq> []" "CHR ''='' \<notin> set n" "hd n \<noteq> CHR ''-''" "hd n \<noteq> CHR ''=''" and put: "option_setter n = Some put"
    using flag_name_ok [OF n] by auto
  then obtain c t where ct: "n = c # t" by (cases n) auto
  show ?thesis
    using ok put ct split_flag_joined [OF ok(1,2), of v] split_flag_plain [OF ok(2)]
    by (cases joined) (simp_all add: flag_args_def assign_options_def Let_def)
qed

lemma parse_flag_list:
  "fst ` fst ` set xs \<subseteq> set flag_names \<Longrightarrow>
   parse_flags klog (concat (map (\<lambda>(nv, j). flag_args nv j) xs) @ args) opts =
     parse_flags klog args (assign_options (map fst xs) opts)"
proof (induction xs arbitrary: opts)
  case (Cons x xs)
  obtain n v j where x: "x = ((n, v), j)" by (cases x) auto
  then show ?case
    using Cons parse_flag [of n klog v j "concat (map (\<lambda>(nv, j). flag_args nv j) xs) @ args" opts]
    by (simp add: assign_options_def)
qed (simp add: assign_options_def)

text \<open>Every configuration of the plugin can be given on its command line, in either form of each flag.\<close>

lemma options_roundtrip:
  assumes "map fst xs = option_values opts"
  shows "parse_flags klog (concat (map (\<lambda>(nv, j). flag_args nv j) xs)) opts' = Inr opts"
proof -
  have "fst ` fst ` set xs = set (map fst (option_values opts))" using assms by (metis list.set_map)
  then have "fst ` fst ` set xs \<subseteq> set flag_names" by (auto simp: option_values_def flag_names_def)
  from parse_flag_list [OF this, of klog "[]" opts'] show ?thesis
    using assms by (simp add: assign_options_def option_values_def option_setter_def)
qed

subsection \<open>Clients\<close>

text \<open>\<open>inClusterClient\<close>: \<open>rest.InClusterConfig\<close>, then \<open>kubernetes.NewForConfig\<close>.\<close>

definition in_cluster_client :: "string + 'c \<Rightarrow> ('c \<Rightarrow> string + 'k) \<Rightarrow> start_error + 'k" where
  "in_cluster_client config client =
     (case config of
        Inl e \<Rightarrow> Inl (NoKubernetes e)
      | Inr c \<Rightarrow> (case client c of Inl e \<Rightarrow> Inl (NoKubernetes e) | Inr k \<Rightarrow> Inr k))"

subsection \<open>Gauges\<close>

text \<open>What \<open>run\<close> registers, in order: \<open>MustRegister\<close> panics on a collector it has already, so that they must differ.\<close>

datatype collector = GoCollector | ProcessCollector | BuildInfo string string | MountPods | MountPodsOutdated

definition collectors :: "collector list" where "collectors = [MountPods, MountPodsOutdated]"

definition registered :: "string \<Rightarrow> options \<Rightarrow> 'q plugin \<Rightarrow> collector list" where
  "registered version opts plugin = [GoCollector, ProcessCollector, BuildInfo version (op_mode opts)] @
     (case plugin of ControllerPlugin _ _ \<Rightarrow> [] | NodePlugin _ _ _ _ \<Rightarrow> collectors)"

lemma registered_once: "distinct (registered version opts plugin)"
  by (simp add: registered_def collectors_def split: plugin.split)

text \<open>The two gauge vectors of \<open>NodeMetrics\<close>, by the value of their label.\<close>

record node_metrics =
  nm_pods :: "string \<rightharpoonup> nat"
  nm_outdated :: "string \<rightharpoonup> nat"

definition new_node_metrics :: node_metrics where
  "new_node_metrics = \<lparr>nm_pods = Map.empty, nm_outdated = Map.empty\<rparr>"

text \<open>\<open>update\<close>, which a plugin without gauges skips; \<open>order\<close> is the one in which Go ranges over the counts.\<close>

definition update_metrics ::
  "((string \<times> nat) list \<Rightarrow> (string \<times> nat) list) \<Rightarrow> string list \<Rightarrow> nat \<Rightarrow> node_metrics option \<Rightarrow> node_metrics option" where
  "update_metrics order states old m =
     map_option (\<lambda>m. m\<lparr>nm_pods := foldl (\<lambda>g (s, n). g(s \<mapsto> n)) (nm_pods m) (order (pod_counts states)),
       nm_outdated := (nm_outdated m)(''cli_version'' \<mapsto> old)\<rparr>) m"

lemma count_state_map:
  "map_of (count_state r counts) x = (if x = r then Some (case map_of counts r of None \<Rightarrow> 1 | Some n \<Rightarrow> n + 1) else map_of counts x)"
  by (induction r counts rule: count_state.induct) (auto split: option.split)

lemma count_state_keys: "fst ` set (count_state r counts) = insert r (fst ` set counts)"
  by (induction r counts rule: count_state.induct) auto

lemma count_state_distinct: "distinct_keys counts \<Longrightarrow> distinct_keys (count_state r counts)"
  using count_state_keys
  by (induction r counts rule: count_state.induct) (force simp: distinct_keys_def)+

lemma counts_fold:
  "distinct_keys counts \<Longrightarrow> x \<noteq> [] \<Longrightarrow> map_of counts x = Some n \<Longrightarrow>
   distinct_keys (foldl (\<lambda>c r. if r \<noteq> [] then count_state r c else c) counts rs) \<and>
   map_of (foldl (\<lambda>c r. if r \<noteq> [] then count_state r c else c) counts rs) x = Some (n + count_list rs x)"
  by (induction rs arbitrary: counts n) (auto simp: count_state_distinct count_state_map)

lemma pod_counts_exact:
  assumes "x \<in> set metric_states"
  shows "distinct_keys (pod_counts rs)" "map_of (pod_counts rs) x = Some (count_list rs x)"
proof -
  have "distinct_keys (map (\<lambda>m. (m, 0 :: nat)) metric_states)" "x \<noteq> []"
      "map_of (map (\<lambda>m. (m, 0 :: nat)) metric_states) x = Some 0"
    using assms by (auto simp: metric_states_def distinct_keys_def)
  from counts_fold [OF this, of rs]
  show "distinct_keys (pod_counts rs)" "map_of (pod_counts rs) x = Some (count_list rs x)" by (simp_all add: pod_counts_def)
qed

lemma foldl_update: "foldl (\<lambda>g (s, n). g(s \<mapsto> n)) g xs = g ++ map_of (rev xs)"
  by (induction xs arbitrary: g) (auto simp: map_add_def fun_eq_iff split: option.split)

text \<open>
  After a round every gauge of a known state reads the number of pods in that state, one without pods 0 again,
  whatever it read before and in whatever order the counts are ranged over.
\<close>

lemma gauges_exact:
  assumes order: "\<And>xs. mset (order xs) = mset xs" and m: "update_metrics order rs old (Some m) = Some m'"
    and x: "x \<in> set metric_states"
  shows "nm_pods m' x = Some (count_list rs x) \<and> nm_outdated m' ''cli_version'' = Some old"
proof -
  let ?l = "order (pod_counts rs)"
  have "set ?l = set (pod_counts rs)" using order by (rule mset_eq_setD)
  moreover have "mset (map fst ?l) = mset (map fst (pod_counts rs))" by (simp add: order)
  then have "distinct (map fst ?l)"
    using pod_counts_exact(1) [OF x, of rs] unfolding distinct_keys_def by (metis mset_eq_imp_distinct_iff)
  then have "distinct (map fst (rev ?l))" by (simp add: rev_map [symmetric])
  moreover have "(x, count_list rs x) \<in> set (pod_counts rs)" by (rule map_of_SomeD) (rule pod_counts_exact(2) [OF x])
  ultimately have "map_of (rev ?l) x = Some (count_list rs x)" by (intro map_of_is_SomeI) simp_all
  then show ?thesis
    using m
    by (auto simp: update_metrics_def foldl_update)
qed

subsection \<open>The HTTP server\<close>

text \<open>
  The mux of \<open>Handler\<close>, by the path of a request: the metrics handler, when there is one, the two health endpoints,
  and nothing else.
\<close>

datatype 'e http_answer = Metrics | Answer nat "'e option" | NotServed

definition handler ::
  "('w, 'e option) state option \<Rightarrow> bool \<Rightarrow> string \<Rightarrow> ('w, 'e http_answer) state" where
  "handler checker metrics path =
     (if path = ''/metrics'' \<and> metrics then State_Monad.return Metrics
      else if path = ''/healthz'' then State_Monad.return (Answer healthz None)
      else if path = ''/readyz'' then do {
        (status, e) \<leftarrow> readyz checker;
        State_Monad.return (Answer status e)
      }
      else State_Monad.return NotServed)"

text \<open>
  \<open>ListenAndServe\<close>: \<open>serve\<close> is \<open>http.Server.Serve\<close>, which returns only with an error, \<open>ErrServerClosed\<close> once the
  goroutine has shut it down.
\<close>

datatype serve_end = ServerClosed | ServeFailed string

datatype health_error = NotListening string string | HealthServe string

definition listen_and_serve ::
  "(string \<Rightarrow> ('w, string + 'l) state) \<Rightarrow> ('l \<Rightarrow> ('w, serve_end) state) \<Rightarrow> string \<Rightarrow> ('w, health_error option) state" where
  "listen_and_serve net_listen serve addr = do {
     l \<leftarrow> net_listen addr;
     (case l of
        Inl e \<Rightarrow> State_Monad.return (Some (NotListening addr e))
      | Inr l \<Rightarrow> do {
          e \<leftarrow> serve l;
          State_Monad.return (case e of ServerClosed \<Rightarrow> None | ServeFailed e \<Rightarrow> Some (HealthServe e))
        })
   }"

text \<open>
  Liveness asks no check: \<open>/healthz\<close> answers 200 and leaves everything as it is, whatever the readiness check would do,
  so that kubelet never restarts the plugin for a credential or an outage.
\<close>

lemma liveness_is_static: "run_state (handler checker metrics ''/healthz'') w = (Answer 200 None, w)"
  by (simp add: handler_def healthz_def)

text \<open>A graceful end of the HTTP server is not an error.\<close>

lemma closed_is_no_error:
  "run_state (net_listen addr) w = (Inr l, w1) \<Longrightarrow> run_state (serve l) w1 = (ServerClosed, w2) \<Longrightarrow>
   run_state (listen_and_serve net_listen serve addr) w = (None, w2)"
  by (simp add: listen_and_serve_def)

end
