(* ===== verification/Object_Types.thy ===== *)
theory Object_Types
  imports Manager
begin

text \<open>
  The objects that \<open>create\<close> sends are well formed: their names, labels and annotations are what the API server
  accepts, and every name that a part of the pod refers to is declared by another part or by the Secret.
  The API server may still refuse a pod for the resources its claim asks for: a request that the claim sets
  is sent as it is, above its limit too.
\<close>

subsection \<open>What the API documents\<close>

definition is_dns_alnum :: "char \<Rightarrow> bool" where
  "is_dns_alnum c \<longleftrightarrow> (let n = (of_char c :: nat) in 97 \<le> n \<and> n \<le> 122 \<or> 48 \<le> n \<and> n \<le> 57)"

text \<open>A DNS label (RFC 1123), which the name of a pod or of a Secret may always be.\<close>

definition dns_label :: "string \<Rightarrow> bool" where
  "dns_label s \<longleftrightarrow> s \<noteq> [] \<and> length s \<le> 63 \<and> list_all (\<lambda>c. is_dns_alnum c \<or> c = CHR ''-'') s \<and>
     is_dns_alnum (hd s) \<and> is_dns_alnum (last s)"

definition meta_typed :: "object_meta \<Rightarrow> bool" where
  "meta_typed m \<longleftrightarrow> dns_label (om_name m) \<and> distinct_keys (om_labels m) \<and> distinct_keys (om_annotations m) \<and>
     list_all (\<lambda>(_, v). label_syntax v) (om_labels m)"

text \<open>The volumes, ports and Secrets that a container names are there.\<close>

definition env_typed :: "secret \<Rightarrow> env_var \<Rightarrow> bool" where
  "env_typed sec e \<longleftrightarrow> env_name e \<noteq> [] \<and>
     (case env_value e of
        Literal _ \<Rightarrow> True
      | FromSecret name key \<Rightarrow> name = om_name (sec_meta sec) \<and> key \<in> fst ` set (sec_data sec))"

definition container_typed :: "pod_volume list \<Rightarrow> 'q container \<Rightarrow> bool" where
  "container_typed vols c \<longleftrightarrow>
     distinct (map vm_path (co_mounts c)) \<and> list_all (\<lambda>m. vm_name m \<in> pv_name ` set vols) (co_mounts c) \<and>
     distinct (map cp_name (co_ports c)) \<and> pr_port (co_readiness c) \<in> cp_name ` set (co_ports c)"

definition pod_typed :: "'q pod \<Rightarrow> bool" where
  "pod_typed p \<longleftrightarrow> meta_typed (pod_meta p) \<and> distinct (map pv_name (ps_volumes (pod_spec_of p))) \<and>
     distinct (map co_name (ps_containers (pod_spec_of p))) \<and>
     list_all (container_typed (ps_volumes (pod_spec_of p))) (ps_containers (pod_spec_of p))"

text \<open>No request above its limit, but those that the claim sets itself.\<close>

definition resources_typed :: "'q codec \<Rightarrow> 'q gomap \<Rightarrow> 'q resource_requirements \<Rightarrow> bool" where
  "resources_typed C claimed r \<longleftrightarrow>
     (\<forall>(n, q)\<in>set (requests r). \<forall>l. map_of (limits r) n = Some l \<longrightarrow> map_of claimed n = None \<longrightarrow> quantity_cmp C q l \<le> 0)"

subsection \<open>What is built\<close>

lemma is_dns_hex_digit: "d < 16 \<Longrightarrow> is_dns_alnum (hex_digit d)"
proof -
  assume d: "d < 16"
  have v: "(of_char (hex_digit d) :: nat) = (if d < 10 then 48 + d else 87 + d)"
    using d by (simp add: hex_digit_def of_digit_char of_char_of)
  then show ?thesis using d by (simp add: is_dns_alnum_def Let_def)
qed

lemma hex_encode_dns: "list_all is_dns_alnum (hex_encode s)"
  using nat_of_char_less_256
  by (induction s) (simp_all add: hex_encode_def is_dns_hex_digit less_mult_imp_div_less)

lemma suffix_dns: "\<forall>i. draw i < length suffix_chars \<Longrightarrow> list_all is_dns_alnum (random_suffix draw)"
proof -
  assume d: "\<forall>i. draw i < length suffix_chars"
  have "list_all is_dns_alnum suffix_chars" by (simp add: suffix_chars_def is_dns_alnum_def Let_def)
  then show ?thesis using d by (simp add: random_suffix_def list_all_iff)
qed

lemma dns_label_made:
  assumes "x \<noteq> []" "list_all is_dns_alnum x" "length x \<le> 48"
  shows "dns_label (name_prefix @ x)"
  using assms by (auto simp: dns_label_def name_prefix_def is_dns_alnum_def Let_def list_all_iff)

lemma dns_label_dash:
  "dns_label s \<Longrightarrow> x \<noteq> [] \<Longrightarrow> list_all is_dns_alnum x \<Longrightarrow> length s + length x < 63 \<Longrightarrow> dns_label (s @ CHR ''-'' # x)"
  by (auto simp: dns_label_def list_all_iff)

lemma mount_pod_name_dns:
  assumes "\<And>v. length (sha256 C v) = 32"
  shows "dns_label (mount_pod_name C node volume)" "length (mount_pod_name C node volume) = 30"
proof -
  let ?x = "hex_encode (take 8 (sha256 C (node @ CHR 0x00 # volume)))"
  have x: "length ?x = 16" using assms by simp
  then have "0 < length ?x" by linarith
  then have "?x \<noteq> []" by (rule length_greater_0_conv [THEN iffD1])
  then show "dns_label (mount_pod_name C node volume)"
    using x unfolding mount_pod_name_def by (intro dns_label_made hex_encode_dns) simp_all
  show "length (mount_pod_name C node volume) = 30" using x by (simp add: mount_pod_name_def name_prefix_def)
qed

lemma label_syntax_constants: "label_syntax app_name" "label_syntax managed_by"
  by (simp_all add: label_syntax_def app_name_def managed_by_def is_alnum_def is_label_char_def Let_def)

lemma object_meta_typed:
  assumes "valid_label_value C = label_syntax" and "\<And>v. length (sha256 C v) = 32"
  shows "meta_typed (object_meta_of C cfg s h)"
  using mount_pod_name_dns(1) [OF assms(2)] label_value_valid [OF assms(1,2)] label_syntax_constants
  by (simp add: meta_typed_def object_meta_of_def distinct_keys_def key_defs)

lemma lower_requests_distinct:
  "distinct_keys reqs \<Longrightarrow> distinct_keys (foldl (lower_request C explicit) reqs lims)"
  by (induction lims arbitrary: reqs)
    (auto simp: lower_request_def distinct_keys_update split: option.split)

lemma merged_resources_typed:
  assumes d: "distinct_keys (requests (cfg_resources cfg))" "distinct_keys (requests (spec_resources s))"
      "distinct_keys (limits (cfg_resources cfg))" "distinct_keys (limits (spec_resources s))"
    and refl: "\<And>q. quantity_cmp C q q \<le> 0"
  shows "resources_typed C (requests (spec_resources s)) (merged_resources C cfg s)"
proof -
  have e: "distinct_keys []" by (simp add: distinct_keys_def)
  note u = assign_all_distinct [OF assign_all_distinct [OF e]]
  let ?m = "merged_resources C cfg s"
  have "quantity_cmp C q l \<le> 0"
    if q: "map_of (requests ?m) n = Some q" and l: "map_of (limits ?m) n = Some l"
      and own: "map_of (requests (spec_resources s)) n = None" for n q l
    using q l own refl
    by (auto simp: merged_resources_def Let_def lower_requests_map [OF u] lowered_def split: if_splits)
  moreover have "distinct_keys (requests ?m)"
    by (simp add: merged_resources_def Let_def lower_requests_distinct u)
  ultimately show ?thesis
    unfolding resources_typed_def distinct_keys_def by (auto dest: map_of_is_SomeI)
qed

lemma built_secret_typed:
  assumes "valid_label_value C = label_syntax" and h: "\<And>v. length (sha256 C v) = 32"
    and draw: "\<forall>i. draw i < length suffix_chars"
  shows "meta_typed (sec_meta (build_secret C cfg draw s hash))"
proof -
  have "length (mount_pod_name C (node_name s) (volume_id s)) + length (random_suffix draw) < 63" "random_suffix draw \<noteq> []"
    using mount_pod_name_dns(2) [OF h] by (simp_all add: random_suffix_def)
  then have "dns_label (mount_pod_name C (node_name s) (volume_id s) @ CHR ''-'' # random_suffix draw)"
    by (intro dns_label_dash mount_pod_name_dns h suffix_dns draw)
  then show ?thesis
    using object_meta_typed [OF assms(1,2), of cfg s hash]
    by (simp add: build_secret_def Let_def meta_typed_def object_meta_of_def)
qed

lemma built_pod_typed:
  assumes "valid_label_value C = label_syntax" and "\<And>v. length (sha256 C v) = 32"
  shows "pod_typed (build_pod C cfg s hash sec)"
  using object_meta_typed [OF assms, of cfg s hash]
  by (simp add: pod_typed_def build_pod_def Let_def meta_typed_def distinct_keys_update container_typed_def
      pod_staging_dir_def pod_spool_dir_def pod_config_dir_def dev_fuse_def)

lemma built_env_typed:
  "e \<in> set (pod_env cfg s (om_name (sec_meta (build_secret C cfg draw s hash)))) \<Longrightarrow>
   env_typed (build_secret C cfg draw s hash) e \<or> e \<in> set (cfg_extra_env cfg)"
  by (auto simp: pod_env_def env_typed_def secret_env_def build_secret_def Let_def token_key_def passphrase_key_def
      secret_redis_url_def config_dir_key_def keyring_enabled_key_def split: if_splits)

text \<open>
  C33. Every pod and Secret the driver creates is well formed, whatever the volume, node and claim are called: names
  are DNS labels, labels are valid and no key is set twice, the container mounts declared volumes and is probed on a
  declared port, every variable it takes from a Secret is a key of the Secret built with it, which the pod's
  annotation names, and no request exceeds its limit but one that the claim sets itself: that one is
  left as the claim has it, and above its limit the API server refuses the pod.
\<close>

theorem built_objects_typed:
  assumes codec: "valid_label_value C = label_syntax" "\<And>v. length (sha256 C v) = 32" "\<And>q. quantity_cmp C q q \<le> 0"
    and draw: "\<forall>i. draw i < length suffix_chars"
    and keys: "distinct_keys (requests (cfg_resources cfg))" "distinct_keys (requests (spec_resources s))"
      "distinct_keys (limits (cfg_resources cfg))" "distinct_keys (limits (spec_resources s))"
    and sec: "sec = build_secret C cfg draw s hash"
    and p: "p = build_pod C cfg s hash (om_name (sec_meta sec))"
  shows "pod_typed p \<and> meta_typed (sec_meta sec) \<and> distinct_keys (sec_data sec) \<and>
    pod_annotation p annotation_secret = om_name (sec_meta sec) \<and>
    (\<forall>c\<in>set (ps_containers (pod_spec_of p)).
       (\<forall>e\<in>set (co_env c). env_typed sec e \<or> e \<in> set (cfg_extra_env cfg)) \<and>
       resources_typed C (requests (spec_resources s)) (co_resources c))"
proof -
  let ?name = "om_name (sec_meta sec)"
  have env: "env_typed sec e \<or> e \<in> set (cfg_extra_env cfg)" if "e \<in> set (pod_env cfg s ?name)" for e
    using built_env_typed [of e cfg s C draw hash] that by (simp add: sec)
  obtain c where c: "ps_containers (pod_spec_of p) = [c]" "co_env c = pod_env cfg s ?name"
      "co_resources c = merged_resources C cfg s"
    by (simp add: p build_pod_def Let_def)
  have "distinct_keys (sec_data sec)"
    by (simp add: sec build_secret_def Let_def distinct_keys_def token_key_def passphrase_key_def secret_redis_url_def)
  moreover have "pod_annotation p annotation_secret = ?name" by (simp add: p built_annotations)
  moreover have "pod_typed p" unfolding p by (rule built_pod_typed [OF codec(1,2)])
  moreover have "meta_typed (sec_meta sec)" unfolding sec by (rule built_secret_typed [OF codec(1,2) draw])
  ultimately show ?thesis
    using env c merged_resources_typed [OF keys codec(3)] by auto
qed

theorem built_objects_typed_witness:
  "pod_typed (build_pod demo_codec demo_config demo_spec ''h'' (om_name (sec_meta (build_secret demo_codec demo_config (\<lambda>_. 0) demo_spec ''h''))))"
proof -
  have draw: "\<forall>i. (\<lambda>_. 0 :: nat) i < length suffix_chars" by (simp add: suffix_chars_def)
  have keys: "distinct_keys (requests (cfg_resources demo_config))" "distinct_keys (requests (spec_resources demo_spec))"
      "distinct_keys (limits (cfg_resources demo_config))" "distinct_keys (limits (spec_resources demo_spec))"
    by (simp_all add: distinct_keys_def demo_config_def demo_spec_def)
  show ?thesis
    using built_objects_typed [OF _ _ _ draw keys refl refl, of demo_codec] by (simp add: demo_codec_def)
qed

end
