(* ===== verification/Pod_Restart.thy ===== *)
theory Pod_Restart
  imports Secret_Store
begin

text \<open>
  Progress of the mount pods: with an API that works, \<open>Ensure\<close> replaces a pod whose mount process is gone as soon
  as the restart delay is over, and the delay it answers is the one to wait for.
\<close>

subsection \<open>An API that works\<close>

text \<open>What a call leaves: the volume's pod \<open>pods w\<close> as it is, and a clock that does not go back.\<close>

definition plain :: "('w \<Rightarrow> 'q pod option) \<Rightarrow> ('w \<Rightarrow> int) \<Rightarrow> ('w, 'a) state \<Rightarrow> bool" where
  "plain pods now m \<longleftrightarrow> (\<forall>w. pods (snd (run_state m w)) = pods w \<and> now w \<le> now (snd (run_state m w)))"

text \<open>The API answers a creation with the pod as it was sent, named and not yet scheduled.\<close>

definition created_as :: "'q pod \<Rightarrow> 'q pod \<Rightarrow> bool" where
  "created_as p q \<longleftrightarrow> om_annotations (pod_meta q) = om_annotations (pod_meta p) \<and> pod_spec_of q = pod_spec_of p \<and>
     om_deletion (pod_meta q) = None \<and> pod_status_of q = pod_status_of p"

text \<open>Nothing holds the pod: there is none, or the one with this UID has no finalizer left.\<close>

definition unheld :: "('w \<Rightarrow> 'q pod option) \<Rightarrow> string \<Rightarrow> 'w \<Rightarrow> bool" where
  "unheld pods uid w \<longleftrightarrow>
     (\<forall>p. pods w = Some p \<longrightarrow> om_uid (pod_meta p) = uid \<and> om_finalizers (pod_meta p) = [])"

definition api_works :: "('w, 'q) cluster \<Rightarrow> string \<Rightarrow> ('w \<Rightarrow> 'q pod option) \<Rightarrow> ('w \<Rightarrow> int) \<Rightarrow> bool" where
  "api_works K name pods now \<longleftrightarrow>
     (\<forall>ns w. run_state (k_get_pod K ns name) w = (case pods w of None \<Rightarrow> Inl ApiNotFound | Some p \<Rightarrow> Inr p, w)) \<and>
     (\<forall>ns p w. pods w = None \<longrightarrow> om_name (pod_meta p) = name \<longrightarrow>
        (\<exists>q w'. run_state (k_create_pod K ns p) w = (Inr q, w') \<and> pods w' = Some q \<and> now w \<le> now w' \<and> created_as p q)) \<and>
     (\<forall>ns a b p w. pods w = Some p \<longrightarrow>
        (\<exists>w'. run_state (k_patch_finalizers K ns name a b) w = (Inr (), w') \<and> now w \<le> now w' \<and>
           (pods w' = None \<or> pods w' = Some (p\<lparr>pod_meta := (pod_meta p)\<lparr>om_finalizers := b\<rparr>\<rparr>)))) \<and>
     (\<forall>ns uid w. unheld pods uid w \<longrightarrow>
        (\<exists>r w'. run_state (k_delete_pod K ns name uid (Some 0)) w = (r, w') \<and> (r = Inr () \<or> r = Inl ApiNotFound) \<and>
           now w \<le> now w' \<and> pods w' = None)) \<and>
     (\<forall>ns sel. plain pods now (k_list_secrets K ns sel) \<and> (\<forall>w. \<exists>ss. fst (run_state (k_list_secrets K ns sel) w) = Inr ss)) \<and>
     (\<forall>ns s. plain pods now (k_create_secret K ns s) \<and> (\<forall>w. \<exists>s'. fst (run_state (k_create_secret K ns s) w) = Inr s')) \<and>
     (\<forall>ns n. plain pods now (k_delete_secret K ns n)) \<and>
     (\<forall>ns n. plain pods now (k_get_secret K ns n) \<and>
        (\<forall>w. fst (run_state (k_get_secret K ns n) w) = Inl ApiNotFound \<or> (\<exists>s. fst (run_state (k_get_secret K ns n) w) = Inr s))) \<and>
     (\<forall>ns n ow. plain pods now (k_patch_owner K ns n ow) \<and> (\<forall>w. fst (run_state (k_patch_owner K ns n ow) w) = Inr ())) \<and>
     (\<forall>f s. k_prepare K = Some f \<longrightarrow> plain pods now (f s) \<and> (\<forall>w. fst (run_state (f s) w) = Inr ())) \<and>
     plain pods now (k_rand K) \<and> plain pods now (k_suffix K) \<and>
     plain pods now (k_clock K) \<and> (\<forall>w. now w \<le> fst (run_state (k_clock K) w) \<and> fst (run_state (k_clock K) w) \<le> now (snd (run_state (k_clock K) w)))"

lemma works_create:
  "api_works K name pods now \<Longrightarrow> pods w = None \<Longrightarrow> om_name (pod_meta p) = name \<Longrightarrow>
   \<exists>q w'. run_state (k_create_pod K ns p) w = (Inr q, w') \<and> pods w' = Some q \<and> now w \<le> now w' \<and> created_as p q"
  by (simp add: api_works_def)

lemma works_patch:
  "api_works K name pods now \<Longrightarrow> pods w = Some p \<Longrightarrow>
   \<exists>w'. run_state (k_patch_finalizers K ns name a b) w = (Inr (), w') \<and> now w \<le> now w' \<and>
     (pods w' = None \<or> pods w' = Some (p\<lparr>pod_meta := (pod_meta p)\<lparr>om_finalizers := b\<rparr>\<rparr>))"
  by (simp add: api_works_def)

lemma works_delete:
  "api_works K name pods now \<Longrightarrow> unheld pods uid w \<Longrightarrow>
   \<exists>r w'. run_state (k_delete_pod K ns name uid (Some 0)) w = (r, w') \<and> (r = Inr () \<or> r = Inl ApiNotFound) \<and>
     now w \<le> now w' \<and> pods w' = None"
  by (simp add: api_works_def)

subsection \<open>Calls that are due\<close>

text \<open>The pod and the restart state of a volume, with the clock at \<open>t\<close> or past it.\<close>

definition due_at ::
  "('w \<Rightarrow> 'q pod option) \<Rightarrow> ('w \<Rightarrow> int) \<Rightarrow> int \<Rightarrow> string \<Rightarrow> backoff_entry \<Rightarrow> 'q pod option \<Rightarrow> 'w node \<Rightarrow> bool" where
  "due_at pods now t v e p n \<longleftrightarrow> pods (node_world n) = p \<and> node_backoffs n v = Some e \<and> t \<le> now (node_world n)"

lemma due_plain: "plain pods now m \<Longrightarrow> triple (due_at pods now t v e p) (on_world m) (\<lambda>_. due_at pods now t v e p)"
  by (auto simp: triple_def due_at_def plain_def on_world_def case_prod_beta intro: order_trans)

lemma due_plain_value:
  assumes "plain pods now m" and "\<And>w. Q (fst (run_state m w))"
  shows "triple (due_at pods now t v e p) (on_world m) (\<lambda>x n. due_at pods now t v e p n \<and> Q x)"
  using assms by (auto simp: triple_def due_at_def plain_def on_world_def case_prod_beta intro: order_trans)

lemma due_state:
  assumes "entry_hash e = h"
  shows "triple (due_at pods now t v e p) (on_backoffs (backoff_state v h)) (\<lambda>b n. due_at pods now t v e p n \<and> b = entry_backoff e)"
  using assms by (auto simp: triple_def due_at_def on_backoffs_def backoff_state_def backoff_for_same)

lemma due_get:
  assumes "api_works K name pods now"
  shows "triple (due_at pods now t v e p) (on_world (k_get_pod K ns name))
    (\<lambda>r n. due_at pods now t v e p n \<and> r = (case p of None \<Rightarrow> Inl ApiNotFound | Some p \<Rightarrow> Inr p))"
  using assms by (auto simp: triple_def due_at_def on_world_def api_works_def)

lemma due_clock:
  assumes "api_works K name pods now"
  shows "triple (due_at pods now t v e p) (on_world (k_clock K)) (\<lambda>c n. due_at pods now c v e p n \<and> t \<le> c)"
proof (rule tripleI)
  fix n c n' assume n: "due_at pods now t v e p n" and run: "run_state (on_world (k_clock K)) n = (c, n')"
  have "now (node_world n) \<le> c" "c \<le> now (node_world n')" "pods (node_world n') = pods (node_world n)"
      "node_backoffs n' = node_backoffs n"
    using assms run by (auto simp: api_works_def plain_def on_world_def case_prod_beta)
  then show "due_at pods now c v e p n' \<and> t \<le> c" using n by (simp add: due_at_def)
qed

text \<open>A pod is released: its finalizer is taken away and it is deleted for good.\<close>

lemma due_release:
  assumes works: "api_works K name pods now"
    and p: "om_name (pod_meta p) = name" "set (om_finalizers (pod_meta p)) \<subseteq> {finalizer_in_use}"
  shows "triple (due_at pods now t v e (Some p)) (release K cfg p) (\<lambda>r n. due_at pods now t v e None n \<and> snd r = None)"
proof (rule tripleI)
  fix n r n'
  assume n: "due_at pods now t v e (Some p) n" and run: "run_state (release K cfg p) n = (r, n')"
  let ?uid = "om_uid (pod_meta p)"
  obtain q m where q: "run_state (remove_finalizer K p) n = ((q, None), m)" "om_name (pod_meta q) = name"
      "om_uid (pod_meta q) = ?uid" "node_backoffs m = node_backoffs n" "now (node_world n) \<le> now (node_world m)"
      "unheld pods ?uid (node_world m)"
  proof (cases "finalizer_in_use \<in> set (om_finalizers (pod_meta p))")
    case False
    then have "om_finalizers (pod_meta p) = []" using p(2) by (cases "om_finalizers (pod_meta p)") auto
    then show ?thesis using that [of p n] n p False by (simp add: remove_finalizer_def due_at_def unheld_def)
  next
    case True
    have kept: "filter (\<lambda>f. f \<noteq> finalizer_in_use) (om_finalizers (pod_meta p)) = []"
      using p(2) by (auto simp: filter_empty_conv)
    obtain w where "run_state (k_patch_finalizers K (om_namespace (pod_meta p)) name (om_finalizers (pod_meta p)) [])
        (node_world n) = (Inr (), w)" "now (node_world n) \<le> now w"
        "pods w = None \<or> pods w = Some (p\<lparr>pod_meta := (pod_meta p)\<lparr>om_finalizers := []\<rparr>\<rparr>)"
      using works_patch [OF works, of "node_world n" p] n unfolding due_at_def by blast
    then show ?thesis
      using that [of "p\<lparr>pod_meta := (pod_meta p)\<lparr>om_finalizers := []\<rparr>\<rparr>" "n\<lparr>node_world := w\<rparr>"] True kept p(1)
      by (auto simp: remove_finalizer_def Let_def on_world_def unheld_def)
  qed
  obtain d w where d: "run_state (k_delete_pod K (cfg_namespace cfg) name ?uid (Some 0)) (node_world m) = (d, w)"
      "d = Inr () \<or> d = Inl ApiNotFound" "now (node_world m) \<le> now w" "pods w = None"
    using works_delete [OF works q(6)] by blast
  then show "due_at pods now t v e None n' \<and> snd r = None"
    using run q n by (auto simp: release_def on_world_def due_at_def)
qed

lemma works_plain:
  assumes "api_works K name pods now"
  shows "plain pods now (k_list_secrets K ns sel)" "plain pods now (k_create_secret K ns x)"
    "plain pods now (k_delete_secret K ns n)" "plain pods now (k_get_secret K ns n)" "plain pods now (k_patch_owner K ns n ow)"
    "plain pods now (k_rand K)" "plain pods now (k_suffix K)" "plain pods now (k_clock K)"
    "\<exists>ss. fst (run_state (k_list_secrets K ns sel) w) = Inr ss" "\<exists>s. fst (run_state (k_create_secret K ns x) w) = Inr s"
    "fst (run_state (k_get_secret K ns n) w) = Inl ApiNotFound \<or> (\<exists>s. fst (run_state (k_get_secret K ns n) w) = Inr s)"
    "fst (run_state (k_patch_owner K ns n ow) w) = Inr ()"
  using assms by (simp_all add: api_works_def)

lemma due_secrets:
  assumes works: "api_works K name pods now"
  shows "triple (due_at pods now t v e p) (delete_secrets K C cfg node volume only) (\<lambda>x n. due_at pods now t v e p n \<and> x = None)"
    "triple (due_at pods now t v e p) (own_secret K cfg q) (\<lambda>x n. due_at pods now t v e p n \<and> x = None)"
proof -
  note plain = works_plain [OF works]
  have "triple (due_at pods now t v e p) (delete_secret K cfg x) (\<lambda>_. due_at pods now t v e p)" for x
    unfolding delete_secret_def by (rule triple_bind [OF due_plain [OF plain(3)]]) (rule triple_return)
  then have loop: "triple (due_at pods now t v e p) (delete_loop K cfg skip ss) (\<lambda>_. due_at pods now t v e p)" for skip ss
    by (induction ss) (auto intro: triple_return triple_bind)
  have listed: "triple (due_at pods now t v e p) (on_world (k_list_secrets K ns sel))
      (\<lambda>r n. due_at pods now t v e p n \<and> (\<exists>ss. r = Inr ss))" for ns sel
    by (rule due_plain_value) (rule plain)+
  have got: "triple (due_at pods now t v e p) (on_world (k_get_secret K ns x))
      (\<lambda>r n. due_at pods now t v e p n \<and> (r = Inl ApiNotFound \<or> (\<exists>sec. r = Inr sec)))" for ns x
    by (rule due_plain_value) (rule plain)+
  have owned: "triple (due_at pods now t v e p) (on_world (k_patch_owner K ns x ow))
      (\<lambda>r n. due_at pods now t v e p n \<and> r = Inr ())" for ns x ow
    by (rule due_plain_value) (rule plain)+
  show "triple (due_at pods now t v e p) (delete_secrets K C cfg node volume only) (\<lambda>x n. due_at pods now t v e p n \<and> x = None)"
    unfolding delete_secrets_def
    by (rule triple_bind [OF listed], rule triple_pure)
      (auto intro!: triple_bind [OF loop] triple_return)
  show "triple (due_at pods now t v e p) (own_secret K cfg q) (\<lambda>x n. due_at pods now t v e p n \<and> x = None)"
    unfolding own_secret_def Let_def
    by (auto intro!: triple_return triple_bind [OF got] triple_pure triple_bind [OF owned])
qed

text \<open>The answer of an \<open>Ensure\<close> that brought the pod: the volume's pod is the one built for the spec, not yet started.\<close>

definition brought ::
  "('w \<Rightarrow> 'q pod option) \<Rightarrow> 'q codec \<Rightarrow> 'q config \<Rightarrow> 'q spec \<Rightarrow> 'q answer \<Rightarrow> 'w node \<Rightarrow> bool" where
  "brought pods C cfg s a n \<longleftrightarrow> snd a = None \<and> st_phase (fst a) = PhasePending \<and>
     (\<exists>q sec. pods (node_world n) = Some q \<and> st_pod (fst a) = Some q \<and>
        created_as (build_pod C cfg s (spec_config_hash C cfg s) sec) q)"

lemma created_pending: "created_as (build_pod C cfg s h sec) q \<Longrightarrow> st_phase (state_of q) = PhasePending"
  by (simp add: created_as_def state_of_def build_pod_def Let_def statuses_def no_status_def process_gone_def terminated_def)

lemma triple_ex:
  assumes "\<And>y. triple (P y) m Q"
  shows "triple (\<lambda>s. \<exists>y. P y s) m Q"
proof (rule tripleI)
  fix s x t assume "\<exists>y. P y s" and run: "run_state m s = (x, t)"
  then obtain y where "P y s" by blast
  then show "Q x t" using run by (rule tripleD [OF assms])
qed

lemma due_create:
  assumes works: "api_works K (mount_pod_name C (node_name s) (volume_id s)) pods now"
    and e: "entry_hash e = spec_config_hash C cfg s"
  shows "triple (due_at pods now t (volume_id s) e None) (create_pod K C cfg s (spec_config_hash C cfg s)) (brought pods C cfg s)"
proof -
  let ?name = "mount_pod_name C (node_name s) (volume_id s)" and ?h = "spec_config_hash C cfg s"
  let ?due = "due_at pods now t (volume_id s) e"
  note plain = works_plain [OF works]
  have prepared: "triple (?due None) (case k_prepare K of None \<Rightarrow> State_Monad.return (Inr ()) | Some f \<Rightarrow> on_world (f s))
      (\<lambda>r n. ?due None n \<and> r = Inr ())"
  proof (cases "k_prepare K")
    case None
    then show ?thesis by (auto intro: triple_return)
  next
    case (Some f)
    have "triple (?due None) (on_world (f s)) (\<lambda>r n. ?due None n \<and> r = Inr ())"
      by (rule due_plain_value) (use works Some in \<open>simp_all add: api_works_def\<close>)
    then show ?thesis using Some by simp
  qed
  have sec: "triple (?due None) (on_world (k_create_secret K ns x)) (\<lambda>r n. ?due None n \<and> (\<exists>y. r = Inr y))" for ns x
    by (rule due_plain_value) (rule plain)+
  have pod: "triple (?due None) (on_world (k_create_pod K ns (build_pod C cfg s ?h y)))
      (\<lambda>r n. \<exists>q. ?due (Some q) n \<and> (r = Inr q \<and> created_as (build_pod C cfg s ?h y) q))" for ns y
  proof (rule tripleI)
    fix n r n' assume n: "?due None n" and run: "run_state (on_world (k_create_pod K ns (build_pod C cfg s ?h y))) n = (r, n')"
    have "om_name (pod_meta (build_pod C cfg s ?h y)) = ?name" by (simp add: build_pod_def object_meta_of_def Let_def)
    from works_create [OF works _ this] n obtain q w where "run_state (k_create_pod K ns (build_pod C cfg s ?h y)) (node_world n) = (Inr q, w)"
        "pods w = Some q" "now (node_world n) \<le> now w" "created_as (build_pod C cfg s ?h y) q"
      unfolding due_at_def by blast
    then show "\<exists>q. ?due (Some q) n' \<and> (r = Inr q \<and> created_as (build_pod C cfg s ?h y) q)"
      using run n by (auto simp: on_world_def due_at_def)
  qed
  have made: "triple (?due (Some q)) (do { b \<leftarrow> on_backoffs (backoff_state (volume_id s) ?h); e \<leftarrow> own_secret K cfg q;
      State_Monad.return ((state_of q)\<lparr>st_backoff := b\<rparr>, e) }) (brought pods C cfg s)"
    if "created_as (build_pod C cfg s ?h y) q" for q y
    by (rule triple_bind [OF due_state [OF e]], rule triple_pure, rule triple_bind [OF due_secrets(2) [OF works]],
        rule triple_return)
      (use that created_pending [OF that] in \<open>auto simp: brought_def due_at_def state_of_fields\<close>)
  have objects: "triple (?due None) (create_objects K C cfg s ?h) (brought pods C cfg s)"
    unfolding create_objects_def Let_def
    by (rule triple_bind [OF prepared] triple_bind [OF due_secrets(1) [OF works]] triple_bind [OF due_plain [OF plain(7)]]
        triple_bind [OF sec] triple_pure | simp only: sum.case option.case | elim exE)+
      (auto intro!: triple_bind [OF pod] triple_ex triple_pure made)
  show ?thesis
    unfolding create_pod_def
    by (rule triple_bind [OF due_get [OF works]], rule triple_pure) (simp add: objects)
qed


subsection \<open>Pods that ended\<close>

text \<open>A pod whose mount process is gone and that no finalizer but the driver's own holds.\<close>

definition replaceable :: "string \<Rightarrow> 'q pod \<Rightarrow> bool" where
  "replaceable name p \<longleftrightarrow> process_gone p \<and> om_name (pod_meta p) = name \<and> om_uid (pod_meta p) \<noteq> [] \<and>
     set (om_finalizers (pod_meta p)) \<subseteq> {finalizer_in_use}"

text \<open>The restart state is the one of the configuration, and has the exit of the pod if that counts.\<close>

definition exit_counted :: "'q pod \<Rightarrow> string \<Rightarrow> backoff_entry \<Rightarrow> bool" where
  "exit_counted p h e \<longleftrightarrow> entry_hash e = h \<and>
     (pod_annotation p annotation_config_hash = h \<longrightarrow> last_pod e = om_uid (pod_meta p))"

lemma gone_phase: "process_gone p \<Longrightarrow> st_phase (state_of p) = PhaseTerminating \<or> st_phase (state_of p) = PhaseExited"
  by (auto simp: state_of_def Let_def case_prod_beta)

lemma finished_gone: "process_gone p \<Longrightarrow> finished K p = State_Monad.return True"
  by (simp add: finished_def)

lemma record_exit_last:
  "uid \<noteq> [] \<Longrightarrow> \<exists>e. snd (record_exit cfg rnd now v h staging uid code msg lasted m) v = Some e \<and> entry_hash e = h \<and> last_pod e = uid"
  by (auto simp: record_exit_def backoff_for_def Let_def fresh_entry_def split: option.split)

text \<open>A call that meets a pod that ended counts the exit, once.\<close>

definition ended :: "('w \<Rightarrow> 'q pod option) \<Rightarrow> 'q pod \<Rightarrow> 'w node \<Rightarrow> bool" where
  "ended pods p n \<longleftrightarrow> pods (node_world n) = Some p"

lemma ended_count:
  assumes works: "api_works K name pods now" and uid: "om_uid (pod_meta p) \<noteq> []"
    and st: "st_pod st = Some p" "st_hash st = pod_annotation p annotation_config_hash"
  shows "triple (ended pods p) (count_exit K cfg v h st)
    (\<lambda>_ n. ended pods p n \<and> (st_hash st = h \<longrightarrow> (\<exists>e. node_backoffs n v = Some e \<and> exit_counted p h e)))"
proof -
  have plain: "triple (ended pods p) (on_world m) (\<lambda>_. ended pods p)" if "plain pods now m" for m :: "('a, 'c) state"
    using that by (auto simp: triple_def ended_def plain_def on_world_def case_prod_beta)
  have upd: "triple (ended pods p) (update_backoffs (\<lambda>m. snd (record_exit cfg rnd t v h sp (om_uid (pod_meta p)) code msg lasted m)))
      (\<lambda>_ n. ended pods p n \<and> (\<exists>e. node_backoffs n v = Some e \<and> exit_counted p h e))" for rnd t sp code msg lasted
    using record_exit_last [OF uid]
    by (simp add: triple_def ended_def update_backoffs_def on_backoffs_def exit_counted_def) blast
  show ?thesis
    unfolding count_exit_def Let_def
    using st upd
    by (auto intro!: triple_return triple_bind [OF plain [OF works_plain(6) [OF works]]]
        triple_bind [OF plain [OF works_plain(8) [OF works]]])
qed

lemma ended_state:
  "triple (\<lambda>n. ended pods p n \<and> (pod_annotation p annotation_config_hash = h \<longrightarrow> (\<exists>e. node_backoffs n v = Some e \<and> exit_counted p h e)))
    (on_backoffs (backoff_state v h))
    (\<lambda>b n. \<exists>e t. due_at pods now t v e (Some p) n \<and> (exit_counted p h e \<and> b = entry_backoff e))"
  by (auto simp: triple_def ended_def due_at_def on_backoffs_def backoff_state_def backoff_for_def exit_counted_def
      fresh_entry_def split: option.splits if_splits)

lemma due_start_over:
  assumes "entry_hash e = h" "gave_up (entry_backoff e)"
  shows "triple (due_at pods now t v e x) (update_backoffs (start_over v h))
    (\<lambda>_. due_at pods now t v (e\<lparr>entry_backoff := no_backoff\<rparr>) x)"
  using assms
  by (auto simp: triple_def due_at_def update_backoffs_def on_backoffs_def start_over_def backoff_for_same)

text \<open>
  The answer that leaves the pod for later, and the one that gives up.
\<close>

definition waits ::
  "('w \<Rightarrow> 'q pod option) \<Rightarrow> ('w \<Rightarrow> int) \<Rightarrow> 'q spec \<Rightarrow> string \<Rightarrow> 'q pod option \<Rightarrow> 'q answer \<Rightarrow> 'w node \<Rightarrow> bool" where
  "waits pods now s h x a n \<longleftrightarrow> snd a = None \<and>
     (\<exists>e t. due_at pods now t (volume_id s) e x n \<and> entry_hash e = h \<and> \<not> gave_up (entry_backoff e) \<and>
        (\<forall>p. x = Some p \<longrightarrow> exit_counted p h e) \<and> st_backoff (fst a) = entry_backoff e) \<and>
     st_phase (fst a) = (case x of None \<Rightarrow> PhaseAbsent | Some p \<Rightarrow> st_phase (state_of p))"

definition gives_up :: "string \<Rightarrow> 'q answer \<Rightarrow> bool" where
  "gives_up name a \<longleftrightarrow> gave_up (st_backoff (fst a)) \<and> snd a = Some (GaveUpError name (st_backoff (fst a)))"

text \<open>What giving up leaves: the pod as it was, and a restart state of the configuration that has given up.\<close>

definition given_up :: "('w \<Rightarrow> 'q pod option) \<Rightarrow> string \<Rightarrow> string \<Rightarrow> 'q pod option \<Rightarrow> 'w node \<Rightarrow> bool" where
  "given_up pods v h x n \<longleftrightarrow> pods (node_world n) = x \<and>
     (\<exists>e. node_backoffs n v = Some e \<and> entry_hash e = h \<and> gave_up (entry_backoff e))"

text \<open>The pod is gone and the next one is due.\<close>

definition free_now :: "('w \<Rightarrow> 'q pod option) \<Rightarrow> ('w \<Rightarrow> int) \<Rightarrow> string \<Rightarrow> string \<Rightarrow> 'w node \<Rightarrow> bool" where
  "free_now pods now v h n \<longleftrightarrow>
     (\<exists>e t. due_at pods now t v e None n \<and> (entry_hash e = h \<and> \<not> gave_up (entry_backoff e) \<and> next_restart (entry_backoff e) \<le> t))"

definition goes_on ::
  "('w \<Rightarrow> 'q pod option) \<Rightarrow> ('w \<Rightarrow> int) \<Rightarrow> 'q spec \<Rightarrow> string \<Rightarrow> string \<Rightarrow> 'q pod \<Rightarrow> 'q answer option \<Rightarrow> 'w node \<Rightarrow> bool" where
  "goes_on pods now s h name p r n \<longleftrightarrow>
     (case r of None \<Rightarrow> free_now pods now (volume_id s) h n
      | Some a \<Rightarrow> gives_up name a \<and> given_up pods (volume_id s) h (Some p) n \<or> waits pods now s h (Some p) a n)"

lemma due_replace:
  assumes works: "api_works K name pods now" and p: "replaceable name p"
    and e: "exit_counted p h e" and st: "st_backoff st = entry_backoff e" "st_name st = name" "st_phase st = st_phase (state_of p)"
  shows "triple (due_at pods now t (volume_id s) e (Some p)) (replace_finished K cfg st (entry_backoff e) p)
    (goes_on pods now s h name p)"
proof (cases "gave_up (entry_backoff e)")
  case True
  then show ?thesis
    using st e
    by (auto simp: replace_finished_def gives_up_def goes_on_def given_up_def due_at_def exit_counted_def
        intro!: triple_return)
next
  case False
  have gone: "om_name (pod_meta p) = name" "set (om_finalizers (pod_meta p)) \<subseteq> {finalizer_in_use}"
    using p by (simp_all add: replaceable_def)
  have wait: "triple (due_at pods now c (volume_id s) e (Some p)) (State_Monad.return (Some (st, None))) (goes_on pods now s h name p)" for c
    by (rule triple_return) (use False e st in \<open>auto simp: goes_on_def waits_def exit_counted_def\<close>)
  have free: "triple (due_at pods now c (volume_id s) e None) (State_Monad.return None) (goes_on pods now s h name p)"
    if "next_restart (entry_backoff e) \<le> c" for c
    by (rule triple_return) (use False e that in \<open>auto simp: goes_on_def free_now_def exit_counted_def\<close>)
  show ?thesis
    using False
    by (auto simp: replace_finished_def intro!: triple_bind [OF due_clock [OF works]] triple_pure wait
        triple_bind [OF due_release [OF works gone]] free)
qed

lemma ended_existing:
  assumes works: "api_works K name pods now" and p: "replaceable name p"
  shows "triple (ended pods p) (ensure_existing K cfg s h p) (goes_on pods now s h name p)"
proof -
  let ?v = "volume_id s" and ?st = "(state_of p)\<lparr>st_config_changed := (st_hash (state_of p) \<noteq> h)\<rparr>"
  let ?old = "\<lambda>b n. \<exists>e t. due_at pods now t ?v e (Some p) n \<and> (exit_counted p h e \<and> b = entry_backoff e)"
  have gone: "process_gone p" "om_name (pod_meta p) = name" "om_uid (pod_meta p) \<noteq> []" using p by (simp_all add: replaceable_def)
  have count: "triple (ended pods p) (count_exit K cfg ?v h ?st)
      (\<lambda>_ n. ended pods p n \<and> (pod_annotation p annotation_config_hash = h \<longrightarrow> (\<exists>e. node_backoffs n ?v = Some e \<and> exit_counted p h e)))"
    using ended_count [OF works gone(3), of ?st cfg ?v h] by (simp add: state_of_fields)
  have switch: "triple (due_at pods now t ?v e (Some p)) (ensure_switch K cfg (?st\<lparr>st_backoff := entry_backoff e\<rparr>) (entry_backoff e) False p)
      (goes_on pods now s h name p)" if "exit_counted p h e" for e t
  proof -
    have "ensure_switch K cfg (?st\<lparr>st_backoff := entry_backoff e\<rparr>) (entry_backoff e) False p =
        replace_finished K cfg (?st\<lparr>st_backoff := entry_backoff e\<rparr>) (entry_backoff e) p"
      using gone_phase [OF gone(1)] by (simp add: ensure_switch_def)
    moreover have "triple (due_at pods now t ?v e (Some p))
        (replace_finished K cfg (?st\<lparr>st_backoff := entry_backoff e\<rparr>) (entry_backoff e) p) (goes_on pods now s h name p)"
      by (rule due_replace [OF works p that]) (simp_all add: state_of_fields(1) gone(2))
    ultimately show ?thesis by simp
  qed
  have again: "triple (due_at pods now t ?v e (Some p))
      (do { _ \<leftarrow> update_backoffs (start_over ?v h); b \<leftarrow> on_backoffs (backoff_state ?v h);
        ensure_switch K cfg (?st\<lparr>st_backoff := b\<rparr>) b False p }) (goes_on pods now s h name p)"
    if e: "exit_counted p h e" "gave_up (entry_backoff e)" for e t
  proof -
    let ?e = "e\<lparr>entry_backoff := no_backoff\<rparr>"
    have c: "exit_counted p h ?e" "entry_hash e = h" "entry_hash ?e = h" using e by (simp_all add: exit_counted_def)
    from switch [OF c(1)] show ?thesis
      by (intro triple_bind [OF due_start_over [OF c(2) e(2)]] triple_bind [OF due_state [OF c(3)]] triple_pure) simp
  qed
  show ?thesis
    unfolding ensure_existing_def Let_def finished_gone [OF gone(1)]
    by (auto intro!: triple_bind [OF count] triple_bind [OF ended_state] triple_ex triple_pure again switch)
qed

text \<open>A later call, once the delay is over: nothing is exit_counted again, and the pod goes.\<close>

lemma due_existing:
  assumes works: "api_works K name pods now" and p: "replaceable name p"
    and e: "exit_counted p h e" "\<not> gave_up (entry_backoff e)" "next_restart (entry_backoff e) \<le> t"
  shows "triple (due_at pods now t (volume_id s) e (Some p)) (ensure_existing K cfg s h p)
    (\<lambda>r n. free_now pods now (volume_id s) h n \<and> r = None)"
proof -
  let ?v = "volume_id s" and ?st = "(state_of p)\<lparr>st_config_changed := (st_hash (state_of p) \<noteq> h)\<rparr>"
  let ?due = "\<lambda>x n. due_at pods now t ?v e x n"
  have gone: "process_gone p" "om_name (pod_meta p) = name" "set (om_finalizers (pod_meta p)) \<subseteq> {finalizer_in_use}"
      "om_uid (pod_meta p) \<noteq> []" and hash: "entry_hash e = h"
    using p e(1) by (simp_all add: replaceable_def exit_counted_def)
  have upd: "triple (?due x) (update_backoffs (\<lambda>m. snd (record_exit cfg rnd c ?v h sp (om_uid (pod_meta p)) code msg lasted m)))
      (\<lambda>_. ?due x)" if "st_hash (state_of p) = h" for rnd c sp code msg lasted x
    using that e(1) gone(4)
    by (auto simp: triple_def due_at_def update_backoffs_def on_backoffs_def exit_counted_def state_of_fields record_exit_def
        backoff_for_same)
  have count: "triple (?due x) (count_exit K cfg ?v h ?st) (\<lambda>_. ?due x)" for x
    unfolding count_exit_def Let_def
    using upd
    by (auto simp: state_of_fields intro!: triple_return triple_bind [OF due_plain [OF works_plain(6) [OF works]]]
        triple_bind [OF due_plain [OF works_plain(8) [OF works]]])
  have free: "triple (due_at pods now c ?v e None) (State_Monad.return None)
      (\<lambda>r n. free_now pods now ?v h n \<and> r = None)" if "t \<le> c" for c
  proof (rule triple_return)
    have "next_restart (entry_backoff e) \<le> c" using e(3) that by simp
    then show "free_now pods now ?v h n \<and> None = None" if "due_at pods now c ?v e None n" for n
      using that e(2) hash unfolding free_now_def by blast
  qed
  have "triple (?due (Some p)) (replace_finished K cfg st (entry_backoff e) p) (\<lambda>r n. free_now pods now ?v h n \<and> r = None)" for st
    using e
    by (auto simp: replace_finished_def intro!: triple_bind [OF due_clock [OF works]] triple_pure
        triple_bind [OF due_release [OF works gone(2,3)]] free)
  then have "triple (?due (Some p)) (ensure_switch K cfg (?st\<lparr>st_backoff := entry_backoff e\<rparr>) (entry_backoff e) False p)
      (\<lambda>r n. free_now pods now ?v h n \<and> r = None)"
    using gone_phase [OF gone(1)] by (simp add: ensure_switch_def)
  then show ?thesis
    unfolding ensure_existing_def Let_def finished_gone [OF gone(1)]
    using e(2)
    by (auto intro!: triple_bind [OF count] triple_bind [OF due_state [OF hash]] triple_pure)
qed

subsection \<open>Ensure\<close>

lemma free_new:
  assumes works: "api_works K (mount_pod_name C (node_name s) (volume_id s)) pods now"
  shows "triple (free_now pods now (volume_id s) (spec_config_hash C cfg s))
    (ensure_new K C cfg s (spec_config_hash C cfg s)) (brought pods C cfg s)"
  unfolding free_now_def
proof (intro triple_ex triple_pure)
  fix e :: backoff_entry and t
  let ?h = "spec_config_hash C cfg s"
  assume e: "entry_hash e = ?h \<and> \<not> gave_up (entry_backoff e) \<and> next_restart (entry_backoff e) \<le> t"
  then show "triple (due_at pods now t (volume_id s) e None) (ensure_new K C cfg s ?h) (brought pods C cfg s)"
    unfolding ensure_new_def
    by (intro triple_bind [OF due_state] triple_pure)
      (auto intro!: triple_bind [OF due_clock [OF works]] triple_pure due_create [OF works])
qed

lemma absent_new:
  assumes works: "api_works K (mount_pod_name C (node_name s) (volume_id s)) pods now"
    and h: "h = spec_config_hash C cfg s"
  shows "triple (\<lambda>n. pods (node_world n) = None) (ensure_new K C cfg s h)
    (\<lambda>a n. gives_up (mount_pod_name C (node_name s) (volume_id s)) a \<and> given_up pods (volume_id s) h None n \<or>
       brought pods C cfg s a n \<or> waits pods now s h None a n)"
    (is "triple _ _ ?Q")
proof -
  have state: "triple (\<lambda>n. pods (node_world n) = None) (on_backoffs (backoff_state (volume_id s) h))
      (\<lambda>b n. \<exists>e t. due_at pods now t (volume_id s) e None n \<and> (entry_hash e = h \<and> b = entry_backoff e))"
    by (auto simp: triple_def due_at_def on_backoffs_def backoff_state_def backoff_for_def fresh_entry_def split: option.splits if_splits)
  have new: "triple (due_at pods now t (volume_id s) e None)
      (if gave_up b then State_Monad.return (absent_state C s b, Some (GaveUpError (mount_pod_name C (node_name s) (volume_id s)) b))
       else do {
         now \<leftarrow> on_world (k_clock K);
         (if now < next_restart b then State_Monad.return (absent_state C s b, None) else create_pod K C cfg s h)
       }) ?Q" if e: "entry_hash e = h \<and> b = entry_backoff e" for b and e :: backoff_entry and t
  proof (cases "gave_up b")
    case True
    then show ?thesis
      using e by (auto simp: gives_up_def given_up_def due_at_def absent_state_def intro!: triple_return)
  next
    case False
    have create: "triple (due_at pods now c (volume_id s) e None) (create_pod K C cfg s h) ?Q" for c
      unfolding h by (rule triple_weaken [OF due_create [OF works]]) (use e h in auto)
    have "triple (due_at pods now c (volume_id s) e None) (State_Monad.return (absent_state C s b, None)) ?Q" for c
      by (rule triple_return) (use e False in \<open>auto simp: waits_def absent_state_def\<close>)
    then show ?thesis
      using False create by (auto intro!: triple_bind [OF due_clock [OF works]] triple_pure)
  qed
  show ?thesis
    unfolding ensure_new_def by (intro triple_bind [OF state] triple_ex triple_pure new)
qed

text \<open>No pod of the volume, or one that ended.\<close>

definition down :: "string \<Rightarrow> 'q pod option \<Rightarrow> bool" where
  "down name x \<longleftrightarrow> (case x of None \<Rightarrow> True | Some p \<Rightarrow> replaceable name p)"

lemma down_ensure:
  assumes works: "api_works K (mount_pod_name C (node_name s) (volume_id s)) pods now"
    and s: "validate_spec s = Inr ()" "check_staging_path cfg (staging_path s) = Inr ()"
    and x: "down (mount_pod_name C (node_name s) (volume_id s)) x"
  shows "triple (\<lambda>n. pods (node_world n) = x) (ensure K C cfg s)
    (\<lambda>a n. gives_up (mount_pod_name C (node_name s) (volume_id s)) a \<and>
         given_up pods (volume_id s) (spec_config_hash C cfg s) x n \<or> brought pods C cfg s a n \<or>
       waits pods now s (spec_config_hash C cfg s) x a n)" (is "triple _ _ ?Q")
proof -
  let ?name = "mount_pod_name C (node_name s) (volume_id s)" and ?h = "spec_config_hash C cfg s"
  have get: "triple (\<lambda>n. pods (node_world n) = x) (on_world (k_get_pod K (cfg_namespace cfg) ?name))
      (\<lambda>r n. pods (node_world n) = x \<and> r = (case x of None \<Rightarrow> Inl ApiNotFound | Some p \<Rightarrow> Inr p))"
    using works by (auto simp: triple_def on_world_def api_works_def)
  have after: "triple (\<lambda>n. pods (node_world n) = x) (case x of
      None \<Rightarrow> ensure_new K C cfg s ?h
    | Some p \<Rightarrow> do {
        r \<leftarrow> ensure_existing K cfg s ?h p;
        (case r of Some answer \<Rightarrow> State_Monad.return answer | None \<Rightarrow> ensure_new K C cfg s ?h)
      }) ?Q"
  proof (cases x)
    case None
    then show ?thesis using absent_new [OF works refl] by simp
  next
    case (Some p)
    have p: "replaceable ?name p" using x Some by (simp add: down_def)
    have new: "triple (goes_on pods now s ?h ?name p None) (ensure_new K C cfg s ?h) ?Q"
      by (rule triple_weaken [OF free_new [OF works]]) (auto simp: goes_on_def)
    have rest: "triple (goes_on pods now s ?h ?name p r)
        (case r of Some answer \<Rightarrow> State_Monad.return answer | None \<Rightarrow> ensure_new K C cfg s ?h) ?Q" for r
      using new Some by (cases r) (auto simp: goes_on_def intro!: triple_return)
    have "triple (ended pods p) (do {
        r \<leftarrow> ensure_existing K cfg s ?h p;
        (case r of Some answer \<Rightarrow> State_Monad.return answer | None \<Rightarrow> ensure_new K C cfg s ?h)
      }) ?Q"
      by (rule triple_bind [OF ended_existing [OF works p] rest])
    then show ?thesis using Some by (simp add: ended_def [abs_def])
  qed
  show ?thesis
    unfolding ensure_def Let_def s sum.case
    by (intro triple_bind [OF get] triple_pure) (use after in \<open>simp split: option.splits\<close>)
qed

lemma due_ensure:
  assumes works: "api_works K (mount_pod_name C (node_name s) (volume_id s)) pods now"
    and s: "validate_spec s = Inr ()" "check_staging_path cfg (staging_path s) = Inr ()"
    and x: "down (mount_pod_name C (node_name s) (volume_id s)) x"
    and e: "entry_hash e = spec_config_hash C cfg s" "\<not> gave_up (entry_backoff e)" "next_restart (entry_backoff e) \<le> t"
      "\<forall>p. x = Some p \<longrightarrow> exit_counted p (spec_config_hash C cfg s) e"
  shows "triple (due_at pods now t (volume_id s) e x) (ensure K C cfg s) (brought pods C cfg s)"
proof -
  let ?h = "spec_config_hash C cfg s" and ?due = "due_at pods now t (volume_id s) e"
  have "triple (?due x) (case x of
      None \<Rightarrow> ensure_new K C cfg s ?h
    | Some p \<Rightarrow> do {
        r \<leftarrow> ensure_existing K cfg s ?h p;
        (case r of Some answer \<Rightarrow> State_Monad.return answer | None \<Rightarrow> ensure_new K C cfg s ?h)
      }) (brought pods C cfg s)"
  proof (cases x)
    case None
    have "free_now pods now (volume_id s) ?h n" if "?due None n" for n
      using that e(1-3) unfolding free_now_def by blast
    then show ?thesis using None by (auto intro: triple_weaken [OF free_new [OF works]])
  next
    case (Some p)
    then have "replaceable (mount_pod_name C (node_name s) (volume_id s)) p" "exit_counted p ?h e"
      using x e(4) by (simp_all add: down_def)
    then show ?thesis
      using Some e(2,3)
      by (auto intro!: triple_bind [OF due_existing [OF works]] triple_pure free_new [OF works])
  qed
  then show ?thesis
    unfolding ensure_def Let_def s sum.case
    by (intro triple_bind [OF due_get [OF works]] triple_pure) (simp split: option.splits)
qed

text \<open>
  C7. A volume whose mount pod is missing or ended gets its pod back, with an API that works: a call
  of \<open>Ensure\<close> either brings the pod built for the spec, or reports that the volume has given up, or answers without an error
  the restart state to wait for; in the last case nothing has changed but the count of the exit, and any later call
  that finds the clock at the restart time it answered brings the pod.
\<close>

theorem ended_pod_replaced:
  assumes works: "api_works K (mount_pod_name C (node_name s) (volume_id s)) pods now"
    and s: "validate_spec s = Inr ()" "check_staging_path cfg (staging_path s) = Inr ()"
    and x: "down (mount_pod_name C (node_name s) (volume_id s)) (pods (node_world n))"
    and run: "run_state (ensure K C cfg s) n = (a, n1)"
  shows "gives_up (mount_pod_name C (node_name s) (volume_id s)) a \<or> brought pods C cfg s a n1 \<or>
    snd a = None \<and> pods (node_world n1) = pods (node_world n) \<and>
    (\<forall>w. pods w = pods (node_world n1) \<and> next_restart (st_backoff (fst a)) \<le> now w \<longrightarrow>
       (case run_state (ensure K C cfg s) (n1\<lparr>node_world := w\<rparr>) of (b, n2) \<Rightarrow> brought pods C cfg s b n2))"
proof -
  let ?h = "spec_config_hash C cfg s"
  have "brought pods C cfg s b n2"
    if a: "waits pods now s ?h (pods (node_world n)) a n1"
      and w: "pods w = pods (node_world n1)" "next_restart (st_backoff (fst a)) \<le> now w"
      and b: "run_state (ensure K C cfg s) (n1\<lparr>node_world := w\<rparr>) = (b, n2)" for w b n2
  proof -
    obtain e t where e: "due_at pods now t (volume_id s) e (pods (node_world n)) n1" "entry_hash e = ?h"
        "\<not> gave_up (entry_backoff e)" "\<forall>p. pods (node_world n) = Some p \<longrightarrow> exit_counted p ?h e"
        "st_backoff (fst a) = entry_backoff e"
      using a unfolding waits_def by blast
    have "due_at pods now (now w) (volume_id s) e (pods (node_world n)) (n1\<lparr>node_world := w\<rparr>)"
      using e(1) w(1) by (simp add: due_at_def)
    from due_ensure [OF works s x e(2,3) _ e(4)] this b show ?thesis using w(2) e(5) by (auto dest: tripleD)
  qed
  moreover have "snd a = None \<and> pods (node_world n1) = pods (node_world n)"
    if "waits pods now s ?h (pods (node_world n)) a n1"
    using that by (auto simp: waits_def due_at_def)
  ultimately show ?thesis
    using tripleD [OF down_ensure [OF works s x] refl run] by (auto split: prod.split)
qed

subsection \<open>A concrete cluster\<close>

text \<open>An annotation that reads back as the volume's spec, and an API that keeps one pod and counts its clock up.\<close>

definition restart_codec :: "int codec" where
  "restart_codec = demo_codec\<lparr>json_stored := \<lambda>_. ''spec'', parse_stored := \<lambda>_. Some
     \<lparr>stored_uid = spec_uid served_spec, stored_gid = spec_gid served_spec, stored_options = spec_options served_spec,
      stored_resources = spec_resources served_spec\<rparr>\<rparr>"

definition restart_cluster :: "(int pod option \<times> nat, int) cluster" where
  "restart_cluster = (logging_cluster None)
     \<lparr>k_get_pod := \<lambda>_ _. State (\<lambda>w. (case fst w of None \<Rightarrow> Inl ApiNotFound | Some p \<Rightarrow> Inr p, w)),
      k_create_pod := \<lambda>_ p. let q = p\<lparr>pod_meta := (pod_meta p)\<lparr>om_uid := ''u2'', om_deletion := None\<rparr>\<rparr>
        in State (\<lambda>w. (Inr q, Some q, snd w)),
      k_patch_finalizers := \<lambda>_ _ _ b. State (\<lambda>w. (Inr (),
        map_option (\<lambda>p. p\<lparr>pod_meta := (pod_meta p)\<lparr>om_finalizers := b\<rparr>\<rparr>) (fst w), snd w)),
      k_delete_pod := \<lambda>_ _ _ _. State (\<lambda>w. (Inr (), None, snd w)),
      k_get_secret := \<lambda>_ _. State_Monad.return (Inr (build_secret restart_codec demo_config (\<lambda>_. 0) served_spec ''h'')),
      k_clock := State (\<lambda>w. (int (snd w), fst w, snd w + 1))\<rparr>"

text \<open>The mount pod of the concrete volume once its process ended with code 1.\<close>

definition exited_pod :: "int pod" where
  "exited_pod = (build_pod restart_codec demo_config served_spec (spec_config_hash restart_codec demo_config served_spec) [])
     \<lparr>pod_meta := (pod_meta (build_pod restart_codec demo_config served_spec (spec_config_hash restart_codec demo_config served_spec) []))
        \<lparr>om_uid := ''u1''\<rparr>,
      pod_status_of := no_status\<lparr>pst_phase := ''Failed'', pst_containers :=
        [\<lparr>cs_name = container_name, cs_terminated = Some \<lparr>te_exit_code = 1, te_reason = ''Error'', te_message = [],
           te_started = 0, te_finished = 0\<rparr>, cs_waiting = None, cs_running = None\<rparr>]\<rparr>\<rparr>"

definition exited_node :: "(int pod option \<times> nat) node" where
  "exited_node = \<lparr>node_backoffs = Map.empty, node_world = (Some exited_pod, 0)\<rparr>"

lemma restart_cluster_works: "api_works restart_cluster name fst (int \<circ> snd)"
  by (auto simp: api_works_def restart_cluster_def logging_cluster_def plain_def created_as_def Let_def unheld_def
      split: option.split)

lemma exited_down: "down (mount_pod_name restart_codec (node_name served_spec) (volume_id served_spec)) (Some exited_pod)"
  by (simp add: down_def replaceable_def exited_pod_def process_gone_def no_status_def build_pod_def object_meta_of_def Let_def)

lemma exited_fields:
  "pod_meta exited_pod = (pod_meta (build_pod restart_codec demo_config served_spec (spec_config_hash restart_codec demo_config served_spec) []))
     \<lparr>om_uid := ''u1''\<rparr>"
  "om_deletion (pod_meta exited_pod) = None" "om_uid (pod_meta exited_pod) = ''u1''"
  "process_gone exited_pod" "st_phase (state_of exited_pod) = PhaseExited"
  "exit_code (state_of exited_pod) = Some 1" "exit_message (state_of exited_pod) = []"
  "terminated (Some exited_pod) = Some \<lparr>te_exit_code = 1, te_reason = ''Error'', te_message = [], te_started = 0, te_finished = 0\<rparr>"
  by (simp_all add: state_of_def exited_pod_def statuses_def process_gone_def terminated_def no_status_def
      build_pod_def object_meta_of_def Let_def status_step_def)

lemma exited_hash: "pod_annotation exited_pod annotation_config_hash = spec_config_hash restart_codec demo_config served_spec"
  using built_annotations [of restart_codec demo_config served_spec
      "spec_config_hash restart_codec demo_config served_spec" "[]"]
  by (simp add: pod_annotation_def exited_fields)

lemma exited_first:
  assumes get: "\<And>ns x t. run_state (k_get_pod K ns x) (Some exited_pod, t) = (Inr exited_pod, Some exited_pod, t)"
    and clock: "\<And>t. run_state (k_clock K) (Some exited_pod, t) = (int t, Some exited_pod, Suc t)"
    and rnd: "k_rand K = State_Monad.return (\<lambda>_. 0)"
  shows "\<exists>st n1. run_state (ensure K restart_codec demo_config served_spec) exited_node = ((st, None), n1) \<and>
     st_phase st = PhaseExited \<and> next_restart (st_backoff st) = seconds 5"
proof -
  let ?h = "spec_config_hash restart_codec demo_config served_spec"
  let ?m = "snd (record_exit demo_config (\<lambda>_. 0) 0 (volume_id served_spec) ?h (pod_annotation exited_pod annotation_staging_path) ''u1'' 1 [] 0 Map.empty)"
  have r: "\<exists>e. ?m (volume_id served_spec) = Some e \<and> entry_hash e = ?h \<and> next_restart (entry_backoff e) = seconds 5 \<and> \<not> gave_up (entry_backoff e)"
    by (simp add: record_exit_def backoff_for_def fresh_entry_def count_backoff_def schedule_def no_backoff_def is_fatal_def Let_def
      exit_auth_required_def exit_config_def restart_delay_def demo_config_def seconds_def)
  then obtain e where e: "?m (volume_id served_spec) = Some e" "entry_hash e = ?h" "next_restart (entry_backoff e) = seconds 5"
    "\<not> gave_up (entry_backoff e)" by blast
  have b: "backoff_for (volume_id served_spec) ?h ?m = (e, ?m)" by (rule backoff_for_same) (rule e)+
  have c: "run_state (count_exit K demo_config (volume_id served_spec) ?h ((state_of exited_pod)\<lparr>st_config_changed := x\<rparr>)) exited_node =
      ((), \<lparr>node_backoffs = ?m, node_world = (Some exited_pod, 1)\<rparr>)" for x
    by (simp add: count_exit_def exited_fields state_of_fields exited_hash clock rnd exited_node_def on_world_def
       on_backoffs_def update_backoffs_def time_sub_def Let_def)
  have w: "node_world exited_node = (Some exited_pod, 0)" "exited_node\<lparr>node_world := (Some exited_pod, 0)\<rparr> = exited_node"
    by (simp_all add: exited_node_def)
  show ?thesis
   by (simp add: ensure_def served_checks Let_def ensure_existing_def ensure_switch_def replace_finished_def
       exited_fields(2-) finished_gone state_of_fields exited_hash on_world_def get clock w seconds_def
       on_backoffs_def backoff_state_def c b e(3) [unfolded seconds_def] e(4))
qed

theorem ended_pod_replaced_witness:
  "case run_state (ensure restart_cluster restart_codec demo_config served_spec) exited_node of (a, n) \<Rightarrow>
     snd a = None \<and> fst (node_world n) = Some exited_pod \<and> next_restart (st_backoff (fst a)) = seconds 5 \<and>
     (case run_state (ensure restart_cluster restart_codec demo_config served_spec)
         (n\<lparr>node_world := (Some exited_pod, nat (seconds 5))\<rparr>) of
        (b, n') \<Rightarrow> brought fst restart_codec demo_config served_spec b n')"
proof -
  obtain st n where r: "run_state (ensure restart_cluster restart_codec demo_config served_spec) exited_node = ((st, None), n)"
      "st_phase st = PhaseExited" "next_restart (st_backoff st) = seconds 5"
    using exited_first [of restart_cluster] by (auto simp: restart_cluster_def logging_cluster_def)
  have "down (mount_pod_name restart_codec (node_name served_spec) (volume_id served_spec)) (fst (node_world exited_node))"
    using exited_down by (simp add: exited_node_def)
  from ended_pod_replaced [OF restart_cluster_works served_checks this r(1)] r(2)
  have "fst (node_world n) = fst (node_world exited_node)"
      "\<forall>w. fst w = fst (node_world n) \<and> next_restart (st_backoff st) \<le> int (snd w) \<longrightarrow>
        (case run_state (ensure restart_cluster restart_codec demo_config served_spec) (n\<lparr>node_world := w\<rparr>) of
          (b, n') \<Rightarrow> brought fst restart_codec demo_config served_spec b n')"
    by (auto simp: gives_up_def brought_def [of _ _ _ _ "(st, None)"])
  then show ?thesis using r by (simp add: exited_node_def seconds_def)
qed

end
