(* ===== verification/Repair_Restart.thy ===== *)
theory Repair_Restart
  imports Pod_Restart Watch
begin

text \<open>
  From the event to the pod: what a worker of the watch answers its queue once it repaired a staged volume whose mount
  pod ended, and that the repair it asks for brings the pod.
\<close>

subsection \<open>Readings\<close>

text \<open>What is left as it is by calls that only read, or write elsewhere.\<close>

definition stable :: "('w \<Rightarrow> 'q pod option) \<Rightarrow> ('w \<Rightarrow> int) \<Rightarrow> ('w node \<Rightarrow> bool) \<Rightarrow> bool" where
  "stable pods now I \<longleftrightarrow>
     (\<forall>n w. I n \<longrightarrow> pods w = pods (node_world n) \<longrightarrow> now (node_world n) \<le> now w \<longrightarrow> I (n\<lparr>node_world := w\<rparr>))"

text \<open>Nobody stages or unstages the volume.\<close>

definition idle :: "('w node \<Rightarrow> bool) \<Rightarrow> string \<Rightarrow> 'w server \<Rightarrow> bool" where
  "idle I v s \<longleftrightarrow> I (sv_node s) \<and> sv_busy s v = None"

text \<open>
  Kubelet has the volume of the pod staged, and the mount table, the directories, the claims and the events can be
  read and written without anything happening to the pod.
\<close>

definition staged_reads ::
  "('w, 'q) node_server \<Rightarrow> 'q pod \<Rightarrow> ('w \<Rightarrow> 'q pod option) \<Rightarrow> ('w \<Rightarrow> int) \<Rightarrow> bool" where
  "staged_reads S p pods now \<longleftrightarrow>
     pod_annotation p annotation_staging_path \<noteq> [] \<and>
     plain pods now (h_mount_info (ns_host S)) \<and> (\<forall>w. \<exists>infos. fst (run_state (h_mount_info (ns_host S)) w) = Inr infos) \<and>
     (\<forall>d. plain pods now (h_read_dir (ns_host S) d)) \<and> (\<forall>f. plain pods now (h_stat (ns_host S) f)) \<and>
     (\<forall>w. fst (run_state (h_stat (ns_host S) (path_join [path_dir (pod_annotation p annotation_staging_path), vol_data_file])) w)
        \<noteq> Inl Enoent) \<and>
     (\<forall>k ns n. ns_kube S = Some k \<longrightarrow> plain pods now (kb_get_claim k ns n)) \<and>
     (\<forall>f ob x. ns_record S = Some f \<longrightarrow> plain pods now (f ob x)) \<and>
     plain pods now (k_clock (ns_cluster S)) \<and> (\<forall>w. 0 \<le> now w)"

lemma idle_plain:
  assumes "stable pods now I" "plain pods now m"
  shows "triple (idle I v) (on_host m) (\<lambda>_. idle I v)"
  using assms by (auto simp: triple_def idle_def stable_def plain_def on_host_def on_node_def on_world_def case_prod_beta)

lemma idle_plain_value:
  assumes "stable pods now I" "plain pods now m" "\<And>w. Q (fst (run_state m w))"
  shows "triple (idle I v) (on_host m) (\<lambda>x s. idle I v s \<and> Q x)"
  using assms by (auto simp: triple_def idle_def stable_def plain_def on_host_def on_node_def on_world_def case_prod_beta)

lemma idle_node:
  "triple I m Q \<Longrightarrow> triple (idle I v) (on_node m) (\<lambda>x. idle (Q x) v)"
  by (auto simp: triple_def idle_def on_node_def split: prod.splits)

lemma idle_events:
  assumes st: "stable pods now I" and reads: "staged_reads S p pods now"
  shows "triple (idle I v) (claim_ref S ns n) (\<lambda>_. idle I v)" "triple (idle I v) (record_event S ob x) (\<lambda>_. idle I v)"
    "triple (idle I v) (report_exit_early S pst) (\<lambda>_. idle I v)"
proof -
  show claim: "triple (idle I v) (claim_ref S ns n) (\<lambda>_. idle I v)" for ns n
    unfolding claim_ref_def using reads
    by (auto simp: staged_reads_def intro!: triple_return triple_bind [OF idle_plain [OF st]] split: option.split)
  show event: "triple (idle I v) (record_event S ob x) (\<lambda>_. idle I v)" for ob x
    unfolding record_event_def using reads
    by (auto simp: staged_reads_def intro!: triple_return idle_plain [OF st] split: option.split)
  have emit: "triple (idle I v) (emit_exit S pst code) (\<lambda>_. idle I v)" for code
    unfolding emit_exit_def by (auto intro!: triple_return triple_bind [OF claim] event split: option.split)
  have mark: "triple (idle I v) (set_reported f) (\<lambda>_. idle I v)" "triple (idle I v) (read_server g) (\<lambda>_. idle I v)" for f and g :: "'a server \<Rightarrow> bool"
    by (auto simp: triple_def idle_def set_reported_def read_server_def)
  show "triple (idle I v) (report_exit_early S pst) (\<lambda>_. idle I v)"
    unfolding report_exit_early_def
    by (auto intro!: triple_return triple_bind [OF mark(1)] triple_bind [OF mark(2)] emit split: option.split)
qed

subsection \<open>From the volume to its pod\<close>

lemma idle_staged:
  assumes st: "stable pods now I" and reads: "staged_reads S p pods now"
  shows "triple (idle I v) (kubelet_staged S (pod_annotation p annotation_staging_path)) (\<lambda>b s. idle I v s \<and> b)"
proof -
  let ?path = "pod_annotation p annotation_staging_path"
  have ne: "?path \<noteq> []" using reads by (simp add: staged_reads_def)
  have dir: "triple (idle I v) (driver_dir_readable S d) (\<lambda>_. idle I v)" for d
  proof -
    have "triple (idle I v) (State (\<lambda>s. ((), s\<lparr>sv_dir_unreadable := b\<rparr>))) (\<lambda>_. idle I v)" for b
      by (auto simp: triple_def idle_def)
    moreover have "triple (idle I v) (on_host (h_read_dir (ns_host S) d)) (\<lambda>_. idle I v)"
      using reads by (intro idle_plain [OF st]) (simp add: staged_reads_def)
    ultimately show ?thesis
      unfolding driver_dir_readable_def Let_def by (auto intro!: triple_bind triple_return)
  qed
  have stat: "triple (idle I v) (on_host (h_stat (ns_host S) (path_join [path_dir ?path, vol_data_file])))
      (\<lambda>r s. idle I v s \<and> r \<noteq> Inl Enoent)"
    by (rule idle_plain_value [OF st]) (use reads in \<open>simp_all add: staged_reads_def\<close>)
  have "triple (idle I v) (do { r \<leftarrow> on_host (h_stat (ns_host S) (path_join [path_dir ?path, vol_data_file]));
      State_Monad.return (r \<noteq> Inl Enoent) }) (\<lambda>b s. idle I v s \<and> b)"
    by (rule triple_bind [OF stat]) (auto intro: triple_return)
  then show ?thesis
    unfolding kubelet_staged_def using ne
    by (auto intro!: triple_bind [OF dir] triple_return)
qed

lemma idle_not_busy: "triple (idle I v) (is_busy S v) (\<lambda>b s. idle I v s \<and> \<not> b)"
  by (auto simp: triple_def idle_def is_busy_def read_server_def)

text \<open>A staged volume whose pod ended is looked at as such.\<close>

lemma idle_recover:
  assumes works: "api_works (node_cluster S) (mount_pod_name (ns_codec S) (ns_node S) v) pods now"
    and st: "stable pods now I" and reads: "staged_reads S p pods now" and I: "\<And>n. I n \<Longrightarrow> pods (node_world n) = Some p"
    and phase: "st_phase (state_of p) = PhaseTerminating \<or> st_phase (state_of p) = PhaseExited"
    and ended: "triple (idle I v) (recover_ended S v (state_of p)) Q"
  shows "triple (idle I v) (recover_volume S v False) Q"
proof -
  have get: "triple (idle I v) (ns_get S v) (\<lambda>a s. idle I v s \<and> a = (state_of p, None))"
    using works st I
    by (auto simp: triple_def idle_def ns_get_def on_node_def get_state_def on_world_def api_works_def Let_def stable_def)
  have table: "triple (idle I v) (on_host (h_mount_info (ns_host S))) (\<lambda>r s. idle I v s \<and> (\<exists>infos. r = Inr infos))"
    by (rule idle_plain_value [OF st]) (use reads in \<open>simp_all add: staged_reads_def\<close>)
  have choice: "triple (idle I v) (recover_choice S v (state_of p) infos True) Q" for infos
    using ended phase by (auto simp: recover_choice_def)
  have idle: "triple (idle I v) (recover_idle S v False (state_of p) infos) Q" for infos
    unfolding recover_idle_def
    by (auto simp: state_of_fields choice intro!: triple_bind [OF idle_not_busy] triple_pure triple_bind [OF idle_staged [OF st reads]])
  have found: "triple (idle I v) (recover_found S v False (state_of p)) Q"
    unfolding recover_found_def by (rule triple_bind [OF table], rule triple_pure) (auto simp: idle)
  show ?thesis
    unfolding recover_volume_def by (rule triple_bind [OF get], rule triple_pure) (use phase found in auto)
qed

text \<open>The Secret of the pod is there, so that the spec of the volume can be rebuilt as \<open>s\<close>.\<close>

definition rebuilds ::
  "('w, 'q) node_server \<Rightarrow> 'q pod \<Rightarrow> 'q spec \<Rightarrow> ('w \<Rightarrow> 'q pod option) \<Rightarrow> bool" where
  "rebuilds S p s pods \<longleftrightarrow>
     (\<forall>n. pods (node_world n) = Some p \<longrightarrow>
        fst (run_state (spec_of (node_cluster S) (ns_codec S) (ns_config S) (state_of p) (ns_cache S)) n) = Inr s)"

text \<open>What \<open>recoverVolume\<close> makes of the answer of \<open>Ensure\<close>.\<close>

definition outcome_of :: "'q answer \<Rightarrow> int \<Rightarrow> repair_error option \<Rightarrow> int \<Rightarrow> bool" where
  "outcome_of a retry e tm \<longleftrightarrow>
     (case snd a of
        Some (GaveUpError _ _) \<Rightarrow> retry = zero_time
      | x \<Rightarrow> e = map_option ManagerFailed x \<and>
          (if st_phase (fst a) = PhaseExited \<or> st_phase (fst a) = PhaseAbsent
           then \<exists>c. 0 \<le> c \<and> c \<le> tm \<and> retry = max (next_restart (st_backoff (fst a))) (c + min_retry_delay)
           else retry = zero_time))"

lemma idle_clock:
  assumes works: "api_works (node_cluster S) name pods now" and J: "stable pods now J" and reads: "staged_reads S p pods now"
  shows "triple (idle J v) (ns_clock S) (\<lambda>c t. idle J v t \<and> 0 \<le> c \<and> c \<le> now (node_world (sv_node t)))"
proof (rule tripleI)
  fix x c y assume x: "idle J v x" and run: "run_state (ns_clock S) x = (c, y)"
  have "triple (idle J v) (ns_clock S) (\<lambda>_. idle J v)"
    unfolding ns_clock_def by (rule idle_plain [OF J]) (use reads in \<open>simp add: staged_reads_def\<close>)
  then have "idle J v y" using x run by (rule tripleD)
  moreover have "0 \<le> c \<and> c \<le> now (node_world (sv_node y))"
    using works reads run unfolding api_works_def staged_reads_def
    by (auto simp: node_cluster_def ns_clock_def on_host_def on_node_def on_world_def case_prod_beta intro: order_trans)
  ultimately show "idle J v y \<and> 0 \<le> c \<and> c \<le> now (node_world (sv_node y))" by simp
qed

lemma idle_recover_ended:
  assumes works: "api_works (node_cluster S) (mount_pod_name (ns_codec S) (ns_node S) v) pods now"
    and st: "stable pods now I" and reads: "staged_reads S p pods now" and I: "\<And>n. I n \<Longrightarrow> pods (node_world n) = Some p"
    and spec: "rebuilds S p s pods"
    and ensure: "triple I (ensure (node_cluster S) (ns_codec S) (ns_config S) s) R" and R: "\<And>a. stable pods now (R a)"
  shows "triple (idle I v) (recover_ended S v (state_of p))
    (\<lambda>r t. \<exists>a. idle (R a) v t \<and> outcome_of a (fst (snd r)) (snd (snd r)) (now (node_world (sv_node t))))"
proof -
  let ?Q = "\<lambda>r t. \<exists>a. idle (R a) v t \<and> outcome_of a (fst (snd r)) (snd (snd r)) (now (node_world (sv_node t)))"
  let ?spec = "spec_of (node_cluster S) (ns_codec S) (ns_config S) (state_of p) (ns_cache S)"
  have keep: "triple I ?spec (\<lambda>_. I)"
  proof -
    have "triple I (on_world (k_get_secret (node_cluster S) ns x)) (\<lambda>_. I)" for ns x
      using works_plain(4) [OF works, of ns x] st
      by (auto simp: triple_def stable_def plain_def on_world_def case_prod_beta)
    then show ?thesis
      unfolding spec_of_def by (auto intro!: triple_return triple_bind split: option.split)
  qed
  have value_: "triple (idle I v) (on_node ?spec) (\<lambda>r t. idle I v t \<and> r = Inr s)"
  proof (rule tripleI)
    fix x r y assume x: "idle I v x" and run: "run_state (on_node ?spec) x = (r, y)"
    have "idle I v y" by (rule tripleD [OF idle_node [OF keep] x run])
    moreover have "r = Inr s"
      using spec x run I by (auto simp: rebuilds_def idle_def run_on_node split: prod.splits) (metis fst_conv)+
    ultimately show "idle I v y \<and> r = Inr s" by simp
  qed
  have marks: "triple (idle J v) (set_gave_up f) (\<lambda>_. idle J v)" "triple (idle J v) (read_server g) (\<lambda>_. idle J v)"
    for J f and g :: "'a server \<Rightarrow> bool"
    by (auto simp: triple_def idle_def set_gave_up_def read_server_def)
  note clock = idle_clock [OF works R reads]
  note events = idle_events(1,2) [OF R reads]
  have gave_up: "triple (idle (R a) v) (report_gave_up S pst nst e) (\<lambda>_. idle (R a) v)" for a pst nst e
    unfolding report_gave_up_def
    by (auto intro!: triple_bind [OF triple_weaken [OF clock]] triple_bind [OF marks(1)] triple_bind [OF marks(2)]
        triple_bind [OF events(1)] triple_bind [OF events(2)] triple_return)
  have retry: "triple (idle (R a) v) (if st_phase (fst a) = PhaseExited \<or> st_phase (fst a) = PhaseAbsent then do {
        c \<leftarrow> ns_clock S;
        State_Monad.return (max (next_restart (st_backoff (fst a))) (c + min_retry_delay))
      } else State_Monad.return zero_time)
      (\<lambda>r t. idle (R a) v t \<and> (\<forall>x. snd a = x \<longrightarrow> (\<forall>n b. x \<noteq> Some (GaveUpError n b)) \<longrightarrow>
         outcome_of a r (map_option ManagerFailed x) (now (node_world (sv_node t)))))" for a
    by (auto intro!: triple_bind [OF clock] triple_return simp: outcome_of_def split: option.split manager_error.split)
  have ens: "triple (idle I v) (ns_ensure S s) (\<lambda>a. idle (R a) v)"
    unfolding ns_ensure_def by (rule idle_node [OF ensure])
  have rest: "triple (idle (R (nst, x)) v) (do {
      _ \<leftarrow> (if x = None then set_gave_up (\<lambda>m. m(v := None)) else State_Monad.return ());
      retry \<leftarrow> (if st_phase nst = PhaseExited \<or> st_phase nst = PhaseAbsent then do {
          c \<leftarrow> ns_clock S;
          State_Monad.return (max (next_restart (st_backoff nst)) (c + min_retry_delay))
        } else State_Monad.return zero_time);
      State_Monad.return (metric_state (st_phase nst), retry, map_option ManagerFailed x)
    }) ?Q" if "\<forall>n b. x \<noteq> Some (GaveUpError n b)" for nst x
  proof -
    have first: "triple (idle (R (nst, x)) v) (if x = None then set_gave_up (\<lambda>m. m(v := None)) else State_Monad.return ()) (\<lambda>_. idle (R (nst, x)) v)"
      by (auto intro: marks triple_return)
    have last: "triple (\<lambda>t. idle (R (nst, x)) v t \<and> (\<forall>y. snd (nst, x) = y \<longrightarrow> (\<forall>n b. y \<noteq> Some (GaveUpError n b)) \<longrightarrow>
         outcome_of (nst, x) r (map_option ManagerFailed y) (now (node_world (sv_node t)))))
        (State_Monad.return (metric_state (st_phase nst), r, map_option ManagerFailed x)) ?Q" for r
      using that by (auto intro!: triple_return exI [of _ nst] exI [of _ x])
    show ?thesis
      by (rule triple_bind [OF first], rule triple_bind [OF retry [of "(nst, x)", unfolded fst_conv] last])
  qed
  have up: "triple (idle (R (nst, Some (GaveUpError n b))) v) (do {
      e \<leftarrow> report_gave_up S (state_of p) nst (GaveUpError n b);
      State_Monad.return (metric_state (st_phase nst), zero_time, e)
    }) ?Q" for nst n b
    by (rule triple_bind [OF gave_up])
      (auto intro!: triple_return exI [of _ nst] exI [of _ "Some (GaveUpError n b)"] simp: outcome_of_def)
  have answer: "triple (idle (R a) v) (case a of
      (nst, Some (GaveUpError n b)) \<Rightarrow> do {
        e \<leftarrow> report_gave_up S (state_of p) nst (GaveUpError n b);
        State_Monad.return (metric_state (st_phase nst), zero_time, e)
      }
    | (nst, e) \<Rightarrow> do {
        _ \<leftarrow> (if e = None then set_gave_up (\<lambda>m. m(v := None)) else State_Monad.return ());
        retry \<leftarrow> (if st_phase nst = PhaseExited \<or> st_phase nst = PhaseAbsent then do {
            c \<leftarrow> ns_clock S;
            State_Monad.return (max (next_restart (st_backoff nst)) (c + min_retry_delay))
          } else State_Monad.return zero_time);
        State_Monad.return (metric_state (st_phase nst), retry, map_option ManagerFailed e)
      }) ?Q" for a
  proof (cases a)
    case (Pair nst x)
    show ?thesis
    proof (cases "\<exists>n b. x = Some (GaveUpError n b)")
      case True
      then obtain n b where "x = Some (GaveUpError n b)" by blast
      then show ?thesis using Pair up [of nst n b] by (simp only: prod.case option.case manager_error.case)
    next
      case False
      then show ?thesis
        using Pair rest [of x nst] by (cases x; cases "the x") simp_all
    qed
  qed
  show ?thesis
    unfolding recover_ended_def
    by (rule triple_bind [OF idle_events(3) [OF st reads]], rule triple_bind [OF value_], rule triple_pure)
      (use triple_bind [OF ens answer] in simp)
qed

subsection \<open>From the queue to the pod\<close>

text \<open>What the worker answers the queue, from the answer of \<open>Ensure\<close> and the time.\<close>

definition worker_answer :: "'q answer \<Rightarrow> requeue \<Rightarrow> int \<Rightarrow> bool" where
  "worker_answer a q tm \<longleftrightarrow>
     (case snd a of
        Some (GaveUpError _ _) \<Rightarrow> q = RateLimited \<or> q = Forgotten
      | Some _ \<Rightarrow> q = RateLimited
      | None \<Rightarrow>
          if st_phase (fst a) = PhaseExited \<or> st_phase (fst a) = PhaseAbsent
          then \<exists>d. q = After d \<and> min (next_restart (st_backoff (fst a)) - tm) (2 ^ 63 - 1) \<le> d
          else q = Forgotten)"

lemma waits_long_enough:
  "next \<le> retry \<Longrightarrow> c \<le> tm \<Longrightarrow> min (next - tm) (2 ^ 63 - 1) \<le> max (time_sub retry c) min_retry_delay"
  by (auto simp: time_sub_def)

lemma outcome_later:
  assumes "outcome_of a retry None tm" "retry \<noteq> zero_time"
  shows "snd a = None \<and> (st_phase (fst a) = PhaseExited \<or> st_phase (fst a) = PhaseAbsent) \<and> next_restart (st_backoff (fst a)) \<le> retry"
  using assms by (auto simp: outcome_of_def split: option.splits manager_error.splits if_splits)

lemma outcome_error: "outcome_of a retry (Some e) tm \<Longrightarrow> worker_answer a RateLimited tm'"
  by (auto simp: outcome_of_def worker_answer_def split: option.splits manager_error.splits if_splits)

lemma outcome_done: "outcome_of a zero_time None tm \<Longrightarrow> worker_answer a Forgotten tm'"
  by (auto simp: outcome_of_def worker_answer_def zero_time_def min_retry_delay_def seconds_def max_def
      split: option.splits manager_error.splits if_splits)

lemma idle_worker:
  assumes works: "api_works (node_cluster S) name pods now" and reads: "staged_reads S p pods now"
    and R: "\<And>a. stable pods now (R a)"
    and recover: "triple (idle I v) (recover_volume S v False)
      (\<lambda>r t. \<exists>a. idle (R a) v t \<and> outcome_of a (fst (snd r)) (snd (snd r)) (now (node_world (sv_node t))))"
  shows "triple (idle I v) (repair_worker S v) (\<lambda>q t. \<exists>a. idle (R a) v t \<and> worker_answer a q (now (node_world (sv_node t))))"
proof -
  let ?Q = "\<lambda>q t. \<exists>a. idle (R a) v t \<and> worker_answer a q (now (node_world (sv_node t)))"
  have switch: "triple (\<lambda>t. \<exists>a. idle (R a) v t \<and> outcome_of a retry e (now (node_world (sv_node t)))) (case (retry, e) of
        (_, Some _) \<Rightarrow> State_Monad.return RateLimited
      | (at, None) \<Rightarrow>
          if at = zero_time then State_Monad.return Forgotten
          else do {
            now \<leftarrow> ns_clock S;
            State_Monad.return (After (max (time_sub at now) min_retry_delay))
          }) ?Q" for retry e
  proof (rule triple_ex)
    fix a
    let ?P = "\<lambda>t. idle (R a) v t \<and> outcome_of a retry e (now (node_world (sv_node t)))"
    show "triple ?P (case (retry, e) of
        (_, Some _) \<Rightarrow> State_Monad.return RateLimited
      | (at, None) \<Rightarrow>
          if at = zero_time then State_Monad.return Forgotten
          else do {
            now \<leftarrow> ns_clock S;
            State_Monad.return (After (max (time_sub at now) min_retry_delay))
          }) ?Q"
    proof (cases e)
      case (Some x)
      show ?thesis
        unfolding Some prod.case option.case by (rule triple_return) (use outcome_error in blast)
    next
      case None
      show ?thesis
      proof (cases "retry = zero_time")
        case True
        show ?thesis
          unfolding None True prod.case option.case if_True by (simp only: refl if_True, rule triple_return) (use outcome_done in blast)
      next
        case False
        have "triple (\<lambda>t. idle (R a) v t \<and> (snd a = None \<and> (st_phase (fst a) = PhaseExited \<or> st_phase (fst a) = PhaseAbsent) \<and>
            next_restart (st_backoff (fst a)) \<le> retry))
            (do { now \<leftarrow> ns_clock S; State_Monad.return (After (max (time_sub retry now) min_retry_delay)) }) ?Q"
        proof (rule triple_pure)
          assume a: "snd a = None \<and> (st_phase (fst a) = PhaseExited \<or> st_phase (fst a) = PhaseAbsent) \<and>
            next_restart (st_backoff (fst a)) \<le> retry"
          have answer: "worker_answer a (After (max (time_sub retry c) min_retry_delay)) tm" if "c \<le> tm" for c tm
            using a waits_long_enough [of "next_restart (st_backoff (fst a))" retry c tm] that
            by (simp add: worker_answer_def)
          show "triple (idle (R a) v) (do { now \<leftarrow> ns_clock S; State_Monad.return (After (max (time_sub retry now) min_retry_delay)) }) ?Q"
            by (rule triple_bind [OF idle_clock [OF works R reads]], rule triple_return) (use answer in blast)
        qed
        then show ?thesis
          using None False outcome_later [of a retry] by (auto elim!: triple_weaken)
      qed
    qed
  qed
  show ?thesis
    unfolding repair_worker_def repair_def
  proof (simp, rule triple_bind [OF recover])
    fix r :: outcome
    obtain m retry e where "r = (m, retry, e)" by (cases r)
    then show "triple (\<lambda>t. \<exists>a. idle (R a) v t \<and> outcome_of a (fst (snd r)) (snd (snd r)) (now (node_world (sv_node t))))
        (case snd r of
          (_, Some _) \<Rightarrow> State_Monad.return RateLimited
        | (at, None) \<Rightarrow>
            if at = zero_time then State_Monad.return Forgotten
            else do {
              now \<leftarrow> ns_clock S;
              State_Monad.return (After (max (time_sub at now) min_retry_delay))
            }) (\<lambda>q t. \<exists>a b. idle (R (a, b)) v t \<and> worker_answer (a, b) q (now (node_world (sv_node t))))"
      using switch [of retry e] by simp
  qed
qed

lemma stable_states:
  "stable pods now (ended pods p)" "stable pods now (due_at pods now t v e x)" "stable pods now (brought pods C cfg s a)"
  "stable pods now (waits pods now s h x a)" "stable pods now (given_up pods v h x)"
  unfolding stable_def ended_def due_at_def brought_def waits_def given_up_def by (auto intro: order_trans)

lemma stable_or: "stable pods now I \<Longrightarrow> stable pods now J \<Longrightarrow> stable pods now (\<lambda>n. I n \<or> J n)"
  unfolding stable_def by blast

lemma stable_and: "stable pods now I \<Longrightarrow> stable pods now (\<lambda>n. c \<and> I n)"
  by (simp add: stable_def)

text \<open>The worker after \<open>Ensure\<close> brought the pod.\<close>

lemma worker_brings:
  assumes works: "api_works (node_cluster S) (mount_pod_name (ns_codec S) (ns_node S) (volume_id s)) pods now"
    and reads: "staged_reads S p pods now" and spec: "rebuilds S p s pods" and phase: "st_phase (state_of p) = PhaseTerminating \<or> st_phase (state_of p) = PhaseExited"
    and I: "stable pods now I" "\<And>n. I n \<Longrightarrow> pods (node_world n) = Some p"
    and ensure: "triple I (ensure (node_cluster S) (ns_codec S) (ns_config S) s) R" and R: "\<And>a. stable pods now (R a)"
  shows "triple (idle I (volume_id s)) (repair_worker S (volume_id s))
    (\<lambda>q t. \<exists>a. idle (R a) (volume_id s) t \<and> worker_answer a q (now (node_world (sv_node t))))"
proof -
  have ended: "triple (idle I (volume_id s)) (recover_ended S (volume_id s) (state_of p))
      (\<lambda>r t. \<exists>a. idle (R a) (volume_id s) t \<and> outcome_of a (fst (snd r)) (snd (snd r)) (now (node_world (sv_node t))))"
    by (rule idle_recover_ended [OF works I(1) reads I(2) spec ensure R])
  have "triple (idle I (volume_id s)) (recover_volume S (volume_id s) False)
      (\<lambda>r t. \<exists>a. idle (R a) (volume_id s) t \<and> outcome_of a (fst (snd r)) (snd (snd r)) (now (node_world (sv_node t))))"
    by (rule idle_recover [OF works I(1) reads I(2) phase ended])
  then show ?thesis by (rule idle_worker [OF works reads R])
qed

text \<open>What one repair of a volume whose pod ended comes to.\<close>

lemma worker_first_repair:
  assumes works: "api_works (node_cluster S) (mount_pod_name (ns_codec S) (ns_node S) (volume_id s)) pods now"
    and reads: "staged_reads S p pods now" and spec: "rebuilds S p s pods" and node: "node_name s = ns_node S"
    and s: "validate_spec s = Inr ()" "check_staging_path (ns_config S) (staging_path s) = Inr ()"
    and p: "replaceable (mount_pod_name (ns_codec S) (ns_node S) (volume_id s)) p"
    and x: "pods (node_world (sv_node x)) = Some p" "sv_busy x (volume_id s) = None"
    and run: "run_state (repair_worker S (volume_id s)) x = (q, y)"
  shows "\<exists>a. idle (\<lambda>n. gives_up (mount_pod_name (ns_codec S) (ns_node S) (volume_id s)) a \<and>
         given_up pods (volume_id s) (spec_config_hash (ns_codec S) (ns_config S) s) (Some p) n \<or>
       brought pods (ns_codec S) (ns_config S) s a n \<or>
       waits pods now s (spec_config_hash (ns_codec S) (ns_config S) s) (Some p) a n) (volume_id s) y \<and>
     worker_answer a q (now (node_world (sv_node y)))"
proof -
  let ?C = "ns_codec S" and ?cfg = "ns_config S" and ?v = "volume_id s"
  let ?name = "mount_pod_name ?C (ns_node S) ?v" and ?h = "spec_config_hash ?C ?cfg s"
  let ?R = "\<lambda>a n. gives_up ?name a \<and> given_up pods ?v ?h (Some p) n \<or> brought pods ?C ?cfg s a n \<or> waits pods now s ?h (Some p) a n"
  have phase: "st_phase (state_of p) = PhaseTerminating \<or> st_phase (state_of p) = PhaseExited"
    using p by (intro gone_phase) (simp add: replaceable_def)
  have works': "api_works (node_cluster S) (mount_pod_name ?C (node_name s) ?v) pods now" using works node by simp
  have down: "down (mount_pod_name ?C (node_name s) ?v) (Some p)" using p node by (simp add: down_def)
  have R: "stable pods now (?R a)" for a
    by (intro stable_or stable_and stable_states)
  have first: "triple (ended pods p) (ensure (node_cluster S) ?C ?cfg s) ?R"
    using down_ensure [OF works' s down] node by (simp add: ended_def [abs_def])
  have "triple (idle (ended pods p) ?v) (repair_worker S ?v)
      (\<lambda>q t. \<exists>a. idle (?R a) ?v t \<and> worker_answer a q (now (node_world (sv_node t))))"
    by (rule worker_brings [OF works reads spec phase stable_states(1) _ first R]) (simp add: ended_def)
  then show ?thesis using x run by (auto dest!: tripleD simp: idle_def ended_def)
qed

text \<open>
  A pod that somebody deleted, and whose finalizer keeps it, is not waited for: the worker leaves it to the next round.
\<close>

lemma deleted_pod_left_to_round:
  assumes works: "api_works (node_cluster S) (mount_pod_name (ns_codec S) (ns_node S) (volume_id s)) pods now"
    and reads: "staged_reads S p pods now" and spec: "rebuilds S p s pods" and node: "node_name s = ns_node S"
    and s: "validate_spec s = Inr ()" "check_staging_path (ns_config S) (staging_path s) = Inr ()"
    and p: "replaceable (mount_pod_name (ns_codec S) (ns_node S) (volume_id s)) p" "om_deletion (pod_meta p) \<noteq> None"
    and x: "pods (node_world (sv_node x)) = Some p" "sv_busy x (volume_id s) = None"
    and run: "run_state (repair_worker S (volume_id s)) x = (q, y)"
  shows "q = Forgotten \<or> q = RateLimited"
proof -
  have "st_phase (state_of p) = PhaseTerminating" using p(2) by (simp add: state_of_fields)
  then show ?thesis
    using worker_first_repair [OF works reads spec node s p(1) x run]
    by (auto simp: idle_def gives_up_def brought_def waits_def worker_answer_def)
qed

text \<open>
  C24. A worker of the watch that repairs a staged volume whose mount pod ended brings the pod back or comes back for
  it. Either the pod built for the volume's spec is in the cluster, and the worker leaves the volume to the next event;
  or the restart state of the volume has given up, the ended pod is still there, and nothing is queued but the retry of
  the report; or the worker asks the queue for a delay that lasts at least until the restart time of the
  volume (unless that does not fit in the 292 years of a Go duration), and any later repair that finds the clock past that
  restart time brings the pod, without counting the exit again.
\<close>

theorem worker_restarts_pod:
  assumes works: "api_works (node_cluster S) (mount_pod_name (ns_codec S) (ns_node S) (volume_id s)) pods now"
    and reads: "staged_reads S p pods now" and spec: "rebuilds S p s pods" and node: "node_name s = ns_node S"
    and s: "validate_spec s = Inr ()" "check_staging_path (ns_config S) (staging_path s) = Inr ()"
    and p: "replaceable (mount_pod_name (ns_codec S) (ns_node S) (volume_id s)) p" "om_deletion (pod_meta p) = None"
    and x: "pods (node_world (sv_node x)) = Some p" "sv_busy x (volume_id s) = None"
    and run: "run_state (repair_worker S (volume_id s)) x = (q, y)"
    and h: "h = spec_config_hash (ns_codec S) (ns_config S) s"
  shows "(\<exists>q' sec. pods (node_world (sv_node y)) = Some q' \<and> created_as (build_pod (ns_codec S) (ns_config S) s h sec) q' \<and>
      q = Forgotten) \<or>
    (\<exists>e. node_backoffs (sv_node y) (volume_id s) = Some e \<and> entry_hash e = h \<and>
      pods (node_world (sv_node y)) = Some p \<and>
      (if gave_up (entry_backoff e) then q \<in> {RateLimited, Forgotten}
       else \<exists>d. q = After d \<and>
         (next_restart (entry_backoff e) - now (node_world (sv_node y)) < 2 ^ 63 \<longrightarrow>
            next_restart (entry_backoff e) \<le> now (node_world (sv_node y)) + d) \<and>
         (\<forall>w. pods w = Some p \<and> next_restart (entry_backoff e) \<le> now w \<longrightarrow>
            (case run_state (repair_worker S (volume_id s)) (y\<lparr>sv_node := (sv_node y)\<lparr>node_world := w\<rparr>\<rparr>) of
               (q', z) \<Rightarrow> q' = Forgotten \<and>
                 (\<exists>p' sec. pods (node_world (sv_node z)) = Some p' \<and>
                    created_as (build_pod (ns_codec S) (ns_config S) s h sec) p')))))"
proof -
  let ?C = "ns_codec S" and ?cfg = "ns_config S" and ?v = "volume_id s"
  let ?name = "mount_pod_name ?C (ns_node S) ?v" and ?h = "spec_config_hash ?C ?cfg s"
  let ?R = "\<lambda>a n. gives_up ?name a \<and> given_up pods ?v ?h (Some p) n \<or> brought pods ?C ?cfg s a n \<or> waits pods now s ?h (Some p) a n"
  have phase: "st_phase (state_of p) = PhaseTerminating \<or> st_phase (state_of p) = PhaseExited"
    using p(1) by (intro gone_phase) (simp add: replaceable_def)
  have works': "api_works (node_cluster S) (mount_pod_name ?C (node_name s) ?v) pods now" using works node by simp
  have down: "down (mount_pod_name ?C (node_name s) ?v) (Some p)" using p(1) node by (simp add: down_def)
  obtain a where a: "idle (?R a) ?v y" "worker_answer a q (now (node_world (sv_node y)))"
    using worker_first_repair [OF works reads spec node s p(1) x run] by blast
  have later: "q' = Forgotten \<and> (\<exists>b. brought pods ?C ?cfg s b (sv_node z))"
    if e: "due_at pods now t ?v e (Some p) (sv_node y)" "entry_hash e = ?h" "\<not> gave_up (entry_backoff e)"
        "exit_counted p ?h e" and w: "pods w = Some p" "next_restart (entry_backoff e) \<le> now w"
      and run: "run_state (repair_worker S ?v) (y\<lparr>sv_node := (sv_node y)\<lparr>node_world := w\<rparr>\<rparr>) = (q', z)" for e t w q' z
  proof -
    let ?I = "due_at pods now (now w) ?v e (Some p)"
    have "\<forall>q. Some p = Some q \<longrightarrow> exit_counted q ?h e" using e by simp
    from due_ensure [OF works' s down e(2,3) w(2) this]
    have brings: "triple ?I (ensure (node_cluster S) ?C ?cfg s) (brought pods ?C ?cfg s)" .
    have "triple (idle ?I ?v) (repair_worker S ?v)
        (\<lambda>q t. \<exists>a. idle (brought pods ?C ?cfg s a) ?v t \<and> worker_answer a q (now (node_world (sv_node t))))"
      by (rule worker_brings [OF works reads spec phase stable_states(2) _ brings stable_states(3)]) (simp add: due_at_def)
    moreover have "idle ?I ?v (y\<lparr>sv_node := (sv_node y)\<lparr>node_world := w\<rparr>\<rparr>)"
      using a(1) e(1) w by (simp add: idle_def due_at_def)
    ultimately obtain b where "idle (brought pods ?C ?cfg s b) ?v z" "worker_answer b q' (now (node_world (sv_node z)))"
      using run by (blast dest: tripleD)
    then show ?thesis by (auto simp: idle_def brought_def worker_answer_def)
  qed
  consider (up) "gives_up ?name a" "given_up pods ?v ?h (Some p) (sv_node y)" | (new) "brought pods ?C ?cfg s a (sv_node y)"
    | (wait) "waits pods now s ?h (Some p) a (sv_node y)"
    using a(1) by (auto simp: idle_def)
  then show ?thesis
  proof cases
    case up
    then have "q \<in> {RateLimited, Forgotten}" using a(2) by (auto simp: gives_up_def worker_answer_def)
    then show ?thesis using up(2) h unfolding given_up_def by (intro disjI2) auto
  next
    case new
    then have "q = Forgotten" using a(2) by (auto simp: brought_def worker_answer_def)
    then show ?thesis using new h unfolding brought_def by blast
  next
    case wait
    then obtain e t where e: "due_at pods now t ?v e (Some p) (sv_node y)" "entry_hash e = ?h" "\<not> gave_up (entry_backoff e)"
        "exit_counted p ?h e" and b: "st_backoff (fst a) = entry_backoff e"
      unfolding waits_def by blast
    have "st_phase (fst a) = PhaseExited" "snd a = None"
      using wait phase p(2) by (auto simp: waits_def state_of_fields)
    then obtain d where d: "q = After d"
        "min (next_restart (entry_backoff e) - now (node_world (sv_node y))) (2 ^ 63 - 1) \<le> d"
      using a(2) b by (auto simp: worker_answer_def)
    have "case run_state (repair_worker S ?v) (y\<lparr>sv_node := (sv_node y)\<lparr>node_world := w\<rparr>\<rparr>) of
        (q', z) \<Rightarrow> q' = Forgotten \<and> (\<exists>p' sec. pods (node_world (sv_node z)) = Some p' \<and>
          created_as (build_pod ?C ?cfg s h sec) p')"
      if "pods w = Some p \<and> next_restart (entry_backoff e) \<le> now w" for w
      using later [OF e conjunct1 [OF that] conjunct2 [OF that]] h unfolding brought_def
      by (auto split: prod.split) blast
    then show ?thesis
      using d e(1-3) h by (intro disjI2 exI [of _ e]) (auto simp: due_at_def)
  qed
qed

subsection \<open>A concrete server\<close>

definition restart_server :: "(int pod option \<times> nat, int) node_server" where
  "restart_server =
     \<lparr>ns_node = ''n1'', ns_host = (still_host [])\<lparr>h_is_mount_point := \<lambda>_. State_Monad.return (Inr False),
        h_stat := \<lambda>_. State_Monad.return (Inr ())\<rparr>, ns_cluster = restart_cluster,
      ns_codec = restart_codec, ns_config = demo_config, ns_kube = None, ns_record = None, ns_credentials = None,
      ns_cache = spec_cache served_spec, ns_now = State_Monad.return 0,
      ns_parsers = demo_parsers, ns_bool_order = [], ns_quantity_text = \<lambda>_. []\<rparr>"

definition exited_memory :: "(int pod option \<times> nat) server" where
  "exited_memory = \<lparr>sv_node = exited_node, sv_busy = Map.empty, sv_gave_up = Map.empty, sv_exit_reported = {},
     sv_dir_unreadable = False\<rparr>"

lemma restart_prepare: "run_state (prepare (ns_host restart_server) cfg s) w = (Inr (), w)"
  by (simp add: prepare_def unmount_all_def max_mount_layers_def numeral_eq_Suc mount_state_def restart_server_def
      still_host_def Let_def run_attempt)

lemma works_prepare:
  assumes "api_works K name pods now" "\<And>s. plain pods now (f s)" "\<And>s w. fst (run_state (f s) w) = Inr ()"
  shows "api_works (K\<lparr>k_prepare := Some f\<rparr>) name pods now"
  using assms by (simp add: api_works_def)

lemma restart_server_works: "api_works (node_cluster restart_server) name fst (int \<circ> snd)"
proof -
  have "ns_cluster restart_server = restart_cluster" by (simp add: restart_server_def)
  then show ?thesis
    unfolding node_cluster_def
    by (simp only:, intro works_prepare restart_cluster_works) (simp_all add: plain_def run_attempt restart_prepare)
qed

lemma exited_annotations: "pod_annotation exited_pod k =
    pod_annotation (build_pod restart_codec demo_config served_spec (spec_config_hash restart_codec demo_config served_spec) []) k"
  by (simp add: pod_annotation_def exited_fields)

lemma restart_staged: "staged_reads restart_server exited_pod fst (int \<circ> snd)"
  using restart_server_works
  by (simp add: staged_reads_def restart_server_def still_host_def plain_def exited_annotations built_annotations
      restart_cluster_def) (simp add: served_spec_def demo_spec_def)

lemma restart_spec_of:
  assumes "fst (node_world n) = Some exited_pod"
  shows "run_state (spec_of (node_cluster restart_server) restart_codec demo_config (state_of exited_pod) (spec_cache served_spec)) n = (Inr served_spec, n)"
proof -
  have "k_get_secret (node_cluster restart_server) ns x = State_Monad.return (Inr (build_secret restart_codec demo_config (\<lambda>_. 0) served_spec ''h''))" for ns x
    by (simp add: node_cluster_def restart_server_def restart_cluster_def)
  moreover have "staging_path served_spec \<noteq> []" by (simp add: served_spec_def demo_spec_def)
  moreover have "parse_stored restart_codec x = Some \<lparr>stored_uid = spec_uid served_spec, stored_gid = spec_gid served_spec,
      stored_options = spec_options served_spec, stored_resources = spec_resources served_spec\<rparr>" for x
    by (simp add: restart_codec_def)
  ultimately show ?thesis
    by (simp add: spec_of_def state_of_fields exited_annotations built_annotations on_world_def
        build_secret_def Let_def lookup0_def token_key_def passphrase_key_def)
qed

lemma restart_rebuilds: "rebuilds restart_server exited_pod served_spec fst"
  using restart_spec_of by (simp add: rebuilds_def restart_server_def)

lemma worker_first: "\<exists>d y. run_state (repair_worker restart_server ''d1'') exited_memory = (After d, y)"
proof -
  let ?K = "node_cluster restart_server"
  have K: "run_state (k_get_pod ?K ns x) (Some exited_pod, t) = (Inr exited_pod, Some exited_pod, t)"
      "run_state (k_clock ?K) (Some exited_pod, t) = (int t, Some exited_pod, Suc t)"
      "k_rand ?K = State_Monad.return (\<lambda>_. 0)"
      "k_get_secret ?K ns x = State_Monad.return (Inr (build_secret restart_codec demo_config (\<lambda>_. 0) served_spec ''h''))" for ns x t
    by (simp_all add: node_cluster_def restart_server_def restart_cluster_def logging_cluster_def)
  obtain st n1 where e: "run_state (ensure ?K restart_codec demo_config served_spec) exited_node = ((st, None), n1)"
      "st_phase st = PhaseExited" "next_restart (st_backoff st) = seconds 5"
    using exited_first [OF K(1-3)] by blast
  have S: "ns_codec restart_server = restart_codec" "ns_config restart_server = demo_config" "ns_node restart_server = ''n1''"
      "ns_kube restart_server = None" "ns_record restart_server = None" "h_mount_info (ns_host restart_server) = State_Monad.return (Inr [])"
      "h_stat (ns_host restart_server) f = State_Monad.return (Inr ())" "h_read_dir (ns_host restart_server) f = State_Monad.return (Inr ())"
      "ns_cache restart_server = spec_cache served_spec" for f
    by (simp_all add: restart_server_def still_host_def)
  have world: "node_world exited_node = (Some exited_pod, 0)" "exited_node\<lparr>node_world := (Some exited_pod, 0)\<rparr> = exited_node"
    by (simp_all add: exited_node_def)
  have spec: "run_state (spec_of ?K restart_codec demo_config (state_of exited_pod) (spec_cache served_spec)) exited_node = (Inr served_spec, exited_node)"
    by (rule restart_spec_of) (simp add: world)
  have emit: "run_state (emit_exit restart_server pst c) x = ((), x)" for pst :: "int pod_state" and c x
    by (simp add: emit_exit_def claim_ref_def record_event_def S split: option.split)
  have pod: "st_pod (state_of exited_pod) = Some exited_pod" "st_staging (state_of exited_pod) = staging_path served_spec"
      "staging_path served_spec \<noteq> []"
    by (simp_all add: state_of_fields exited_annotations built_annotations) (simp add: served_spec_def demo_spec_def)
  have clock: "\<exists>c z. run_state (ns_clock restart_server) x = (c, z)" for x by (metis surj_pair)
  have pos: "max (seconds 5) c \<noteq> zero_time" for c by (simp add: seconds_def zero_time_def max_def)
  show ?thesis
    by (simp add: repair_worker_def repair_def recover_volume_def ns_get_def get_state_def run_on_node on_world_def exited_memory_def
      K S world exited_fields(2-) recover_found_def on_host_def recover_idle_def is_busy_def read_server_def kubelet_staged_def
      driver_dir_readable_def recover_choice_def recover_ended_def report_exit_early_def e spec
      Let_def emit pod set_reported_def set_gave_up_def ns_ensure_def pos case_prod_beta)
qed

theorem worker_restarts_pod_witness:
  "case run_state (repair_worker restart_server ''d1'') exited_memory of (q, y) \<Rightarrow>
     \<exists>d e. q = After d \<and> node_backoffs (sv_node y) ''d1'' = Some e \<and>
       (\<forall>t. next_restart (entry_backoff e) \<le> int t \<longrightarrow>
          (case run_state (repair_worker restart_server ''d1'')
             (y\<lparr>sv_node := (sv_node y)\<lparr>node_world := (Some exited_pod, t)\<rparr>\<rparr>) of
             (q', z) \<Rightarrow> q' = Forgotten \<and> fst (node_world (sv_node z)) \<noteq> None))"
proof -
  have v: "volume_id served_spec = ''d1''" "node_name served_spec = ''n1''" by (simp_all add: served_spec_def demo_spec_def)
  have f: "ns_codec restart_server = restart_codec" "ns_config restart_server = demo_config" "ns_node restart_server = ''n1''"
    by (simp_all add: restart_server_def)
  have m: "fst (node_world (sv_node exited_memory)) = Some exited_pod" "sv_busy exited_memory (volume_id served_spec) = None"
    by (simp_all add: exited_memory_def exited_node_def)
  have down: "replaceable (mount_pod_name (ns_codec restart_server) (ns_node restart_server) (volume_id served_spec)) exited_pod"
    using exited_down by (simp add: down_def f v)
  obtain d y where run: "run_state (repair_worker restart_server ''d1'') exited_memory = (After d, y)"
    using worker_first by blast
  have node: "node_name served_spec = ns_node restart_server" and path: "check_staging_path (ns_config restart_server) (staging_path served_spec) = Inr ()"
    using served_checks(2) by (simp_all add: f v)
  from worker_restarts_pod [OF restart_server_works restart_staged restart_rebuilds node served_checks(1)
      path down exited_fields(2) m, unfolded v, OF run refl]
  obtain e where e: "node_backoffs (sv_node y) ''d1'' = Some e"
      "\<forall>w. fst w = Some exited_pod \<and> next_restart (entry_backoff e) \<le> (int \<circ> snd) w \<longrightarrow>
          (case run_state (repair_worker restart_server ''d1'') (y\<lparr>sv_node := (sv_node y)\<lparr>node_world := w\<rparr>\<rparr>) of
             (q', z) \<Rightarrow> q' = Forgotten \<and> (\<exists>p' sec. fst (node_world (sv_node z)) = Some p' \<and>
               created_as (build_pod (ns_codec restart_server) (ns_config restart_server) served_spec
                 (spec_config_hash (ns_codec restart_server) (ns_config restart_server) served_spec) sec) p'))"
    by (auto split: if_splits)
  have "case run_state (repair_worker restart_server ''d1'')
             (y\<lparr>sv_node := (sv_node y)\<lparr>node_world := (Some exited_pod, t)\<rparr>\<rparr>) of
             (q', z) \<Rightarrow> q' = Forgotten \<and> fst (node_world (sv_node z)) \<noteq> None"
    if "next_restart (entry_backoff e) \<le> int t" for t
    using e(2) [rule_format, of "(Some exited_pod, t)"] that by (auto split: prod.splits)
  then show ?thesis unfolding run prod.case using e(1) by blast
qed

end
